(* ===== verification/Prelude.thy ===== *)
theory Prelude
  imports Main "HOL-Library.Word"
begin

text \<open>
  The types and generic facts every other theory of the development shares: Go's machine
  integers, instants and durations, UUIDs, decimal integers as text (what Redis and
  \<^verbatim>\<open>strconv\<close> exchange), and the collections of rewrite rules the component proofs use.
\<close>

section \<open>Named collections\<close>

text \<open>
  \<open>spec_simps\<close> holds the equations that unfold an operation of the code one level;
  \<open>frame_simps\<close> the facts that say which part of the state an operation leaves alone.
\<close>

named_theorems spec_simps
named_theorems frame_simps

section \<open>Machine integers\<close>

type_synonym int32 = "32 word"
type_synonym int64 = "64 word"

text \<open>
  A \<^verbatim>\<open>uuid.UUID\<close> is an array of sixteen bytes, that is a 128-bit value; the nil UUID is 0.
\<close>

type_synonym uuid = "128 word"

definition uuid_nil :: uuid where
  "uuid_nil = 0"

text \<open>Go's integer division truncates towards zero.\<close>

definition go_div :: "int \<Rightarrow> int \<Rightarrow> int" where
  "go_div a b = sgn a * sgn b * (\<bar>a\<bar> div \<bar>b\<bar>)"

lemma go_div_nonneg: "0 \<le> a \<Longrightarrow> 0 < b \<Longrightarrow> go_div a b = a div b"
  by (cases "a = 0") (auto simp: go_div_def)

section \<open>Instants and durations\<close>

text \<open>
  A \<^verbatim>\<open>time.Time\<close> is modelled by its wall reading in nanoseconds since the Unix epoch and a
  \<^verbatim>\<open>time.Duration\<close> by its nanoseconds. \<^verbatim>\<open>Unix\<close> and \<^verbatim>\<open>UnixMilli\<close> round towards minus
  infinity (the nanosecond part of an instant is never negative), \<^verbatim>\<open>Milliseconds\<close> of a
  duration truncates.
\<close>

type_synonym time = int
type_synonym duration = int

abbreviation Millisecond :: duration where "Millisecond \<equiv> 1000000"
abbreviation Second :: duration where "Second \<equiv> 1000000000"
abbreviation Minute :: duration where "Minute \<equiv> 60000000000"
abbreviation Hour :: duration where "Hour \<equiv> 3600000000000"

definition Unix :: "time \<Rightarrow> int" where
  "Unix t = t div Second"

definition UnixMilli :: "time \<Rightarrow> int" where
  "UnixMilli t = t div Millisecond"

definition Milliseconds :: "duration \<Rightarrow> int" where
  "Milliseconds d = go_div d Millisecond"

lemma UnixMilli_mono: "s \<le> t \<Longrightarrow> UnixMilli s \<le> UnixMilli t"
  by (simp add: UnixMilli_def zdiv_mono1)

lemma UnixMilli_add_millis: "UnixMilli (t + n * Millisecond) = UnixMilli t + n"
  by (simp add: UnixMilli_def)

section \<open>Decimal integers as text\<close>

definition digit_char :: "nat \<Rightarrow> char" where
  "digit_char d = char_of (48 + d)"

fun nat_decimal :: "nat \<Rightarrow> string" where
  "nat_decimal n = (if n < 10 then [digit_char n]
     else nat_decimal (n div 10) @ [digit_char (n mod 10)])"

declare nat_decimal.simps [simp del]

definition decimal :: "int \<Rightarrow> string" where
  "decimal n = (if n < 0 then CHR ''-'' # nat_decimal (nat (- n)) else nat_decimal (nat n))"

definition is_digit :: "char \<Rightarrow> bool" where
  "is_digit c \<longleftrightarrow> 48 \<le> (of_char c :: nat) \<and> (of_char c :: nat) \<le> 57"

definition digit_val :: "char \<Rightarrow> nat" where
  "digit_val c = of_char c - 48"

definition digits_val :: "string \<Rightarrow> nat" where
  "digits_val s = foldl (\<lambda>a c. a * 10 + digit_val c) 0 s"

definition parse_nat :: "string \<Rightarrow> nat option" where
  "parse_nat s = (if s \<noteq> [] \<and> list_all is_digit s then Some (digits_val s) else None)"

text \<open>
  \<^verbatim>\<open>strconv.ParseInt(s, 10, _)\<close> before its range check: an optional sign, then at least one
  digit and nothing else.
\<close>

definition parse_int :: "string \<Rightarrow> int option" where
  "parse_int s = (case s of [] \<Rightarrow> None
     | c # cs \<Rightarrow> if c = CHR ''-'' then map_option (\<lambda>n. - int n) (parse_nat cs)
                else if c = CHR ''+'' then map_option int (parse_nat cs)
                else map_option int (parse_nat s))"

lemma of_char_digit_char: "d < 10 \<Longrightarrow> (of_char (digit_char d) :: nat) = 48 + d"
  by (simp add: digit_char_def)

lemma is_digit_digit_char [simp]: "d < 10 \<Longrightarrow> is_digit (digit_char d)"
  by (simp add: is_digit_def of_char_digit_char)

lemma digit_val_digit_char [simp]: "d < 10 \<Longrightarrow> digit_val (digit_char d) = d"
  by (simp add: digit_val_def of_char_digit_char)

lemma nat_decimal_digits: "list_all is_digit (nat_decimal n) \<and> nat_decimal n \<noteq> []"
proof (induction n rule: nat_decimal.induct)
  case (1 n)
  then show ?case by (cases "n < 10") (auto simp: nat_decimal.simps [of n])
qed

lemma digits_val_nat_decimal: "digits_val (nat_decimal n) = n"
proof (induction n rule: nat_decimal.induct)
  case (1 n)
  then show ?case
    by (cases "n < 10") (auto simp: nat_decimal.simps [of n] digits_val_def)
qed

lemma parse_nat_decimal [simp]: "parse_nat (nat_decimal n) = Some n"
  by (simp add: parse_nat_def nat_decimal_digits digits_val_nat_decimal)

lemma sign_not_digit: "\<not> is_digit (CHR ''-'')" "\<not> is_digit (CHR ''+'')"
  by (simp_all add: is_digit_def)

lemma parse_int_decimal [simp]: "parse_int (decimal n) = Some n"
proof (cases "n < 0")
  case True
  then show ?thesis by (simp add: decimal_def parse_int_def)
next
  case False
  obtain c cs where c: "nat_decimal (nat n) = c # cs"
    using nat_decimal_digits [of "nat n"] by (cases "nat_decimal (nat n)") auto
  then have "is_digit c" using nat_decimal_digits [of "nat n"] by simp
  then have "c \<noteq> CHR ''-'' \<and> c \<noteq> CHR ''+''" using sign_not_digit by auto
  moreover have "parse_nat (c # cs) = Some (nat n)"
    using parse_nat_decimal [of "nat n"] c by simp
  ultimately show ?thesis using False by (simp add: decimal_def parse_int_def c)
qed

lemma decimal_inj: "decimal m = decimal n \<longleftrightarrow> m = n"
  by (metis option.inject parse_int_decimal)

section \<open>ASCII text\<close>

definition ascii :: "string \<Rightarrow> bool" where
  "ascii s \<longleftrightarrow> list_all (\<lambda>c. (of_char c :: nat) < 128) s"

lemma ascii_simps [simp]:
  "ascii []" "ascii (c # s) \<longleftrightarrow> (of_char c :: nat) < 128 \<and> ascii s" "ascii (s @ t) \<longleftrightarrow> ascii s \<and> ascii t"
  by (auto simp: ascii_def)

section \<open>Sums as results\<close>

definition is_ok :: "'e + 'a \<Rightarrow> bool" where
  "is_ok r \<longleftrightarrow> (case r of Inl _ \<Rightarrow> False | Inr _ \<Rightarrow> True)"

lemma is_ok_simps [simp]: "is_ok (Inr a)" "\<not> is_ok (Inl e)"
  by (simp_all add: is_ok_def)

definition err_of :: "'e + 'a \<Rightarrow> 'e option" where
  "err_of r = (case r of Inl e \<Rightarrow> Some e | Inr _ \<Rightarrow> None)"

lemma err_of_simps [simp]: "err_of (Inl e) = Some e" "err_of (Inr a) = None"
  by (simp_all add: err_of_def)

section \<open>Prefixes of lists\<close>

text \<open>Redis's \<^verbatim>\<open>LIMIT 0 n\<close>: a negative count takes everything.\<close>

definition take_limit :: "int \<Rightarrow> 'a list \<Rightarrow> 'a list" where
  "take_limit n xs = (if n < 0 then xs else take (nat n) xs)"

lemma set_take_limit: "set (take_limit n xs) \<subseteq> set xs"
  by (auto simp: take_limit_def dest: in_set_takeD)

lemma distinct_take_limit: "distinct xs \<Longrightarrow> distinct (take_limit n xs)"
  by (simp add: take_limit_def)

lemma length_take_limit: "0 \<le> n \<Longrightarrow> length (take_limit n xs) = min (nat n) (length xs)"
  by (simp add: take_limit_def)

end
