(* ===== verification/Go_Errors.thy ===== *)
theory Go_Errors
  imports Prelude
begin

text \<open>
  Go's \<^verbatim>\<open>error\<close> values as the code distinguishes them, the chain walks \<^verbatim>\<open>errors.Is\<close> and
  \<^verbatim>\<open>errors.As\<close>, the package \<^verbatim>\<open>pkg/apperror\<close> and the repository error wrapper of
  \<^verbatim>\<open>pkg/utils/errorbuilder.go\<close>.
\<close>

section \<open>Error values\<close>

text \<open>
  \<open>kind\<close> is \<^verbatim>\<open>apperror.Kind\<close>, a string type with ten named values.
\<close>

type_synonym kind = string

definition InvalidInput :: kind where "InvalidInput = ''invalid_input''"
definition AlreadyExists :: kind where "AlreadyExists = ''already_exist''"
definition NotFound :: kind where "NotFound = ''not_found''"
definition Conflict :: kind where "Conflict = ''conflict''"
definition Unauthorised :: kind where "Unauthorised = ''unauthorised''"
definition Forbidden :: kind where "Forbidden = ''forbidden''"
definition RequestTimeout :: kind where "RequestTimeout = ''request_timeout''"
definition Internal :: kind where "Internal = ''internal''"
definition Dependency :: kind where "Dependency = ''dependency_failure''"
definition DatabaseErr :: kind where "DatabaseErr = ''database_error''"

lemmas kind_defs = InvalidInput_def AlreadyExists_def NotFound_def Conflict_def
  Unauthorised_def Forbidden_def RequestTimeout_def Internal_def Dependency_def DatabaseErr_def

text \<open>
  The errors the code can tell apart. The sentinels are \<^verbatim>\<open>context.Canceled\<close>,
  \<^verbatim>\<open>context.DeadlineExceeded\<close>, \<^verbatim>\<open>redis.Nil\<close> and \<^verbatim>\<open>pgx.ErrNoRows\<close>; \<open>PgError\<close> is
  \<^verbatim>\<open>pgconn.PgError\<close> with its code, constraint and table; \<open>DNSError\<close>, \<open>OpError\<close> and
  \<open>URLError\<close> are the wrappers of \<^verbatim>\<open>net\<close> and \<^verbatim>\<open>net/url\<close>; \<open>TimeoutErr b\<close> is any other
  error whose \<^verbatim>\<open>Timeout()\<close> is true, with \<open>b\<close> telling whether its \<^verbatim>\<open>Is\<close> method accepts
  \<^verbatim>\<open>context.DeadlineExceeded\<close> (as the dialer's does and the TLS handshake's does not);
  \<open>Errorf\<close> is \<^verbatim>\<open>fmt.Errorf\<close> with \<^verbatim>\<open>%w\<close>; \<open>Opaque\<close> is every other error. \<open>AppError\<close> is
  the struct \<^verbatim>\<open>apperror.Error\<close>, field by field; a nil field is \<open>None\<close>.
\<close>

datatype go_error =
    Canceled
  | DeadlineExceeded
  | RedisNil
  | ErrNoRows
  | PgError string string string
  | DNSError bool
  | TimeoutErr bool
  | OpError go_error
  | URLError go_error
  | Errorf string go_error
  | Opaque string
  | AppError (Kind: kind) (Op: string) (Err: "go_error option") (Message: string)
      (Stack: "string option")

type_synonym 'a result = "go_error + 'a"

fun Unwrap :: "go_error \<Rightarrow> go_error option" where
  "Unwrap (OpError e) = Some e"
| "Unwrap (URLError e) = Some e"
| "Unwrap (Errorf _ e) = Some e"
| "Unwrap (AppError _ _ err _ _) = err"
| "Unwrap _ = None"

text \<open>The chain \<^verbatim>\<open>errors.Is\<close> and \<^verbatim>\<open>errors.As\<close> walk: the error, then what it wraps.\<close>

fun error_chain :: "go_error \<Rightarrow> go_error list" where
  "error_chain (OpError e) = OpError e # error_chain e"
| "error_chain (URLError e) = URLError e # error_chain e"
| "error_chain (Errorf m e) = Errorf m e # error_chain e"
| "error_chain (AppError k op (Some e) m st) = AppError k op (Some e) m st # error_chain e"
| "error_chain e = [e]"

lemma error_chain_unfold:
  "error_chain e = e # (case Unwrap e of None \<Rightarrow> [] | Some e' \<Rightarrow> error_chain e')"
  by (cases e rule: error_chain.cases) simp_all

definition errors_Is :: "go_error \<Rightarrow> go_error \<Rightarrow> bool" where
  "errors_Is err target \<longleftrightarrow> (\<exists>e \<in> set (error_chain err).
     e = target \<or> e = TimeoutErr True \<and> target = DeadlineExceeded)"

definition errors_As :: "(go_error \<Rightarrow> bool) \<Rightarrow> go_error \<Rightarrow> go_error option" where
  "errors_As is_target err = find is_target (error_chain err)"

fun is_PgError :: "go_error \<Rightarrow> bool" where
  "is_PgError (PgError _ _ _) = True" | "is_PgError _ = False"

fun is_AppError :: "go_error \<Rightarrow> bool" where
  "is_AppError (AppError _ _ _ _ _) = True" | "is_AppError _ = False"

lemma find_Some_D: "find P xs = Some x \<Longrightarrow> x \<in> set xs \<and> P x"
  by (induction xs) (auto split: if_splits)

lemma errors_As_SomeD: "errors_As P e = Some x \<Longrightarrow> x \<in> set (error_chain e) \<and> P x"
  by (simp add: errors_As_def find_Some_D)

lemma errors_As_None_iff: "errors_As P e = None \<longleftrightarrow> (\<forall>x \<in> set (error_chain e). \<not> P x)"
  by (auto simp: errors_As_def find_None_iff)

section \<open>The package apperror\<close>

text \<open>
  \<^verbatim>\<open>Error()\<close>: \<open>text\<close> is the \<^verbatim>\<open>Error()\<close> text of the wrapped error.
\<close>

definition Error_text :: "(go_error \<Rightarrow> string) \<Rightarrow> go_error \<Rightarrow> string" where
  "Error_text text e =
     (if Op e \<noteq> '''' \<and> Err e \<noteq> None then Op e @ '': '' @ text (the (Err e))
      else if Err e \<noteq> None then text (the (Err e))
      else if Op e \<noteq> '''' then Op e
      else ''unknown error'')"

fun WithMessage :: "go_error \<Rightarrow> string \<Rightarrow> go_error" where
  "WithMessage (AppError k op err _ st) msg = AppError k op err msg st"
| "WithMessage e _ = e"

fun WithOp :: "go_error \<Rightarrow> string \<Rightarrow> go_error" where
  "WithOp (AppError k _ err m st) op = AppError k op err m st"
| "WithOp e _ = e"

text \<open>\<open>stk\<close> is what \<^verbatim>\<open>debug.Stack()\<close> returns at the call.\<close>

fun WithErr :: "string \<Rightarrow> go_error \<Rightarrow> go_error option \<Rightarrow> go_error" where
  "WithErr stk (AppError k op _ m st) err =
     AppError k op err m (if st = None \<and> (k = Internal \<or> k = Dependency) then Some stk else st)"
| "WithErr _ e _ = e"

definition New :: "string \<Rightarrow> kind \<Rightarrow> string \<Rightarrow> go_error option \<Rightarrow> go_error" where
  "New stk k op err =
     AppError k op err '''' (if k = Internal \<or> k = Dependency then Some stk else None)"

definition IsKind :: "go_error \<Rightarrow> kind \<Rightarrow> bool" where
  "IsKind err k = (case errors_As is_AppError err of
     Some target \<Rightarrow> Kind target = k | None \<Rightarrow> False)"

text \<open>\<^verbatim>\<open>pkg/apperror/http.go\<close>: the HTTP status of a kind, and of an error.\<close>

definition GetHTTPStatus :: "kind \<Rightarrow> int" where
  "GetHTTPStatus k =
     (if k = InvalidInput then 400
      else if k = NotFound then 404
      else if k = Conflict then 409
      else if k = Unauthorised then 401
      else if k = Forbidden then 403
      else if k = Dependency then 502
      else if k = Internal then 500
      else 500)"

definition HTTPStatus :: "go_error option \<Rightarrow> int" where
  "HTTPStatus err = (case Option.bind err (errors_As is_AppError) of
     None \<Rightarrow> 500
   | Some e \<Rightarrow>
      (if Kind e = InvalidInput then 400
       else if Kind e = NotFound then 404
       else if Kind e = Conflict then 409
       else if Kind e = Unauthorised then 401
       else if Kind e = Forbidden then 403
       else if Kind e = Dependency then 502
       else if Kind e = Internal then 500
       else 500))"

lemma is_AppError_eq: "is_AppError e \<Longrightarrow> e = AppError (Kind e) (Op e) (Err e) (Message e) (Stack e)"
  by (cases e) auto

lemma IsKind_AppError [simp]: "IsKind (AppError k op err m st) k' \<longleftrightarrow> k = k'"
  by (cases err) (simp_all add: IsKind_def errors_As_def)

lemma errors_As_AppError [simp]:
  "errors_As is_AppError (AppError k op err m st) = Some (AppError k op err m st)"
  by (cases err) (simp_all add: errors_As_def)

lemma HTTPStatus_eq_GetHTTPStatus:
  "HTTPStatus err = (case Option.bind err (errors_As is_AppError) of
     None \<Rightarrow> 500 | Some e \<Rightarrow> GetHTTPStatus (Kind e))"
  by (simp add: HTTPStatus_def GetHTTPStatus_def split: option.split)

section \<open>Wrapping repository errors\<close>

definition WrapRepoError :: "string \<Rightarrow> go_error \<Rightarrow> bool \<Rightarrow> go_error" where
  "WrapRepoError op err isNotFoundErrPossible =
     (if errors_Is err Canceled \<or> errors_Is err DeadlineExceeded
      then AppError RequestTimeout op None ''request cancelled or timed out'' None
      else if isNotFoundErrPossible \<and> errors_Is err ErrNoRows
      then AppError NotFound op None ''resources not found'' None
      else if errors_As is_PgError err \<noteq> None
      then AppError DatabaseErr op (Some err) ''internal server error'' None
      else AppError Internal op (Some err) ''internal server error'' None)"

lemma WrapRepoError_is_AppError: "is_AppError (WrapRepoError op err nf)"
  by (simp add: WrapRepoError_def)

lemma Op_WrapRepoError [simp]: "Op (WrapRepoError op err nf) = op"
  by (simp add: WrapRepoError_def)

lemma WrapRepoError_not_NotFound:
  "IsKind (WrapRepoError op err nf) NotFound \<longleftrightarrow>
     nf \<and> errors_Is err ErrNoRows \<and> \<not> errors_Is err Canceled \<and> \<not> errors_Is err DeadlineExceeded"
  by (simp add: WrapRepoError_def kind_defs)

end
