(* ===== verification/Redis_Server.thy ===== *)
theory Redis_Server
  imports Go_Errors "HOL-Library.AList"
begin

text \<open>
  The Redis server the program talks to. Redis is a service outside the repository: its
  commands are a record of functions over an opaque server state \<open>'k\<close>, passed to every
  operation of the code that issues one, and the locale \<open>redis_server\<close> states the
  documented effect of each command on the keyspace that the read commands report. At the end
  of the theory an in-memory server with every command the program uses satisfies the contract.
\<close>

section \<open>The keyspace\<close>

text \<open>
  A key holds a sorted set (members with scores), a hash or a string. Scores are doubles in
  Redis; the program only uses integral milliseconds far below $2^{53}$, where doubles are
  exact, so scores are integers here. \<open>ttls\<close> holds the remaining time to live of a volatile
  key, in nanoseconds.
\<close>

datatype rvalue =
    VZset "string \<rightharpoonup> int"
  | VHash "string \<rightharpoonup> string"
  | VStr string

record keyspace =
  vals :: "string \<rightharpoonup> rvalue"
  ttls :: "string \<rightharpoonup> duration"

definition zset :: "keyspace \<Rightarrow> string \<Rightarrow> string \<rightharpoonup> int" where
  "zset ks k = (case vals ks k of Some (VZset z) \<Rightarrow> z | _ \<Rightarrow> Map.empty)"

definition hash :: "keyspace \<Rightarrow> string \<Rightarrow> string \<rightharpoonup> string" where
  "hash ks k = (case vals ks k of Some (VHash h) \<Rightarrow> h | _ \<Rightarrow> Map.empty)"

definition str :: "keyspace \<Rightarrow> string \<Rightarrow> string option" where
  "str ks k = (case vals ks k of Some (VStr v) \<Rightarrow> Some v | _ \<Rightarrow> None)"

text \<open>A command on a key of another type is refused; an absent key has every type.\<close>

definition is_zset :: "keyspace \<Rightarrow> string \<Rightarrow> bool" where
  "is_zset ks k \<longleftrightarrow> (case vals ks k of None \<Rightarrow> True | Some (VZset _) \<Rightarrow> True | _ \<Rightarrow> False)"

definition is_hash :: "keyspace \<Rightarrow> string \<Rightarrow> bool" where
  "is_hash ks k \<longleftrightarrow> (case vals ks k of None \<Rightarrow> True | Some (VHash _) \<Rightarrow> True | _ \<Rightarrow> False)"

definition is_str :: "keyspace \<Rightarrow> string \<Rightarrow> bool" where
  "is_str ks k \<longleftrightarrow> (case vals ks k of None \<Rightarrow> True | Some (VStr _) \<Rightarrow> True | _ \<Rightarrow> False)"

definition drop_key :: "string \<Rightarrow> keyspace \<Rightarrow> keyspace" where
  "drop_key k ks = ks\<lparr>vals := (vals ks)(k := None), ttls := (ttls ks)(k := None)\<rparr>"

text \<open>A sorted set that becomes empty disappears with its key.\<close>

definition put_zset :: "string \<Rightarrow> (string \<rightharpoonup> int) \<Rightarrow> keyspace \<Rightarrow> keyspace" where
  "put_zset k z ks = (if z = Map.empty then drop_key k ks
     else ks\<lparr>vals := (vals ks)(k \<mapsto> VZset z)\<rparr>)"

definition put_hash :: "string \<Rightarrow> (string \<rightharpoonup> string) \<Rightarrow> keyspace \<Rightarrow> keyspace" where
  "put_hash k h ks = ks\<lparr>vals := (vals ks)(k \<mapsto> VHash h)\<rparr>"

definition put_str :: "string \<Rightarrow> string \<Rightarrow> keyspace \<Rightarrow> keyspace" where
  "put_str k v ks = ks\<lparr>vals := (vals ks)(k \<mapsto> VStr v)\<rparr>"

definition put_ttl :: "string \<Rightarrow> duration \<Rightarrow> keyspace \<Rightarrow> keyspace" where
  "put_ttl k d ks = ks\<lparr>ttls := (ttls ks)(k \<mapsto> d)\<rparr>"

lemmas keyspace_upds = drop_key_def put_zset_def put_hash_def put_str_def put_ttl_def

lemma ttls_upd [simp]:
  "ttls (drop_key k ks) k' = (if k' = k then None else ttls ks k')"
  "ttls (put_zset k z ks) k' = (if k' = k \<and> z = Map.empty then None else ttls ks k')"
  "ttls (put_hash k h ks) = ttls ks"
  "ttls (put_str k v ks) = ttls ks"
  "ttls (put_ttl k d ks) k' = (if k' = k then Some d else ttls ks k')"
  by (simp_all add: keyspace_upds)

lemma zset_upd [simp]:
  "zset (drop_key k ks) k' = (if k' = k then Map.empty else zset ks k')"
  "zset (put_zset k z ks) k' = (if k' = k then z else zset ks k')"
  "zset (put_hash k h ks) k' = (if k' = k then Map.empty else zset ks k')"
  "zset (put_str k v ks) k' = (if k' = k then Map.empty else zset ks k')"
  "zset (put_ttl k d ks) k' = zset ks k'"
  by (simp_all add: zset_def keyspace_upds)

lemma hash_upd [simp]:
  "hash (drop_key k ks) k' = (if k' = k then Map.empty else hash ks k')"
  "hash (put_zset k z ks) k' = (if k' = k then Map.empty else hash ks k')"
  "hash (put_hash k h ks) k' = (if k' = k then h else hash ks k')"
  "hash (put_str k v ks) k' = (if k' = k then Map.empty else hash ks k')"
  "hash (put_ttl k d ks) k' = hash ks k'"
  by (simp_all add: hash_def keyspace_upds)

lemma str_upd [simp]:
  "str (drop_key k ks) k' = (if k' = k then None else str ks k')"
  "str (put_zset k z ks) k' = (if k' = k then None else str ks k')"
  "str (put_hash k h ks) k' = (if k' = k then None else str ks k')"
  "str (put_str k v ks) k' = (if k' = k then Some v else str ks k')"
  "str (put_ttl k d ks) k' = str ks k'"
  by (simp_all add: str_def keyspace_upds)

lemma is_zset_upd [simp]:
  "is_zset (drop_key k ks) k' \<longleftrightarrow> k' = k \<or> is_zset ks k'"
  "is_zset (put_zset k z ks) k' \<longleftrightarrow> k' = k \<or> is_zset ks k'"
  "is_zset (put_hash k h ks) k' \<longleftrightarrow> k' \<noteq> k \<and> is_zset ks k'"
  "is_zset (put_str k v ks) k' \<longleftrightarrow> k' \<noteq> k \<and> is_zset ks k'"
  "is_zset (put_ttl k d ks) k' \<longleftrightarrow> is_zset ks k'"
  by (simp_all add: is_zset_def keyspace_upds)

lemma is_hash_upd [simp]:
  "is_hash (drop_key k ks) k' \<longleftrightarrow> k' = k \<or> is_hash ks k'"
  "is_hash (put_zset k z ks) k' \<longleftrightarrow> (if k' = k then z = Map.empty else is_hash ks k')"
  "is_hash (put_hash k h ks) k' \<longleftrightarrow> k' = k \<or> is_hash ks k'"
  "is_hash (put_str k v ks) k' \<longleftrightarrow> k' \<noteq> k \<and> is_hash ks k'"
  "is_hash (put_ttl k d ks) k' \<longleftrightarrow> is_hash ks k'"
  by (simp_all add: is_hash_def keyspace_upds)

lemma is_str_upd [simp]:
  "is_str (drop_key k ks) k' \<longleftrightarrow> k' = k \<or> is_str ks k'"
  "is_str (put_zset k z ks) k' \<longleftrightarrow> (if k' = k then z = Map.empty else is_str ks k')"
  "is_str (put_hash k h ks) k' \<longleftrightarrow> k' \<noteq> k \<and> is_str ks k'"
  "is_str (put_str k v ks) k' \<longleftrightarrow> k' = k \<or> is_str ks k'"
  "is_str (put_ttl k d ks) k' \<longleftrightarrow> is_str ks k'"
  by (simp_all add: is_str_def keyspace_upds)

lemma vals_upd [simp]:
  "vals (drop_key k ks) k' = (if k' = k then None else vals ks k')"
  "vals (put_hash k h ks) k' = (if k' = k then Some (VHash h) else vals ks k')"
  "vals (put_str k v ks) k' = (if k' = k then Some (VStr v) else vals ks k')"
  "vals (put_ttl k d ks) k' = vals ks k'"
  "k' \<noteq> k \<Longrightarrow> vals (put_zset k z ks) k' = vals ks k'"
  by (simp_all add: keyspace_upds)

section \<open>Commands\<close>

record 'k redis =
  view :: "'k \<Rightarrow> keyspace"
  ZADD :: "string \<Rightarrow> (int \<times> string) list \<Rightarrow> 'k \<Rightarrow> 'k \<times> int result"
  ZREM :: "string \<Rightarrow> string \<Rightarrow> 'k \<Rightarrow> 'k \<times> int result"
  ZRANGEBYSCORE :: "string \<Rightarrow> int \<Rightarrow> int \<Rightarrow> 'k \<Rightarrow> 'k \<times> string list result"
  ZPOPMIN :: "string \<Rightarrow> int \<Rightarrow> 'k \<Rightarrow> 'k \<times> (string \<times> int) list result"
  HINCRBY :: "string \<Rightarrow> string \<Rightarrow> int \<Rightarrow> 'k \<Rightarrow> 'k \<times> int result"
  HSET :: "string \<Rightarrow> (string \<times> string) list \<Rightarrow> 'k \<Rightarrow> 'k \<times> int result"
  HSETNX :: "string \<Rightarrow> string \<Rightarrow> string \<Rightarrow> 'k \<Rightarrow> 'k \<times> bool result"
  HGET :: "string \<Rightarrow> string \<Rightarrow> 'k \<Rightarrow> 'k \<times> string result"
  HGETALL :: "string \<Rightarrow> 'k \<Rightarrow> 'k \<times> (string \<rightharpoonup> string) result"
  DEL :: "string \<Rightarrow> 'k \<Rightarrow> 'k \<times> int result"
  INCR :: "string \<Rightarrow> 'k \<Rightarrow> 'k \<times> int result"
  EXPIRE :: "string \<Rightarrow> duration \<Rightarrow> 'k \<Rightarrow> 'k \<times> bool result"
  GET :: "string \<Rightarrow> 'k \<Rightarrow> 'k \<times> string result"
  SETEX :: "string \<Rightarrow> string \<Rightarrow> duration \<Rightarrow> 'k \<Rightarrow> 'k \<times> unit result"

text \<open>
  \<open>meets V cmd pre post\<close>: the command succeeds exactly where \<open>pre\<close> holds of the keyspace,
  with the reply and the new keyspace that \<open>post\<close> allows; a refused command has no effect.
\<close>

definition meets :: "('k \<Rightarrow> keyspace) \<Rightarrow> ('k \<Rightarrow> 'k \<times> 'a result) \<Rightarrow> (keyspace \<Rightarrow> bool) \<Rightarrow>
    (keyspace \<Rightarrow> 'a \<Rightarrow> keyspace \<Rightarrow> bool) \<Rightarrow> bool" where
  "meets V cmd pre post \<longleftrightarrow> (\<forall>s. case cmd s of
     (s', Inr r) \<Rightarrow> pre (V s) \<and> post (V s) r (V s')
   | (s', Inl e) \<Rightarrow> \<not> pre (V s) \<and> V s' = V s)"

lemma meets_Inr: "meets V cmd pre post \<Longrightarrow> cmd s = (s', Inr r) \<Longrightarrow> pre (V s) \<and> post (V s) r (V s')"
  by (auto simp: meets_def dest: spec [of _ s])

lemma meets_Inl: "meets V cmd pre post \<Longrightarrow> cmd s = (s', Inl e) \<Longrightarrow> \<not> pre (V s) \<and> V s' = V s"
  by (auto simp: meets_def dest: spec [of _ s])

lemma meets_weaken:
  assumes "meets V cmd pre post" and "\<And>ks r ks'. post ks r ks' \<Longrightarrow> post' ks r ks'"
  shows "meets V cmd pre post'"
  unfolding meets_def
proof
  fix s
  show "case cmd s of (s', Inr r) \<Rightarrow> pre (V s) \<and> post' (V s) r (V s')
    | (s', Inl e) \<Rightarrow> \<not> pre (V s) \<and> V s' = V s"
    using meets_Inr [OF assms(1), of s] meets_Inl [OF assms(1), of s] assms(2)
    by (auto split: prod.split sum.split)
qed

lemma meets_up:
  assumes "meets V cmd pre post" and "pre (V s)"
  obtains s' r where "cmd s = (s', Inr r)" and "post (V s) r (V s')"
proof -
  obtain s' res where c: "cmd s = (s', res)" by (cases "cmd s")
  show thesis
  proof (cases res)
    case (Inl e)
    with assms c show ?thesis by (auto dest: meets_Inl)
  next
    case (Inr r)
    with assms(1) c have "post (V s) r (V s')" by (auto dest: meets_Inr)
    with c Inr that show ?thesis by blast
  qed
qed

definition in_int64 :: "int \<Rightarrow> bool" where
  "in_int64 n \<longleftrightarrow> - (2 ^ 63) \<le> n \<and> n < 2 ^ 63"

text \<open>Redis reads an integer only from its exact decimal form.\<close>

definition redis_int :: "string \<Rightarrow> int option" where
  "redis_int t = (case parse_int t of
     Some n \<Rightarrow> if decimal n = t \<and> in_int64 n then Some n else None | None \<Rightarrow> None)"

lemma redis_int_decimal [simp]: "in_int64 n \<Longrightarrow> redis_int (decimal n) = Some n"
  by (simp add: redis_int_def)

text \<open>The integer a counter starts from: an absent field or key counts as 0.\<close>

definition counter :: "string option \<Rightarrow> int option" where
  "counter v = (case v of None \<Rightarrow> Some 0 | Some t \<Rightarrow> redis_int t)"

definition zadds :: "(int \<times> string) list \<Rightarrow> (string \<rightharpoonup> int) \<Rightarrow> (string \<rightharpoonup> int)" where
  "zadds items z = fold (\<lambda>(sc, m) z. z(m \<mapsto> sc)) items z"

definition hsets :: "(string \<times> string) list \<Rightarrow> (string \<rightharpoonup> string) \<Rightarrow> (string \<rightharpoonup> string)" where
  "hsets fvs h = fold (\<lambda>(f, v) h. h(f \<mapsto> v)) fvs h"

lemma zadds_simps [simp]: "zadds [] z = z" "zadds ((sc, m) # is) z = zadds is (z(m \<mapsto> sc))"
  by (simp_all add: zadds_def)

lemma hsets_simps [simp]: "hsets [] h = h" "hsets ((f, v) # fvs) h = hsets fvs (h(f \<mapsto> v))"
  by (simp_all add: hsets_def)

text \<open>
  An answer of \<^verbatim>\<open>ZRANGEBYSCORE key -inf mx LIMIT 0 lim\<close>: the members with a score up to
  \<open>mx\<close> in order of their scores, cut off after \<open>lim\<close>. (Redis orders equal scores by member;
  nothing here depends on it.)
\<close>

definition by_score :: "(string \<rightharpoonup> int) \<Rightarrow> string list \<Rightarrow> bool" where
  "by_score z ms \<longleftrightarrow> distinct ms \<and> sorted (map (\<lambda>m. the (z m)) ms)"

definition due :: "(string \<rightharpoonup> int) \<Rightarrow> int \<Rightarrow> string set" where
  "due z mx = {m. \<exists>sc. z m = Some sc \<and> sc \<le> mx}"

definition zrange_ok :: "(string \<rightharpoonup> int) \<Rightarrow> int \<Rightarrow> int \<Rightarrow> string list \<Rightarrow> bool" where
  "zrange_ok z mx lim items \<longleftrightarrow>
     (\<exists>ms. by_score z ms \<and> set ms = due z mx \<and> items = take_limit lim ms)"

definition zpopmin_ok :: "(string \<rightharpoonup> int) \<Rightarrow> int \<Rightarrow> (string \<times> int) list \<Rightarrow> bool" where
  "zpopmin_ok z n items \<longleftrightarrow>
     (\<exists>ms. by_score z ms \<and> set ms = dom z \<and> items = map (\<lambda>m. (m, the (z m))) (take (nat n) ms))"

section \<open>The contract\<close>

locale redis_server =
  fixes rd :: "'k redis"
  assumes ZADD_meets: "meets (view rd) (ZADD rd k items) (\<lambda>ks. is_zset ks k)
      (\<lambda>ks n ks'. ks' = put_zset k (zadds items (zset ks k)) ks)"
    and ZREM_meets: "meets (view rd) (ZREM rd k m) (\<lambda>ks. is_zset ks k)
      (\<lambda>ks n ks'. ks' = put_zset k ((zset ks k)(m := None)) ks)"
    and ZRANGEBYSCORE_meets: "meets (view rd) (ZRANGEBYSCORE rd k mx lim) (\<lambda>ks. is_zset ks k)
      (\<lambda>ks items ks'. ks' = ks \<and> zrange_ok (zset ks k) mx lim items)"
    and ZPOPMIN_meets: "meets (view rd) (ZPOPMIN rd k n) (\<lambda>ks. is_zset ks k)
      (\<lambda>ks items ks'. zpopmin_ok (zset ks k) n items \<and>
         ks' = put_zset k (zset ks k |` (- set (map fst items))) ks)"
    and HINCRBY_meets: "meets (view rd) (HINCRBY rd k f d)
      (\<lambda>ks. is_hash ks k \<and> (\<exists>n. counter (hash ks k f) = Some n \<and> in_int64 (n + d)))
      (\<lambda>ks r ks'. counter (hash ks k f) = Some (r - d) \<and>
         ks' = put_hash k ((hash ks k)(f \<mapsto> decimal r)) ks)"
    and HSET_meets: "meets (view rd) (HSET rd k fvs) (\<lambda>ks. is_hash ks k)
      (\<lambda>ks n ks'. ks' = put_hash k (hsets fvs (hash ks k)) ks)"
    and HSETNX_meets: "meets (view rd) (HSETNX rd k f v) (\<lambda>ks. is_hash ks k)
      (\<lambda>ks r ks'. r = (hash ks k f = None) \<and>
         ks' = (if r then put_hash k ((hash ks k)(f \<mapsto> v)) ks else ks))"
    and HGET_meets: "meets (view rd) (HGET rd k f) (\<lambda>ks. is_hash ks k \<and> hash ks k f \<noteq> None)
      (\<lambda>ks v ks'. hash ks k f = Some v \<and> ks' = ks)"
    and HGETALL_meets: "meets (view rd) (HGETALL rd k) (\<lambda>ks. is_hash ks k)
      (\<lambda>ks h ks'. h = hash ks k \<and> ks' = ks)"
    and DEL_meets: "meets (view rd) (DEL rd k) (\<lambda>ks. True)
      (\<lambda>ks n ks'. n = (if vals ks k = None then 0 else 1) \<and> ks' = drop_key k ks)"
    and INCR_meets: "meets (view rd) (INCR rd k)
      (\<lambda>ks. is_str ks k \<and> (\<exists>n. counter (str ks k) = Some n \<and> in_int64 (n + 1)))
      (\<lambda>ks r ks'. counter (str ks k) = Some (r - 1) \<and> ks' = put_str k (decimal r) ks)"
    and EXPIRE_meets: "meets (view rd) (EXPIRE rd k d) (\<lambda>ks. True)
      (\<lambda>ks r ks'. r = (vals ks k \<noteq> None) \<and> ks' = (if r then put_ttl k d ks else ks))"
    and GET_meets: "meets (view rd) (GET rd k) (\<lambda>ks. str ks k \<noteq> None)
      (\<lambda>ks v ks'. str ks k = Some v \<and> ks' = ks)"
    and GET_nil: "vals (view rd s) k = None \<Longrightarrow> snd (GET rd k s) = Inl RedisNil"
    and SETEX_meets: "meets (view rd) (SETEX rd k v d) (\<lambda>ks. True)
      (\<lambda>ks u ks'. ks' = put_ttl k d (put_str k v ks))"
begin

lemmas command_meets = ZADD_meets ZREM_meets ZRANGEBYSCORE_meets ZPOPMIN_meets HINCRBY_meets
  HSET_meets HSETNX_meets HGET_meets HGETALL_meets DEL_meets INCR_meets EXPIRE_meets
  GET_meets SETEX_meets

end

section \<open>An in-memory server\<close>

text \<open>Sorted sets are association lists here, so that they can be listed.\<close>

datatype mvalue =
    MZset "(string \<times> int) list"
  | MHash "string \<rightharpoonup> string"
  | MStr string

record mem =
  mvals :: "string \<rightharpoonup> mvalue"
  mttls :: "string \<rightharpoonup> duration"

fun mvalue_view :: "mvalue \<Rightarrow> rvalue" where
  "mvalue_view (MZset al) = VZset (map_of al)"
| "mvalue_view (MHash h) = VHash h"
| "mvalue_view (MStr v) = VStr v"

definition mem_view :: "mem \<Rightarrow> keyspace" where
  "mem_view s = \<lparr>vals = (\<lambda>k. map_option mvalue_view (mvals s k)), ttls = mttls s\<rparr>"

definition wrongtype :: go_error where
  "wrongtype = Opaque ''WRONGTYPE Operation against a key holding the wrong kind of value''"

definition mem_zset :: "string \<Rightarrow> mem \<Rightarrow> ((string \<times> int) list) option" where
  "mem_zset k s = (case mvals s k of None \<Rightarrow> Some [] | Some (MZset al) \<Rightarrow> Some al | _ \<Rightarrow> None)"

definition mem_hash :: "string \<Rightarrow> mem \<Rightarrow> (string \<rightharpoonup> string) option" where
  "mem_hash k s = (case mvals s k of None \<Rightarrow> Some Map.empty | Some (MHash h) \<Rightarrow> Some h | _ \<Rightarrow> None)"

definition mem_put :: "string \<Rightarrow> mvalue \<Rightarrow> mem \<Rightarrow> mem" where
  "mem_put k v s = s\<lparr>mvals := (mvals s)(k \<mapsto> v)\<rparr>"

definition mem_drop :: "string \<Rightarrow> mem \<Rightarrow> mem" where
  "mem_drop k s = s\<lparr>mvals := (mvals s)(k := None), mttls := (mttls s)(k := None)\<rparr>"

definition mem_put_zset :: "string \<Rightarrow> (string \<times> int) list \<Rightarrow> mem \<Rightarrow> mem" where
  "mem_put_zset k al s = (if al = [] then mem_drop k s else mem_put k (MZset al) s)"

definition listed :: "(string \<times> int) list \<Rightarrow> string list" where
  "listed al = sort_key (\<lambda>m. the (map_of al m)) (remdups (map fst al))"

definition upto_score :: "int \<Rightarrow> (string \<times> int) list \<Rightarrow> string list" where
  "upto_score mx al = filter (\<lambda>m. the (map_of al m) \<le> mx) (listed al)"

definition count_of :: "go_error \<Rightarrow> string option \<Rightarrow> int \<Rightarrow> int result" where
  "count_of e v d = (case counter v of
     None \<Rightarrow> Inl e
   | Some n \<Rightarrow> if in_int64 (n + d) then Inr (n + d) else Inl e)"

definition mem_redis :: "mem redis" where
  "mem_redis = \<lparr>
     view = mem_view,
     ZADD = (\<lambda>k items s. case mem_zset k s of
        None \<Rightarrow> (s, Inl wrongtype)
      | Some al \<Rightarrow> (mem_put_zset k (fold (\<lambda>(sc, m). AList.update m sc) items al) s,
          Inr (int (length items)))),
     ZREM = (\<lambda>k m s. case mem_zset k s of
        None \<Rightarrow> (s, Inl wrongtype)
      | Some al \<Rightarrow> (mem_put_zset k (AList.delete m al) s,
          Inr (if map_of al m = None then 0 else 1))),
     ZRANGEBYSCORE = (\<lambda>k mx lim s. case mem_zset k s of
        None \<Rightarrow> (s, Inl wrongtype)
      | Some al \<Rightarrow> (s, Inr (take_limit lim (upto_score mx al)))),
     ZPOPMIN = (\<lambda>k n s. case mem_zset k s of
        None \<Rightarrow> (s, Inl wrongtype)
      | Some al \<Rightarrow> let ms = take (nat n) (listed al) in
          (mem_put_zset k (filter (\<lambda>(m, _). m \<notin> set ms) al) s,
           Inr (map (\<lambda>m. (m, the (map_of al m))) ms))),
     HINCRBY = (\<lambda>k f d s. case mem_hash k s of
        None \<Rightarrow> (s, Inl wrongtype)
      | Some h \<Rightarrow> (case count_of wrongtype (h f) d of
          Inl e \<Rightarrow> (s, Inl e)
        | Inr r \<Rightarrow> (mem_put k (MHash (h(f \<mapsto> decimal r))) s, Inr r))),
     HSET = (\<lambda>k fvs s. case mem_hash k s of
        None \<Rightarrow> (s, Inl wrongtype)
      | Some h \<Rightarrow> (mem_put k (MHash (hsets fvs h)) s, Inr (int (length fvs)))),
     HSETNX = (\<lambda>k f v s. case mem_hash k s of
        None \<Rightarrow> (s, Inl wrongtype)
      | Some h \<Rightarrow> (case h f of
          None \<Rightarrow> (mem_put k (MHash (h(f \<mapsto> v))) s, Inr True)
        | Some _ \<Rightarrow> (s, Inr False))),
     HGET = (\<lambda>k f s. case mem_hash k s of
        None \<Rightarrow> (s, Inl wrongtype)
      | Some h \<Rightarrow> (case h f of None \<Rightarrow> (s, Inl RedisNil) | Some v \<Rightarrow> (s, Inr v))),
     HGETALL = (\<lambda>k s. case mem_hash k s of
        None \<Rightarrow> (s, Inl wrongtype)
      | Some h \<Rightarrow> (s, Inr h)),
     DEL = (\<lambda>k s. (mem_drop k s, Inr (if mvals s k = None then 0 else 1))),
     INCR = (\<lambda>k s. case mvals s k of
        Some (MStr v) \<Rightarrow> (case count_of wrongtype (Some v) 1 of
          Inl e \<Rightarrow> (s, Inl e)
        | Inr r \<Rightarrow> (mem_put k (MStr (decimal r)) s, Inr r))
      | None \<Rightarrow> (mem_put k (MStr (decimal 1)) s, Inr 1)
      | _ \<Rightarrow> (s, Inl wrongtype)),
     EXPIRE = (\<lambda>k d s. case mvals s k of
        None \<Rightarrow> (s, Inr False)
      | Some _ \<Rightarrow> (s\<lparr>mttls := (mttls s)(k \<mapsto> d)\<rparr>, Inr True)),
     GET = (\<lambda>k s. case mvals s k of
        None \<Rightarrow> (s, Inl RedisNil)
      | Some (MStr v) \<Rightarrow> (s, Inr v)
      | _ \<Rightarrow> (s, Inl wrongtype)),
     SETEX = (\<lambda>k v d s. ((mem_put k (MStr v) s)\<lparr>mttls := (mttls s)(k \<mapsto> d)\<rparr>, Inr ()))\<rparr>"

lemma mem_view_upd:
  "mem_view (mem_drop k s) = drop_key k (mem_view s)"
  "mem_view (mem_put k (MHash h) s) = put_hash k h (mem_view s)"
  "mem_view (mem_put k (MStr v) s) = put_str k v (mem_view s)"
  "mem_view (mem_put_zset k al s) = put_zset k (map_of al) (mem_view s)"
  by (auto simp: mem_view_def mem_drop_def mem_put_def mem_put_zset_def keyspace_upds)

lemma vals_mem_view: "vals (mem_view s) k = map_option mvalue_view (mvals s k)"
  by (simp add: mem_view_def)

lemma mem_zset_view:
  "mem_zset k s = None \<longleftrightarrow> \<not> is_zset (mem_view s) k"
  "mem_zset k s = Some al \<Longrightarrow> is_zset (mem_view s) k"
  "mem_zset k s = Some al \<Longrightarrow> zset (mem_view s) k = map_of al"
  by (auto simp: mem_zset_def is_zset_def zset_def mem_view_def split: option.splits mvalue.splits)

lemma mem_hash_view:
  "mem_hash k s = None \<longleftrightarrow> \<not> is_hash (mem_view s) k"
  "mem_hash k s = Some h \<Longrightarrow> is_hash (mem_view s) k"
  "mem_hash k s = Some h \<Longrightarrow> hash (mem_view s) k = h"
  by (auto simp: mem_hash_def is_hash_def hash_def mem_view_def split: option.splits mvalue.splits)

lemma map_of_zadds: "map_of (fold (\<lambda>(sc, m). AList.update m sc) items al) = zadds items (map_of al)"
  by (induction items arbitrary: al) (auto simp: update_conv')

lemma by_score_listed: "by_score (map_of al) (listed al)"
  by (simp add: by_score_def listed_def)

lemma set_listed: "set (listed al) = dom (map_of al)"
  by (simp add: listed_def dom_map_of_conv_image_fst)

lemma zrange_ok_upto: "zrange_ok (map_of al) mx lim (take_limit lim (upto_score mx al))"
  unfolding zrange_ok_def
proof (intro exI conjI)
  show "by_score (map_of al) (upto_score mx al)"
    using by_score_listed [of al] by (simp add: by_score_def upto_score_def sorted_filter)
  show "set (upto_score mx al) = due (map_of al) mx"
    by (auto simp: upto_score_def set_listed due_def)
qed simp

lemma map_of_filter_notin: "map_of (filter (\<lambda>(m, _). m \<notin> A) al) = map_of al |` (- A)"
  by (induction al) (auto simp: restrict_map_def fun_eq_iff)

lemma zpopmin_ok_listed:
  "zpopmin_ok (map_of al) n (map (\<lambda>m. (m, the (map_of al m))) (take (nat n) (listed al)))"
  unfolding zpopmin_ok_def
  by (intro exI [of _ "listed al"] conjI by_score_listed set_listed refl)

lemmas mem_simps = mem_redis_def mem_view_upd mem_zset_view mem_hash_view

interpretation mem: redis_server mem_redis
proof (unfold_locales, goal_cases)
  case (1 k items)
  show ?case by (auto simp: meets_def mem_simps map_of_zadds split: option.split)
next
  case (2 k m)
  show ?case by (auto simp: meets_def mem_simps delete_conv' split: option.split)
next
  case (3 k mx lim)
  show ?case by (auto simp: meets_def mem_simps zrange_ok_upto split: option.split)
next
  case (4 k n)
  show ?case
    by (auto simp: meets_def mem_simps Let_def zpopmin_ok_listed map_of_filter_notin image_image
        split: option.split)
next
  case (5 k f d)
  show ?case by (auto simp: meets_def mem_simps count_of_def split: option.split sum.split)
next
  case (6 k fvs)
  show ?case by (auto simp: meets_def mem_simps split: option.split)
next
  case (7 k f v)
  show ?case by (auto simp: meets_def mem_simps split: option.split)
next
  case (8 k f)
  show ?case by (auto simp: meets_def mem_simps split: option.split)
next
  case (9 k)
  show ?case by (auto simp: meets_def mem_simps split: option.split)
next
  case (10 k)
  show ?case by (auto simp: meets_def mem_simps vals_mem_view)
next
  case (11 k)
  show ?case
    by (auto simp: meets_def mem_simps is_str_def str_def counter_def count_of_def in_int64_def
        vals_mem_view split: option.split mvalue.split sum.split)
next
  case (12 k d)
  show ?case by (auto simp: meets_def mem_simps mem_view_def put_ttl_def split: option.split)
next
  case (13 k)
  show ?case by (auto simp: meets_def mem_simps mem_view_def str_def split: option.split mvalue.split)
next
  case (14 s k)
  then show ?case by (auto simp: mem_redis_def mem_view_def)
next
  case (15 k v d)
  show ?case
    by (auto simp: meets_def mem_simps mem_view_def mem_put_def put_ttl_def put_str_def)
qed

end
