(* ===== verification/Uuid_Codec.thy ===== *)
theory Uuid_Codec
  imports Prelude
begin

text \<open>
  The text form of UUIDs. \<^verbatim>\<open>github.com/google/uuid\<close> is not part of the repository: its
  \<^verbatim>\<open>String\<close> and \<^verbatim>\<open>Parse\<close> are parameters of every operation that uses them, and the locale
  \<open>uuid_codec\<close> states what the code relies on, the documented form of 36 ASCII characters and that
  parsing inverts printing. The canonical hexadecimal form at the end of the theory satisfies
  the contract.
\<close>

section \<open>The contract\<close>

locale uuid_codec =
  fixes ustring :: "uuid \<Rightarrow> string"
    and uparse :: "string \<Rightarrow> uuid option"
  assumes parse_string [simp]: "uparse (ustring u) = Some u"
    and length_string: "length (ustring u) = 36"
    and ascii_string [simp]: "ascii (ustring u)"
begin

lemma string_inj: "ustring u = ustring v \<longleftrightarrow> u = v"
  by (metis option.inject parse_string)

lemma string_nonempty: "ustring u \<noteq> []"
  using length_string [of u] by auto

end

section \<open>The canonical form\<close>

definition hex_digit :: "nat \<Rightarrow> char" where
  "hex_digit d = (if d < 10 then char_of (48 + d) else char_of (87 + d))"

definition hex_val :: "char \<Rightarrow> nat" where
  "hex_val c = (if (of_char c :: nat) < 58 then of_char c - 48 else of_char c - 87)"

definition is_hex :: "char \<Rightarrow> bool" where
  "is_hex c \<longleftrightarrow> hex_val c < 16 \<and> hex_digit (hex_val c) = c"

primrec hex_digits :: "nat \<Rightarrow> nat \<Rightarrow> string" where
  "hex_digits 0 n = []"
| "hex_digits (Suc k) n = hex_digits k (n div 16) @ [hex_digit (n mod 16)]"

definition hex_value :: "string \<Rightarrow> nat" where
  "hex_value s = foldl (\<lambda>a c. a * 16 + hex_val c) 0 s"

lemma of_char_hex_digit:
  "d < 16 \<Longrightarrow> (of_char (hex_digit d) :: nat) = (if d < 10 then 48 + d else 87 + d)"
  by (simp add: hex_digit_def)

lemma hex_val_hex_digit [simp]: "d < 16 \<Longrightarrow> hex_val (hex_digit d) = d"
  by (simp add: hex_val_def of_char_hex_digit)

lemma is_hex_hex_digit: "d < 16 \<Longrightarrow> is_hex (hex_digit d)"
  by (simp add: is_hex_def)

lemma hex_digit_not_dash: "d < 16 \<Longrightarrow> hex_digit d \<noteq> CHR ''-''"
  using of_char_hex_digit [of d] by (auto split: if_splits)

lemma length_hex_digits [simp]: "length (hex_digits k n) = k"
  by (induction k arbitrary: n) simp_all

lemma hex_digits_hex: "c \<in> set (hex_digits k n) \<Longrightarrow> is_hex c \<and> c \<noteq> CHR ''-''"
proof (induction k arbitrary: n)
  case (Suc k)
  moreover have "is_hex (hex_digit (n mod 16))" "hex_digit (n mod 16) \<noteq> CHR ''-''"
    by (simp_all add: is_hex_hex_digit hex_digit_not_dash)
  ultimately show ?case by auto
qed simp

lemma hex_digit_ascii: "d < 16 \<Longrightarrow> (of_char (hex_digit d) :: nat) < 128"
  by (simp add: of_char_hex_digit)

lemma hex_digits_ascii: "c \<in> set (hex_digits k n) \<Longrightarrow> (of_char c :: nat) < 128"
proof (induction k arbitrary: n)
  case (Suc k)
  moreover have "(of_char (hex_digit (n mod 16)) :: nat) < 128"
    by (rule hex_digit_ascii) simp
  ultimately show ?case by auto
qed simp

lemma hex_value_hex_digits: "hex_value (hex_digits k n) = n mod 16 ^ k"
proof (induction k arbitrary: n)
  case (Suc k)
  have "hex_value (hex_digits (Suc k) n) = (n div 16 mod 16 ^ k) * 16 + n mod 16"
    using Suc by (simp add: hex_value_def)
  then show ?case by (simp add: mod_mult2_eq)
qed (simp add: hex_value_def)

definition canonical_string :: "uuid \<Rightarrow> string" where
  "canonical_string u = (let h = hex_digits 32 (unat u) in
     take 8 h @ ''-'' @ take 4 (drop 8 h) @ ''-'' @ take 4 (drop 12 h) @ ''-'' @
     take 4 (drop 16 h) @ ''-'' @ drop 20 h)"

definition canonical_parse :: "string \<Rightarrow> uuid option" where
  "canonical_parse s = (let h = filter (\<lambda>c. c \<noteq> CHR ''-'') s in
     if length s = 36 \<and> length h = 32 \<and> list_all is_hex h then Some (of_nat (hex_value h)) else None)"

lemma take_pieces:
  "take 8 h @ take 4 (drop 8 h) @ take 4 (drop 12 h) @ take 4 (drop 16 h) @ drop 20 h = h"
proof -
  have "take 4 (drop 16 h) @ drop 20 h = drop 16 h"
    using append_take_drop_id [of 4 "drop 16 h"] by simp
  moreover have "take 4 (drop 12 h) @ drop 16 h = drop 12 h"
    using append_take_drop_id [of 4 "drop 12 h"] by simp
  moreover have "take 4 (drop 8 h) @ drop 12 h = drop 8 h"
    using append_take_drop_id [of 4 "drop 8 h"] by simp
  ultimately show ?thesis by simp
qed

lemma filter_canonical: "filter (\<lambda>c. c \<noteq> CHR ''-'') (canonical_string u) = hex_digits 32 (unat u)"
proof -
  define h where "h = hex_digits 32 (unat u)"
  have nodash: "\<And>c. c \<in> set h \<Longrightarrow> c \<noteq> CHR ''-''"
    by (simp add: h_def hex_digits_hex)
  have id: "filter (\<lambda>c. c \<noteq> CHR ''-'') xs = xs" if "set xs \<subseteq> set h" for xs
    using that nodash by (auto intro!: filter_True)
  have "filter (\<lambda>c. c \<noteq> CHR ''-'') (canonical_string u) =
    take 8 h @ take 4 (drop 8 h) @ take 4 (drop 12 h) @ take 4 (drop 16 h) @ drop 20 h"
    by (simp add: canonical_string_def Let_def set_take_subset set_drop_subset
        order_trans [OF set_take_subset set_drop_subset] id flip: h_def)
  then show ?thesis by (simp add: take_pieces h_def)
qed

lemma canonical_parse_string: "canonical_parse (canonical_string u) = Some u"
proof -
  have "list_all is_hex (hex_digits 32 (unat u))"
    by (simp add: list_all_iff hex_digits_hex)
  moreover have "hex_value (hex_digits 32 (unat u)) = unat u"
  proof -
    have "unat u < 2 ^ 128" using unsigned_less [of u, where ?'a = nat] by simp
    then show ?thesis by (simp add: hex_value_hex_digits)
  qed
  moreover have "length (canonical_string u) = 36"
    by (simp add: canonical_string_def Let_def)
  ultimately show ?thesis
    by (simp add: canonical_parse_def Let_def filter_canonical)
qed

lemma ascii_canonical: "ascii (canonical_string u)"
proof -
  have "ascii xs" if "set xs \<subseteq> set (hex_digits 32 (unat u))" for xs
    using that hex_digits_ascii by (auto simp: ascii_def list_all_iff)
  then show ?thesis
    by (simp add: canonical_string_def Let_def set_take_subset set_drop_subset
        order_trans [OF set_take_subset set_drop_subset])
qed

interpretation canonical: uuid_codec canonical_string canonical_parse
  by unfold_locales (rule canonical_parse_string, simp add: canonical_string_def Let_def, rule ascii_canonical)

end
