(* ===== verification/Json_Codec.thy ===== *)
theory Json_Codec
  imports Uuid_Codec
begin

text \<open>
  JSON documents as the monitor cache stores them: one object whose members are strings,
  integers and booleans. What \<^verbatim>\<open>encoding/json\<close> turns a document into, and reads back, is a
  parameter of the operations that use it; the locale \<open>json_codec\<close> states that decoding
  inverts encoding for documents of ASCII text (\<^verbatim>\<open>encoding/json\<close> replaces invalid UTF-8, so
  the law does not hold for every byte string). Which members a struct has, and how they are
  read back, is modelled with the struct. A compact printer and its reader satisfy the contract.
\<close>

section \<open>Documents and the contract\<close>

datatype json = JStr string | JInt int | JBool bool

type_synonym json_doc = "(string \<times> json) list"

fun ascii_json :: "json \<Rightarrow> bool" where
  "ascii_json (JStr s) = ascii s"
| "ascii_json _ = True"

definition ascii_doc :: "json_doc \<Rightarrow> bool" where
  "ascii_doc d \<longleftrightarrow> list_all (\<lambda>(k, v). ascii k \<and> ascii_json v) d"

locale json_codec =
  fixes jencode :: "json_doc \<Rightarrow> string"
    and jdecode :: "string \<Rightarrow> json_doc option"
  assumes decode_encode: "ascii_doc d \<Longrightarrow> jdecode (jencode d) = Some d"

section \<open>A compact printer and its reader\<close>

abbreviation quote_char :: char where "quote_char \<equiv> CHR 0x22"
abbreviation backslash :: char where "backslash \<equiv> CHR 0x5C"

definition esc_char :: "char \<Rightarrow> string" where
  "esc_char c = (if c = quote_char \<or> c = backslash then [backslash, c]
     else if (of_char c :: nat) < 32 then backslash # CHR ''u'' # hex_digits 4 (of_char c)
     else [c])"

definition quoted :: "string \<Rightarrow> string" where
  "quoted s = quote_char # concat (map esc_char s) @ [quote_char]"

definition cons_fst :: "'a \<Rightarrow> ('a list \<times> 'b) option \<Rightarrow> ('a list \<times> 'b) option" where
  "cons_fst x r = map_option (\<lambda>(xs, rest). (x # xs, rest)) r"

fun unesc :: "string \<Rightarrow> (string \<times> string) option" where
  "unesc [] = None"
| "unesc (c # cs) = (if c = quote_char then Some ([], cs)
     else if c = backslash then (case cs of [] \<Rightarrow> None
       | d # ds \<Rightarrow> if d = CHR ''u''
           then (if length ds < 4 then None
                 else cons_fst (char_of (hex_value (take 4 ds))) (unesc (drop 4 ds)))
           else cons_fst d (unesc ds))
     else cons_fst c (unesc cs))"

fun print_json :: "json \<Rightarrow> string" where
  "print_json (JStr s) = quoted s"
| "print_json (JInt n) = decimal n"
| "print_json (JBool b) = (if b then ''true'' else ''false'')"

definition in_number :: "char \<Rightarrow> bool" where
  "in_number c \<longleftrightarrow> is_digit c \<or> c = CHR ''-''"

definition read_json :: "string \<Rightarrow> (json \<times> string) option" where
  "read_json s = (case s of [] \<Rightarrow> None
     | c # cs \<Rightarrow> if c = quote_char then map_option (\<lambda>(t, rest). (JStr t, rest)) (unesc cs)
         else if take 4 s = ''true'' then Some (JBool True, drop 4 s)
         else if take 5 s = ''false'' then Some (JBool False, drop 5 s)
         else map_option (\<lambda>n. (JInt n, dropWhile in_number s)) (parse_int (takeWhile in_number s)))"

fun print_members :: "json_doc \<Rightarrow> string" where
  "print_members [] = ''}''"
| "print_members ((k, v) # ms) = '','' @ quoted k @ '':'' @ print_json v @ print_members ms"

definition print_doc :: "json_doc \<Rightarrow> string" where
  "print_doc d = CHR ''{'' # (if d = [] then ''}'' else tl (print_members d))"

fun read_members :: "nat \<Rightarrow> string \<Rightarrow> json_doc option" where
  "read_members 0 s = None"
| "read_members (Suc fuel) s = (case s of
     [] \<Rightarrow> None
   | c # cs \<Rightarrow> if c = CHR ''}'' then (if cs = [] then Some [] else None)
       else (case cs of [] \<Rightarrow> None | q # qs \<Rightarrow>
         (case unesc qs of None \<Rightarrow> None | Some (k, rest) \<Rightarrow>
           (case read_json (drop 1 rest) of None \<Rightarrow> None | Some (v, rest') \<Rightarrow>
              map_option ((#) (k, v)) (read_members fuel rest')))))"

definition read_doc :: "string \<Rightarrow> json_doc option" where
  "read_doc s = (case s of [] \<Rightarrow> None
     | c # cs \<Rightarrow> if cs = ''}'' then Some [] else read_members (length s) (CHR '','' # cs))"

lemma unesc_esc_char: "unesc (esc_char c @ rest) = cons_fst c (unesc rest)"
proof (cases "c = quote_char \<or> c = backslash")
  case True
  then show ?thesis by (auto simp: esc_char_def)
next
  case False
  have "hex_value (hex_digits 4 (of_char c)) = (of_char c :: nat) mod 16 ^ 4"
    by (rule hex_value_hex_digits)
  moreover have "(of_char c :: nat) < 256" by simp
  ultimately have "hex_value (hex_digits 4 (of_char c)) = of_char c" by simp
  with False show ?thesis by (simp add: esc_char_def)
qed

lemma unesc_concat: "unesc (concat (map esc_char s) @ quote_char # rest) = Some (s, rest)"
  by (induction s) (simp_all add: unesc_esc_char cons_fst_def)

lemma read_print_string: "read_json (quoted s @ rest) = Some (JStr s, rest)"
  by (simp add: read_json_def quoted_def unesc_concat)

lemma decimal_in_number: "list_all in_number (decimal n) \<and> decimal n \<noteq> []"
  using nat_decimal_digits [of "nat n"] nat_decimal_digits [of "nat (- n)"]
  by (auto simp: decimal_def in_number_def list_all_iff)

lemma read_print_int:
  assumes "rest = [] \<or> \<not> in_number (hd rest)"
  shows "read_json (decimal n @ rest) = Some (JInt n, rest)"
proof -
  obtain c cs where c: "decimal n = c # cs" using decimal_in_number [of n] by (cases "decimal n") auto
  have "in_number c" using decimal_in_number [of n] c by simp
  then have ne: "c \<noteq> quote_char" "c \<noteq> CHR ''t''" "c \<noteq> CHR ''f''"
    by (auto simp: in_number_def is_digit_def)
  have tw: "takeWhile in_number (decimal n @ rest) = decimal n"
    "dropWhile in_number (decimal n @ rest) = rest"
    using decimal_in_number [of n] assms
    by (cases rest; simp add: list_all_iff takeWhile_append2 dropWhile_append2)+
  show ?thesis
    using ne tw parse_int_decimal [of n] by (simp add: read_json_def c numeral_eq_Suc)
qed

lemma read_print_json:
  assumes "rest \<noteq> []" and "\<not> in_number (hd rest)"
  shows "read_json (print_json v @ rest) = Some (v, rest)"
proof (cases v)
  case (JStr s)
  then show ?thesis by (simp add: read_print_string)
next
  case (JInt n)
  then show ?thesis using assms by (simp add: read_print_int)
next
  case (JBool b)
  then show ?thesis by (simp add: read_json_def)
qed

lemma print_members_head: "print_members ms \<noteq> [] \<and> \<not> in_number (hd (print_members ms))"
  by (cases ms rule: print_members.cases) (auto simp: in_number_def is_digit_def)

lemma read_print_members: "length ms < fuel \<Longrightarrow> read_members fuel (print_members ms) = Some ms"
proof (induction ms arbitrary: fuel)
  case Nil
  then show ?case by (cases fuel) auto
next
  case (Cons m ms)
  obtain k v where m: "m = (k, v)" by (cases m)
  obtain fuel' where f: "fuel = Suc fuel'" "length ms < fuel'"
    using Cons.prems by (cases fuel) auto
  have "unesc (concat (map esc_char k) @ quote_char # CHR '':'' # print_json v @ print_members ms)
      = Some (k, CHR '':'' # print_json v @ print_members ms)"
    by (rule unesc_concat)
  then show ?case
    using Cons.IH [OF f(2)] read_print_json [of "print_members ms" v] print_members_head [of ms]
    by (simp add: m f(1) quoted_def)
qed

lemma length_print_members: "length ms < length (print_members ms)"
  by (induction ms rule: print_members.induct) simp_all

lemma read_print_doc: "read_doc (print_doc d) = Some d"
proof (cases d)
  case (Cons m ms)
  obtain k v where m: "m = (k, v)" by (cases m)
  have "read_members (length (print_members d)) (print_members d) = Some d"
    using length_print_members [of d] by (rule read_print_members)
  moreover have "print_members d = CHR '','' # tl (print_members d)" "tl (print_members d) \<noteq> ''}''"
    by (simp_all add: Cons m quoted_def)
  moreover have "length (print_doc d) = length (print_members d)"
    by (simp add: print_doc_def Cons m)
  ultimately show ?thesis by (simp add: read_doc_def print_doc_def Cons)
qed (simp add: read_doc_def print_doc_def)

interpretation compact: json_codec print_doc read_doc
  by unfold_locales (rule read_print_doc)

end
