(* ===== verification/World.thy ===== *)
theory World
  imports Redis_Server Json_Codec
begin

text \<open>
  What an operation of the program sees of the outside: the services it is linked with
  (\<open>services\<close>, parameters of the model) and the state it runs in (\<open>env\<close>). Every interaction
  reads its outcome from an oracle at the position \<open>ticks\<close>, so that a theorem about all
  environments is a theorem about all clocks, all lost or failed calls and all cancellations.
  The retry helper \<^verbatim>\<open>pkg/redisstore/retry.go\<close> is modelled here.
\<close>

section \<open>Services and environment\<close>

record 'k services =
  rds :: "'k redis"
  uuid_string :: "uuid \<Rightarrow> string"
  uuid_parse :: "string \<Rightarrow> uuid option"
  json_encode :: "json_doc \<Rightarrow> string"
  json_decode :: "string \<Rightarrow> json_doc option"

text \<open>
  A call to a server is delivered and answered, is never carried out (the error is the
  client's), or is carried out while its answer is lost.
\<close>

datatype outcome = Delivered | NotSent go_error | ReplyLost go_error

text \<open>
  \<open>kv\<close> is the state of the Redis server and \<open>db\<close> the database. \<open>clock n\<close>, \<open>net n\<close> and
  \<open>gen n\<close> are what the \<open>n\<close>-th interaction finds as the wall time, the outcome of a call and
  the result of \<^verbatim>\<open>gen_random_uuid()\<close>; \<open>ctx_done n\<close> is the error of the operation's context
  when it is found done at the \<open>n\<close>-th interaction. \<open>slept\<close> lists the timers waited for.
\<close>

record ('k, 'd) env =
  kv :: 'k
  db :: 'd
  clock :: "nat \<Rightarrow> time"
  net :: "nat \<Rightarrow> outcome"
  ctx_done :: "nat \<Rightarrow> go_error option"
  gen :: "nat \<Rightarrow> uuid"
  ticks :: nat
  slept :: "duration list"

definition tick :: "('k, 'd) env \<Rightarrow> ('k, 'd) env" where
  "tick e = e\<lparr>ticks := Suc (ticks e)\<rparr>"

definition time_now :: "('k, 'd) env \<Rightarrow> ('k, 'd) env \<times> time" where
  "time_now e = (tick e, clock e (ticks e))"

definition rcall :: "('k \<Rightarrow> 'k \<times> 'a result) \<Rightarrow> ('k, 'd) env \<Rightarrow> ('k, 'd) env \<times> 'a result" where
  "rcall cmd e = (case net e (ticks e) of
     Delivered \<Rightarrow> ((tick e)\<lparr>kv := fst (cmd (kv e))\<rparr>, snd (cmd (kv e)))
   | NotSent err \<Rightarrow> (tick e, Inl err)
   | ReplyLost err \<Rightarrow> ((tick e)\<lparr>kv := fst (cmd (kv e))\<rparr>, Inl err))"

definition dcall :: "('d \<Rightarrow> 'd \<times> 'a result) \<Rightarrow> ('k, 'd) env \<Rightarrow> ('k, 'd) env \<times> 'a result" where
  "dcall stmt e = (case net e (ticks e) of
     Delivered \<Rightarrow> ((tick e)\<lparr>db := fst (stmt (db e))\<rparr>, snd (stmt (db e)))
   | NotSent err \<Rightarrow> (tick e, Inl err)
   | ReplyLost err \<Rightarrow> ((tick e)\<lparr>db := fst (stmt (db e))\<rparr>, Inl err))"

text \<open>
  \<^verbatim>\<open>select { case <-ctx.Done(): ... case <-time.After(d): ... }\<close>: the context's error, or
  nothing once the timer has fired.
\<close>

definition done_or_after :: "duration \<Rightarrow> ('k, 'd) env \<Rightarrow> ('k, 'd) env \<times> go_error option" where
  "done_or_after d e = (case ctx_done e (ticks e) of
     Some err \<Rightarrow> (tick e, Some err)
   | None \<Rightarrow> ((tick e)\<lparr>slept := slept e @ [d]\<rparr>, None))"

section \<open>Retrying\<close>

text \<open>
  \<^verbatim>\<open>retry(ctx, attempts, fn)\<close>. The closure \<open>fn\<close> assigns the variables it captures; they are
  threaded through as \<open>v\<close>.
\<close>

function retry_loop :: "nat \<Rightarrow> nat \<Rightarrow>
    ('a \<Rightarrow> ('k, 'd) env \<Rightarrow> ('k, 'd) env \<times> 'a \<times> go_error option) \<Rightarrow>
    'a \<Rightarrow> go_error option \<Rightarrow> ('k, 'd) env \<Rightarrow> ('k, 'd) env \<times> 'a \<times> go_error option" where
  "retry_loop i attempts fn v err e =
     (if i < attempts then
        (case fn v e of
          (e1, v1, None) \<Rightarrow> (e1, v1, None)
        | (e1, v1, Some err1) \<Rightarrow>
            (case done_or_after (50 * (int i + 1) * Millisecond) e1 of
              (e2, Some cerr) \<Rightarrow> (e2, v1, Some cerr)
            | (e2, None) \<Rightarrow> retry_loop (Suc i) attempts fn v1 (Some err1) e2))
      else (e, v, err))"
  by pat_completeness auto
termination
  by (relation "measure (\<lambda>(i, attempts, fn, v, err, e). attempts - i)") auto

declare retry_loop.simps [simp del]

definition retry :: "nat \<Rightarrow> ('a \<Rightarrow> ('k, 'd) env \<Rightarrow> ('k, 'd) env \<times> 'a \<times> go_error option) \<Rightarrow>
    'a \<Rightarrow> ('k, 'd) env \<Rightarrow> ('k, 'd) env \<times> 'a \<times> go_error option" where
  "retry attempts fn v e = retry_loop 0 attempts fn v None e"

text \<open>The closure that issues one command and assigns nothing.\<close>

definition once :: "('k \<Rightarrow> 'k \<times> 'a result) \<Rightarrow> unit \<Rightarrow> ('k, 'd) env \<Rightarrow>
    ('k, 'd) env \<times> unit \<times> go_error option" where
  "once cmd u e = (case rcall cmd e of (e', r) \<Rightarrow> (e', (), err_of r))"

section \<open>What every interaction leaves alone\<close>

text \<open>\<open>later e e'\<close>: the oracles are those of \<open>e\<close>, and time has only moved on.\<close>

definition later :: "('k, 'd) env \<Rightarrow> ('k, 'd) env \<Rightarrow> bool" where
  "later e e' \<longleftrightarrow> clock e' = clock e \<and> net e' = net e \<and> ctx_done e' = ctx_done e \<and>
     gen e' = gen e \<and> ticks e \<le> ticks e'"

lemma later_refl [simp, intro]: "later e e"
  by (simp add: later_def)

lemma later_trans [trans]: "later e e' \<Longrightarrow> later e' e'' \<Longrightarrow> later e e''"
  by (auto simp: later_def)

lemma later_tick [simp]: "later e (tick e)"
  by (simp add: later_def tick_def)

lemma later_upd [simp]:
  "later e (e'\<lparr>kv := k\<rparr>) = later e e'"
  "later e (e'\<lparr>db := d\<rparr>) = later e e'"
  "later e (e'\<lparr>slept := ds\<rparr>) = later e e'"
  by (simp_all add: later_def)

lemma tick_simps [simp]:
  "kv (tick e) = kv e" "db (tick e) = db e" "clock (tick e) = clock e" "net (tick e) = net e"
  "ctx_done (tick e) = ctx_done e" "gen (tick e) = gen e" "ticks (tick e) = Suc (ticks e)"
  "slept (tick e) = slept e"
  by (simp_all add: tick_def)

lemma later_ops [simp]:
  "later e (fst (time_now e))"
  "later e (fst (rcall cmd e))"
  "later e (fst (dcall stmt e))"
  "later e (fst (done_or_after d e))"
  by (simp_all add: time_now_def rcall_def dcall_def done_or_after_def split: outcome.split option.split)

lemma later_after_tick: "later (tick e) e' \<Longrightarrow> later e e'"
  by (rule later_trans [OF later_tick])

lemma later_after_now: "later (fst (time_now e)) e' \<Longrightarrow> later e e'"
  by (rule later_trans [OF later_ops(1)])

lemma db_ops [frame_simps, simp]:
  "db (fst (time_now e)) = db e"
  "db (fst (rcall cmd e)) = db e"
  "db (fst (done_or_after d e)) = db e"
  by (simp_all add: time_now_def rcall_def done_or_after_def split: outcome.split option.split)

lemma kv_ops [frame_simps, simp]:
  "kv (fst (time_now e)) = kv e"
  "kv (fst (dcall stmt e)) = kv e"
  "kv (fst (done_or_after d e)) = kv e"
  by (simp_all add: time_now_def dcall_def done_or_after_def split: outcome.split option.split)

lemma snd_time_now [simp]: "snd (time_now e) = clock e (ticks e)"
  by (simp add: time_now_def)

section \<open>Rules for retrying\<close>

text \<open>
  An invariant \<open>I\<close> that a failing attempt and a wait keep, and a result \<open>Q\<close> that a successful
  attempt establishes.
\<close>

lemma retry_loop_rule:
  assumes "I v e"
    and "\<And>v e e' v'. I v e \<Longrightarrow> fn v e = (e', v', None) \<Longrightarrow> Q v' e'"
    and "\<And>v e e' v' er. I v e \<Longrightarrow> fn v e = (e', v', Some er) \<Longrightarrow> I v' e'"
    and "\<And>v e d. I v e \<Longrightarrow> I v (fst (done_or_after d e))"
    and "err = None \<Longrightarrow> i < attempts"
    and "retry_loop i attempts fn v err e = (e', v', r)"
  shows "(r = None \<longrightarrow> Q v' e') \<and> (r \<noteq> None \<longrightarrow> I v' e')"
  using assms(1,5,6)
proof (induction "attempts - i" arbitrary: i v err e)
  case 0
  then show ?case by (auto simp: retry_loop.simps [of i])
next
  case (Suc n)
  then have i: "i < attempts" "n = attempts - Suc i" by simp_all
  obtain e1 v1 r1 where f: "fn v e = (e1, v1, r1)" by (cases "fn v e") auto
  show ?case
  proof (cases r1)
    case None
    with Suc.prems(3) i f have "e' = e1" "v' = v1" "r = None"
      by (simp_all add: retry_loop.simps [of i])
    with assms(2) [of v e] Suc.prems(1) f None show ?thesis by simp
  next
    case (Some er)
    obtain e2 c where d: "done_or_after (50 * (int i + 1) * Millisecond) e1 = (e2, c)"
      by (cases "done_or_after (50 * (int i + 1) * Millisecond) e1")
    have "I v1 e1" using assms(3) [of v e] Suc.prems(1) f Some by simp
    then have I2: "I v1 e2" using assms(4) [of v1 e1] d by (metis fst_conv)
    show ?thesis
    proof (cases c)
      case None
      with Suc.prems(3) i f Some d have "retry_loop (Suc i) attempts fn v1 (Some er) e2 = (e', v', r)"
        by (simp add: retry_loop.simps [of i])
      with Suc.hyps(1) [OF i(2) I2, of "Some er"] show ?thesis by simp
    next
      case (Some cerr)
      with Suc.prems(3) i f \<open>r1 = Some er\<close> d have "e' = e2" "v' = v1" "r = Some cerr"
        by (simp_all add: retry_loop.simps [of i])
      with I2 show ?thesis by simp
    qed
  qed
qed

lemma retry_rule:
  assumes "I v e"
    and "\<And>v e e' v'. I v e \<Longrightarrow> fn v e = (e', v', None) \<Longrightarrow> Q v' e'"
    and "\<And>v e e' v' er. I v e \<Longrightarrow> fn v e = (e', v', Some er) \<Longrightarrow> I v' e'"
    and "\<And>v e d. I v e \<Longrightarrow> I v (fst (done_or_after d e))"
    and "0 < attempts"
    and "retry attempts fn v e = (e', v', r)"
  shows "(r = None \<longrightarrow> Q v' e') \<and> (r \<noteq> None \<longrightarrow> I v' e')"
proof (rule retry_loop_rule [where I = I and Q = Q and fn = fn and i = 0 and err = None
      and attempts = attempts and v = v and e = e])
  show "retry_loop 0 attempts fn v None e = (e', v', r)"
    using assms(6) by (simp add: retry_def)
qed (use assms in blast)+

lemma later_retry_loop:
  assumes "\<And>v e. later e (fst (fn v e))"
  shows "later e (fst (retry_loop i attempts fn v err e))"
proof (induction "attempts - i" arbitrary: i v err e)
  case 0
  then show ?case by (simp add: retry_loop.simps [of i])
next
  case (Suc n)
  then have i: "i < attempts" "n = attempts - Suc i" by simp_all
  obtain e1 v1 r1 where f: "fn v e = (e1, v1, r1)" by (cases "fn v e") auto
  obtain e2 c where d: "done_or_after (50 * (int i + 1) * Millisecond) e1 = (e2, c)"
    by (cases "done_or_after (50 * (int i + 1) * Millisecond) e1")
  have "later e e1" using assms [of e v] f by simp
  also have "later e1 e2" by (metis d fst_conv later_ops(4))
  finally have "later e e2" .
  with \<open>later e e1\<close> Suc.hyps(1) [OF i(2), of e2 v1] show ?case
    using f d i by (auto simp: retry_loop.simps [of i] split: option.split elim: later_trans)
qed

lemma later_retry: "(\<And>v e. later e (fst (fn v e))) \<Longrightarrow> later e (fst (retry attempts fn v e))"
  by (simp add: retry_def later_retry_loop)

lemma later_once [simp]: "later e (fst (once cmd u e))"
  using later_ops(2) [of e cmd] by (simp add: once_def case_prod_unfold)

lemma retry_db:
  assumes "\<And>v e. db (fst (fn v e)) = db e"
  shows "0 < n \<Longrightarrow> db (fst (retry n fn v e)) = db e"
proof -
  assume n: "0 < n"
  obtain e' v' r where run: "retry n fn v e = (e', v', r)" by (cases "retry n fn v e")
  have "(r = None \<longrightarrow> db e' = db e) \<and> (r \<noteq> None \<longrightarrow> db e' = db e)"
    by (rule retry_rule [where I = "\<lambda>_ e'. db e' = db e", OF _ _ _ _ n run])
      (use assms in \<open>force dest: arg_cong [of _ _ fst]\<close>)+
  then show ?thesis using run by auto
qed

lemma db_once [simp]: "db (fst (once cmd u e)) = db e"
  using db_ops(2) [of cmd e] by (simp add: once_def case_prod_unfold)

lemma db_retry_once [simp]: "0 < n \<Longrightarrow> db (fst (retry n (once cmd) u e)) = db e"
  by (rule retry_db) simp_all

lemma later_retry_once [simp]: "later e (fst (retry n (once cmd) u e))"
  by (rule later_retry) simp

lemma retry_first:
  "0 < attempts \<Longrightarrow> fn v e = (e', v', None) \<Longrightarrow> retry attempts fn v e = (e', v', None)"
  by (simp add: retry_def retry_loop.simps)

text \<open>
  How long retrying takes: after a failed attempt \<open>i\<close> it waits \<open>50 (i + 1)\<close> milliseconds, so the
  waits are an initial part of 50, 100, 150, ...; an attempt that succeeds is not followed by a
  wait, and a run that fails has tried every attempt or found its context done.
\<close>

definition delays :: "nat \<Rightarrow> nat \<Rightarrow> duration list" where
  "delays i k = map (\<lambda>j. 50 * (int j + 1) * Millisecond) [i..<k]"

lemma delays_step: "i < k \<Longrightarrow> delays i k = (50 * (int i + 1) * Millisecond) # delays (Suc i) k"
  by (simp add: delays_def upt_conv_Cons)

lemma retry_loop_slept:
  assumes fn: "\<And>v e. slept (fst (fn v e)) = slept e"
    and "retry_loop i n fn v err e = (e', v', r)" and "i \<le> n"
  shows "\<exists>k. i \<le> k \<and> k \<le> n \<and> slept e' = slept e @ delays i k \<and>
    (k = n \<or> r = None \<or> (\<exists>m. ctx_done e' m = r))"
  using assms(2,3)
proof (induction "n - i" arbitrary: i v err e)
  case 0
  then have "slept e' = slept e @ delays i n" by (simp add: retry_loop.simps [of i] delays_def)
  with 0 show ?case by auto
next
  case (Suc m)
  then have i: "i < n" "m = n - Suc i" by simp_all
  obtain e1 v1 r1 where f: "fn v e = (e1, v1, r1)" by (cases "fn v e") auto
  have s1: "slept e1 = slept e" using fn [of v e] f by simp
  let ?d = "50 * (int i + 1) * Millisecond"
  show ?case
  proof (cases r1)
    case None
    with Suc.prems(1) i f have "e' = e1" "r = None" by (simp_all add: retry_loop.simps [of i])
    with s1 i show ?thesis by (intro exI [of _ i]) (simp add: delays_def)
  next
    case (Some er)
    show ?thesis
    proof (cases "ctx_done e1 (ticks e1)")
      case (Some c)
      with Suc.prems(1) i f \<open>r1 = Some er\<close> have "e' = tick e1" "r = Some c"
        by (simp_all add: retry_loop.simps [of i] done_or_after_def)
      with s1 i Some show ?thesis
        by (intro exI [of _ i]) (auto simp: delays_def intro: exI [of _ "ticks e1"])
    next
      case None
      let ?e2 = "(tick e1)\<lparr>slept := slept e1 @ [?d]\<rparr>"
      from Suc.prems(1) i f \<open>r1 = Some er\<close> None
      have "retry_loop (Suc i) n fn v1 (Some er) ?e2 = (e', v', r)"
        by (simp add: retry_loop.simps [of i] done_or_after_def)
      from Suc.hyps(1) [OF i(2) this] i obtain k where "Suc i \<le> k" "k \<le> n"
        "slept e' = slept ?e2 @ delays (Suc i) k" "k = n \<or> r = None \<or> (\<exists>m. ctx_done e' m = r)" by auto
      with s1 show ?thesis by (intro exI [of _ k]) (simp add: delays_step)
    qed
  qed
qed

lemma slept_once [simp]: "slept (fst (once cmd u e)) = slept e"
  by (simp add: once_def rcall_def case_prod_unfold split: outcome.split)

section \<open>Commands through the network\<close>

definition vw :: "'k services \<Rightarrow> ('k, 'd) env \<Rightarrow> keyspace" where
  "vw x e = view (rds x) (kv e)"

lemma vw_simps [simp]:
  "vw x (tick e) = vw x e"
  "vw x (fst (time_now e)) = vw x e"
  "vw x (fst (dcall stmt e)) = vw x e"
  "vw x (fst (done_or_after d e)) = vw x e"
  by (simp_all add: vw_def)

text \<open>Every call from here on is delivered.\<close>

definition reliable :: "('k, 'd) env \<Rightarrow> bool" where
  "reliable e \<longleftrightarrow> (\<forall>n \<ge> ticks e. net e n = Delivered)"

lemma reliable_later: "reliable e \<Longrightarrow> later e e' \<Longrightarrow> reliable e'"
  by (auto simp: reliable_def later_def)

lemma reliable_tick [simp]: "reliable e \<Longrightarrow> reliable (tick e)"
  by (simp add: reliable_def)

lemma rcall_reliable: "reliable e \<Longrightarrow> rcall cmd e = ((tick e)\<lparr>kv := fst (cmd (kv e))\<rparr>, snd (cmd (kv e)))"
  by (simp add: reliable_def rcall_def)

lemma dcall_reliable: "reliable e \<Longrightarrow> dcall stmt e = ((tick e)\<lparr>db := fst (stmt (db e))\<rparr>, snd (stmt (db e)))"
  by (simp add: reliable_def dcall_def)

text \<open>
  A command that is answered had its effect; one that is not either had none or had its effect.
\<close>

lemma rcall_meets:
  assumes "meets (view (rds x)) cmd pre post" and "rcall cmd e = (e', r)"
  shows "(\<forall>a. r = Inr a \<longrightarrow> pre (vw x e) \<and> post (vw x e) a (vw x e')) \<and>
    (\<forall>er. r = Inl er \<longrightarrow> vw x e' = vw x e \<or> pre (vw x e) \<and> (\<exists>a. post (vw x e) a (vw x e')))"
proof -
  obtain s' res where c: "cmd (kv e) = (s', res)" by (cases "cmd (kv e)")
  then show ?thesis
    using assms(2) meets_Inr [OF assms(1), of "kv e" s'] meets_Inl [OF assms(1), of "kv e" s']
    by (cases res) (auto simp: rcall_def vw_def split: outcome.splits)
qed

lemma rcall_meets_reliable:
  assumes "meets (view (rds x)) cmd pre post" and "reliable e" and "pre (vw x e)"
  shows "\<exists>a. snd (rcall cmd e) = Inr a \<and> post (vw x e) a (vw x (fst (rcall cmd e)))"
proof -
  obtain s' a where "cmd (kv e) = (s', Inr a)" and "post (vw x e) a (view (rds x) s')"
    using meets_up [OF assms(1), of "kv e"] assms(3) by (auto simp: vw_def)
  with assms(2) show ?thesis by (simp add: rcall_reliable vw_def)
qed

text \<open>
  Retrying a command whose effect \<open>f\<close> is idempotent: success means the effect took place
  once, failure that it took place or not.
\<close>

lemma retry_once_effect:
  assumes m: "meets (view (rds x)) cmd pre (\<lambda>ks r ks'. ks' = f ks)"
    and idem: "\<And>ks. pre ks \<Longrightarrow> pre (f ks) \<and> f (f ks) = f ks"
    and n: "0 < n"
    and run: "retry n (once cmd) u e = (e', u', r)"
  shows "(r = None \<longrightarrow> pre (vw x e) \<and> vw x e' = f (vw x e)) \<and>
    (r \<noteq> None \<longrightarrow> vw x e' = vw x e \<or> pre (vw x e) \<and> vw x e' = f (vw x e))"
proof (rule retry_rule [where I = "\<lambda>_ e1. vw x e1 = vw x e \<or> pre (vw x e) \<and> vw x e1 = f (vw x e)"
      and Q = "\<lambda>_ e1. pre (vw x e) \<and> vw x e1 = f (vw x e)", OF _ _ _ _ n run])
  fix v e1 e2 v' assume I: "vw x e1 = vw x e \<or> pre (vw x e) \<and> vw x e1 = f (vw x e)"
    and "once cmd v e1 = (e2, v', None)"
  then obtain a where "rcall cmd e1 = (e2, Inr a)"
    by (auto simp: once_def err_of_def split: prod.splits sum.splits)
  from rcall_meets [OF m this] I idem [of "vw x e"] show "pre (vw x e) \<and> vw x e2 = f (vw x e)" by auto
next
  fix v e1 e2 v' er assume I: "vw x e1 = vw x e \<or> pre (vw x e) \<and> vw x e1 = f (vw x e)"
    and "once cmd v e1 = (e2, v', Some er)"
  then obtain a where "rcall cmd e1 = (e2, Inl a)"
    by (auto simp: once_def err_of_def split: prod.splits sum.splits)
  from rcall_meets [OF m this] I idem [of "vw x e"]
  show "vw x e2 = vw x e \<or> pre (vw x e) \<and> vw x e2 = f (vw x e)" by fastforce
qed simp_all

lemma retry_once_reliable:
  assumes "meets (view (rds x)) cmd pre (\<lambda>ks r ks'. ks' = f ks)"
    and "reliable e" and "pre (vw x e)" and "0 < n"
  shows "snd (snd (retry n (once cmd) u e)) = None \<and> vw x (fst (retry n (once cmd) u e)) = f (vw x e)"
proof -
  obtain a where "snd (rcall cmd e) = Inr a" and "vw x (fst (rcall cmd e)) = f (vw x e)"
    using rcall_meets_reliable [OF assms(1-3)] by blast
  then have "once cmd u e = (fst (rcall cmd e), (), None)"
    by (simp add: once_def case_prod_unfold)
  with \<open>0 < n\<close> have "retry n (once cmd) u e = (fst (rcall cmd e), (), None)"
    by (simp add: retry_first)
  with \<open>vw x (fst (rcall cmd e)) = f (vw x e)\<close> show ?thesis by simp
qed

end
