(* ===== verification/Database.thy ===== *)
theory Database
  imports World
begin

text \<open>
  The PostgreSQL side: the rows of \<^verbatim>\<open>pkg/db/models.go\<close>, the column defaults and constraints
  of the migrations, the statements of the sqlc query files as functions on the tables, and
  the converters of \<^verbatim>\<open>pkg/utils/converters.go\<close>. A statement runs atomically; whether it is
  delivered is up to \<open>dcall\<close>. \<^verbatim>\<open>gen_random_uuid()\<close> and \<^verbatim>\<open>now()\<close> are arguments.
\<close>

section \<open>Nullable values (converters.go)\<close>

text \<open>
  \<^verbatim>\<open>pgtype.UUID\<close>, \<^verbatim>\<open>pgtype.Text\<close>, \<^verbatim>\<open>pgtype.Int4\<close>, \<^verbatim>\<open>pgtype.Bool\<close> and \<^verbatim>\<open>pgtype.Timestamptz\<close>
  are a value with a \<^verbatim>\<open>Valid\<close> flag: an option. A timestamp may also be infinite. The zero
  \<^verbatim>\<open>time.Time\<close> is the first instant of year 1.
\<close>

datatype pg_time = Finite time | Infinity | NegInfinity

definition zero_time :: time where "zero_time = - 62135596800 * Second"

definition ToPgUUID :: "uuid \<Rightarrow> uuid option" where "ToPgUUID i = Some i"

definition FromPgUUID :: "uuid option \<Rightarrow> uuid" where
  "FromPgUUID u = (case u of None \<Rightarrow> uuid_nil | Some i \<Rightarrow> i)"

definition ToPgText :: "string \<Rightarrow> string option" where
  "ToPgText s = (if s = '''' then None else Some s)"

definition FromPgText :: "string option \<Rightarrow> string" where
  "FromPgText t = (case t of None \<Rightarrow> '''' | Some s \<Rightarrow> s)"

definition FromPgInt32 :: "int32 option \<Rightarrow> int32" where
  "FromPgInt32 i = (case i of None \<Rightarrow> 0 | Some n \<Rightarrow> n)"

definition FromPgBool :: "bool option \<Rightarrow> bool" where
  "FromPgBool b = (case b of None \<Rightarrow> False | Some v \<Rightarrow> v)"

definition FromPgTimestamptz :: "pg_time option \<Rightarrow> time" where
  "FromPgTimestamptz ts = (case ts of Some (Finite t) \<Rightarrow> t | _ \<Rightarrow> zero_time)"

definition ToPgTimestamptz :: "time \<Rightarrow> pg_time option" where
  "ToPgTimestamptz t = Some (Finite t)"

lemma pg_roundtrips [simp]:
  "FromPgUUID (ToPgUUID i) = i" "FromPgText (ToPgText s) = s"
  "FromPgTimestamptz (ToPgTimestamptz t) = t"
  by (simp_all add: FromPgUUID_def ToPgUUID_def FromPgText_def ToPgText_def
      FromPgTimestamptz_def ToPgTimestamptz_def)

section \<open>Rows and constraints\<close>

record user_row =
  u_ID :: uuid
  u_Name :: string
  u_Email :: string
  u_PasswordHash :: string
  u_MonitorsCount :: "int32 option"
  u_IsPaidUser :: "bool option"
  u_CreatedAt :: time

record monitor_row =
  m_ID :: uuid
  m_UserID :: uuid
  m_Url :: string
  m_AlertEmail :: "string option"
  m_IntervalSec :: int32
  m_TimeoutSec :: int32
  m_LatencyThresholdMs :: int32
  m_ExpectedStatus :: int32
  m_Enabled :: bool
  m_UpdatedAt :: time
  m_CreatedAt :: time

record incident_row =
  i_ID :: uuid
  i_MonitorID :: uuid
  i_StartTime :: time
  i_EndTime :: "time option"
  i_Alerted :: bool
  i_HttpStatus :: int32
  i_LatencyMs :: int32
  i_CreatedAt :: time

record tables =
  users :: "user_row list"
  monitors :: "monitor_row list"
  incidents :: "incident_row list"

text \<open>
  The \<^verbatim>\<open>CHECK\<close> clauses of the migrations. That of \<^verbatim>\<open>timeout_sec\<close> names \<^verbatim>\<open>interval_sec\<close>, so it
  says nothing about the timeout.
\<close>

definition monitors_check :: "monitor_row \<Rightarrow> bool" where
  "monitors_check r \<longleftrightarrow> length (m_Url r) \<le> 2048 \<and> 60 \<le> sint (m_IntervalSec r) \<and>
     0 < sint (m_IntervalSec r) \<and> 0 \<le> sint (m_LatencyThresholdMs r) \<and>
     100 \<le> sint (m_ExpectedStatus r) \<and> sint (m_ExpectedStatus r) \<le> 599"

definition incidents_check :: "incident_row \<Rightarrow> bool" where
  "incidents_check r \<longleftrightarrow> 100 \<le> sint (i_HttpStatus r) \<and> sint (i_HttpStatus r) \<le> 599 \<and>
     0 \<le> sint (i_LatencyMs r) \<and>
     (case i_EndTime r of None \<Rightarrow> True | Some t \<Rightarrow> i_StartTime r \<le> t)"

abbreviation check_violation :: "string \<Rightarrow> go_error" where
  "check_violation t \<equiv> PgError ''23514'' (t @ ''_check'') t"
abbreviation unique_violation :: "string \<Rightarrow> string \<Rightarrow> go_error" where
  "unique_violation c t \<equiv> PgError ''23505'' c t"
abbreviation fkey_violation :: "string \<Rightarrow> string \<Rightarrow> go_error" where
  "fkey_violation c t \<equiv> PgError ''23503'' c t"

section \<open>Users (users.sql)\<close>

definition createUser_sql :: "uuid \<Rightarrow> time \<Rightarrow> string \<Rightarrow> string \<Rightarrow> string \<Rightarrow> tables \<Rightarrow> tables \<times> uuid result" where
  "createUser_sql i now name email phash T =
     (if i \<in> u_ID ` set (users T) then (T, Inl (unique_violation ''users_pkey'' ''users''))
      else if email \<in> u_Email ` set (users T) then (T, Inl (unique_violation ''users_email_key'' ''users''))
      else (T\<lparr>users := users T @ [\<lparr>u_ID = i, u_Name = name, u_Email = email, u_PasswordHash = phash,
              u_MonitorsCount = Some 0, u_IsPaidUser = Some False, u_CreatedAt = now\<rparr>]\<rparr>, Inr i))"

text \<open>\<^verbatim>\<open>:one\<close> queries scan the first row, or fail with \<^verbatim>\<open>pgx.ErrNoRows\<close>.\<close>

definition one_row :: "'r list \<Rightarrow> 'r result" where
  "one_row rs = (case rs of [] \<Rightarrow> Inl ErrNoRows | r # _ \<Rightarrow> Inr r)"

definition getUserByEmail_sql :: "string \<Rightarrow> tables \<Rightarrow> tables \<times> user_row result" where
  "getUserByEmail_sql email T = (T, one_row (filter (\<lambda>r. u_Email r = email) (users T)))"

definition getUserByID_sql :: "uuid \<Rightarrow> tables \<Rightarrow> tables \<times> user_row result" where
  "getUserByID_sql i T = (T, one_row (filter (\<lambda>r. u_ID r = i) (users T)))"

text \<open>A null \<^verbatim>\<open>monitors_count\<close> compares as unknown, so the row is not updated.\<close>

definition quota_row :: "uuid \<Rightarrow> user_row \<Rightarrow> bool" where
  "quota_row i r \<longleftrightarrow> u_ID r = i \<and> (case u_MonitorsCount r of None \<Rightarrow> False | Some n \<Rightarrow> sint n < 10)"

definition count_up :: "uuid \<Rightarrow> user_row \<Rightarrow> user_row" where
  "count_up i r = (if quota_row i r
     then r\<lparr>u_MonitorsCount := map_option (\<lambda>n. n + 1) (u_MonitorsCount r)\<rparr> else r)"

definition incrementMonitorCount_sql :: "uuid \<Rightarrow> tables \<Rightarrow> tables \<times> int result" where
  "incrementMonitorCount_sql i T =
     (T\<lparr>users := map (count_up i) (users T)\<rparr>,
      Inr (int (length (filter (quota_row i) (users T)))))"

section \<open>Monitors (monitors.sql)\<close>

record createMonitorParams =
  p_UserID :: uuid
  p_Url :: string
  p_IntervalSec :: int32
  p_TimeoutSec :: int32
  p_LatencyThresholdMs :: int32
  p_ExpectedStatus :: int32
  p_AlertEmail :: "string option"

definition new_monitor_row :: "uuid \<Rightarrow> time \<Rightarrow> createMonitorParams \<Rightarrow> monitor_row" where
  "new_monitor_row i now p = \<lparr>m_ID = i, m_UserID = p_UserID p, m_Url = p_Url p, m_AlertEmail = p_AlertEmail p,
     m_IntervalSec = p_IntervalSec p, m_TimeoutSec = p_TimeoutSec p,
     m_LatencyThresholdMs = p_LatencyThresholdMs p, m_ExpectedStatus = p_ExpectedStatus p,
     m_Enabled = True, m_UpdatedAt = now, m_CreatedAt = now\<rparr>"

definition createMonitor_sql :: "uuid \<Rightarrow> time \<Rightarrow> createMonitorParams \<Rightarrow> tables \<Rightarrow> tables \<times> uuid result" where
  "createMonitor_sql i now p T = (let r = new_monitor_row i now p in
     if \<not> monitors_check r then (T, Inl (check_violation ''monitors''))
     else if i \<in> m_ID ` set (monitors T) then (T, Inl (unique_violation ''monitors_pkey'' ''monitors''))
     else if p_UserID p \<notin> u_ID ` set (users T)
       then (T, Inl (fkey_violation ''monitors_user_id_fkey'' ''monitors''))
     else (T\<lparr>monitors := monitors T @ [r]\<rparr>, Inr i))"

text \<open>Rows with equal \<^verbatim>\<open>updated_at\<close> come in table order here; PostgreSQL leaves it open.\<close>

definition getAllMonitorByUserID_sql :: "uuid \<Rightarrow> int32 \<Rightarrow> int32 \<Rightarrow> tables \<Rightarrow> tables \<times> monitor_row list result" where
  "getAllMonitorByUserID_sql user lim off T =
     (T, if sint lim < 0 \<or> sint off < 0 then Inl (PgError ''2201W'' '''' ''monitors'')
         else Inr (take (nat (sint lim)) (drop (nat (sint off))
           (sort_key m_UpdatedAt (filter (\<lambda>r. m_UserID r = user) (monitors T))))))"

definition getMonitor_sql :: "uuid \<Rightarrow> uuid \<Rightarrow> tables \<Rightarrow> tables \<times> monitor_row result" where
  "getMonitor_sql i user T = (T, one_row (filter (\<lambda>r. m_ID r = i \<and> m_UserID r = user) (monitors T)))"

definition getMonitorByID_sql :: "uuid \<Rightarrow> tables \<Rightarrow> tables \<times> monitor_row result" where
  "getMonitorByID_sql i T = (T, one_row (filter (\<lambda>r. m_ID r = i) (monitors T)))"

definition set_enabled :: "uuid \<Rightarrow> bool \<Rightarrow> uuid \<Rightarrow> monitor_row \<Rightarrow> monitor_row" where
  "set_enabled i enabled user r =
     (if m_ID r = i \<and> m_UserID r = user then r\<lparr>m_Enabled := enabled\<rparr> else r)"

definition updateMonitorStatus_sql :: "uuid \<Rightarrow> bool \<Rightarrow> uuid \<Rightarrow> tables \<Rightarrow> tables \<times> int result" where
  "updateMonitorStatus_sql i enabled user T =
     (T\<lparr>monitors := map (set_enabled i enabled user) (monitors T)\<rparr>,
      Inr (int (length (filter (\<lambda>r. m_ID r = i \<and> m_UserID r = user) (monitors T)))))"

section \<open>Incidents (monitor\_incidents.sql)\<close>

definition createMonitorIncident_sql :: "uuid \<Rightarrow> time \<Rightarrow> uuid \<Rightarrow> time \<Rightarrow> bool \<Rightarrow> int32 \<Rightarrow> int32 \<Rightarrow>
    tables \<Rightarrow> tables \<times> unit result" where
  "createMonitorIncident_sql i now mid start alerted status latency T =
     (let r = \<lparr>i_ID = i, i_MonitorID = mid, i_StartTime = start, i_EndTime = None, i_Alerted = alerted,
        i_HttpStatus = status, i_LatencyMs = latency, i_CreatedAt = now\<rparr> in
      if \<not> incidents_check r then (T, Inl (check_violation ''monitor_incidents''))
      else if i \<in> i_ID ` set (incidents T)
        then (T, Inl (unique_violation ''monitor_incidents_pkey'' ''monitor_incidents''))
      else if mid \<notin> m_ID ` set (monitors T)
        then (T, Inl (fkey_violation ''monitor_incidents_monitor_id_fkey'' ''monitor_incidents''))
      else (T\<lparr>incidents := incidents T @ [r]\<rparr>, Inr ()))"

definition open_incident :: "uuid \<Rightarrow> incident_row \<Rightarrow> bool" where
  "open_incident mid r \<longleftrightarrow> i_MonitorID r = mid \<and> i_EndTime r = None"

text \<open>An update that breaks a \<^verbatim>\<open>CHECK\<close> in one row fails as a whole.\<close>

definition close_row :: "uuid \<Rightarrow> time \<Rightarrow> incident_row \<Rightarrow> incident_row" where
  "close_row mid endt r = (if open_incident mid r then r\<lparr>i_EndTime := Some endt\<rparr> else r)"

definition closeMonitorIncident_sql :: "uuid \<Rightarrow> time \<Rightarrow> tables \<Rightarrow> tables \<times> int result" where
  "closeMonitorIncident_sql mid endt T =
     (if \<exists>r \<in> set (incidents T). open_incident mid r \<and> \<not> incidents_check (close_row mid endt r)
      then (T, Inl (check_violation ''monitor_incidents''))
      else (T\<lparr>incidents := map (close_row mid endt) (incidents T)\<rparr>,
            Inr (int (length (filter (open_incident mid) (incidents T))))))"

definition getMonitorIncidentByID_sql :: "uuid \<Rightarrow> tables \<Rightarrow> tables \<times> incident_row result" where
  "getMonitorIncidentByID_sql i T = (T, one_row (filter (\<lambda>r. i_ID r = i) (incidents T)))"

section \<open>Well-formed tables\<close>

text \<open>Primary keys, the unique e-mail, the foreign keys and the checks hold of the rows.\<close>

definition wf_tables :: "tables \<Rightarrow> bool" where
  "wf_tables T \<longleftrightarrow> distinct (map u_ID (users T)) \<and> distinct (map u_Email (users T)) \<and>
     distinct (map m_ID (monitors T)) \<and> distinct (map i_ID (incidents T)) \<and>
     (\<forall>r \<in> set (monitors T). monitors_check r \<and> m_UserID r \<in> u_ID ` set (users T)) \<and>
     (\<forall>r \<in> set (incidents T). incidents_check r \<and> i_MonitorID r \<in> m_ID ` set (monitors T))"

lemma row_updates [simp]:
  "u_ID (count_up i r) = u_ID r" "u_Email (count_up i r) = u_Email r"
  "m_ID (set_enabled i b user m) = m_ID m" "m_UserID (set_enabled i b user m) = m_UserID m"
  "monitors_check (set_enabled i b user m) = monitors_check m"
  "i_ID (close_row mid t n) = i_ID n" "i_MonitorID (close_row mid t n) = i_MonitorID n"
  by (simp_all add: count_up_def set_enabled_def close_row_def monitors_check_def)

lemma map_row_updates [simp]:
  "map (u_ID \<circ> count_up i) us = map u_ID us" "map (u_Email \<circ> count_up i) us = map u_Email us"
  "map (m_ID \<circ> set_enabled i b user) ms = map m_ID ms" "map (i_ID \<circ> close_row mid t) ns = map i_ID ns"
  "u_ID ` count_up i ` U = u_ID ` U" "m_ID ` set_enabled i b user ` M = m_ID ` M"
  by (simp_all add: image_image)

lemma wf_createUser: "wf_tables T \<Longrightarrow> wf_tables (fst (createUser_sql i now name email phash T))"
  by (auto simp: createUser_sql_def wf_tables_def)

lemma wf_incrementMonitorCount: "wf_tables T \<Longrightarrow> wf_tables (fst (incrementMonitorCount_sql i T))"
  by (simp add: incrementMonitorCount_sql_def wf_tables_def)

lemma wf_createMonitor: "wf_tables T \<Longrightarrow> wf_tables (fst (createMonitor_sql i now p T))"
  by (auto simp: createMonitor_sql_def wf_tables_def Let_def new_monitor_row_def)

lemma wf_updateMonitorStatus: "wf_tables T \<Longrightarrow> wf_tables (fst (updateMonitorStatus_sql i b user T))"
  by (simp add: updateMonitorStatus_sql_def wf_tables_def)

lemma wf_createMonitorIncident:
  "wf_tables T \<Longrightarrow> wf_tables (fst (createMonitorIncident_sql i now mid start a st l T))"
  by (auto simp: createMonitorIncident_sql_def wf_tables_def Let_def)

lemma wf_closeMonitorIncident: "wf_tables T \<Longrightarrow> wf_tables (fst (closeMonitorIncident_sql mid endt T))"
proof (cases "\<exists>r \<in> set (incidents T). open_incident mid r \<and> \<not> incidents_check (close_row mid endt r)")
  case False
  assume wf: "wf_tables T"
  have "incidents_check (close_row mid endt r)" if "r \<in> set (incidents T)" for r
    using False wf that by (cases "open_incident mid r") (auto simp: wf_tables_def close_row_def)
  with False wf show ?thesis by (simp add: closeMonitorIncident_sql_def wf_tables_def)
qed (simp add: closeMonitorIncident_sql_def)

lemmas wf_statements = wf_createUser wf_incrementMonitorCount wf_createMonitor
  wf_updateMonitorStatus wf_createMonitorIncident wf_closeMonitorIncident

text \<open>A primary key selects at most one row.\<close>

lemma filter_key_unique:
  assumes "distinct (map k xs)" and "a \<in> set xs"
  shows "filter (\<lambda>r. k r = k a) xs = [a]"
  using assms
proof (induction xs)
  case (Cons y ys)
  show ?case
  proof (cases "a = y")
    case True
    then have "filter (\<lambda>r. k r = k a) ys = []"
      using Cons.prems(1) by (auto simp: filter_empty_conv image_iff)
    with True show ?thesis by simp
  next
    case False
    with Cons.prems have "a \<in> set ys" "k y \<noteq> k a" by auto
    with Cons show ?thesis by simp
  qed
qed simp

lemma one_row_simps [simp]: "one_row [] = Inl ErrNoRows" "one_row (r # rs) = Inr r"
  by (simp_all add: one_row_def)

lemma one_row_Inr: "one_row (filter P xs) = Inr r \<Longrightarrow> r \<in> set xs \<and> P r"
  by (metis (mono_tags, lifting) Inl_Inr_False Inr_inject filter_eq_Cons_iff in_set_conv_decomp
      list.exhaust one_row_simps)

end
