(* ===== verification/User_Repository.thy ===== *)
theory User_Repository
  imports Database
begin

text \<open>
  The users of the service: the domain types of \<^verbatim>\<open>internals/modules/user/domain.go\<close> and the
  repository of \<^verbatim>\<open>internals/modules/user/repository.go\<close>.
\<close>

type_synonym 'k world = "('k, tables) env"

section \<open>Domain (domain.go)\<close>

record user =
  usr_ID :: uuid
  usr_Name :: string
  usr_Email :: string
  usr_PasswordHash :: string
  usr_MonitorsCount :: int32
  usr_IsPaidUser :: bool

record createUserCmd =
  cuc_Name :: string
  cuc_Email :: string
  cuc_PasswordHash :: string

section \<open>Repository (repository.go)\<close>

text \<open>
  A statement that draws a fresh UUID or the transaction time reads them at the position of
  the call.
\<close>

definition repo_CreateUser :: "createUserCmd \<Rightarrow> 'k world \<Rightarrow> 'k world \<times> uuid result" where
  "repo_CreateUser cmd e = (let op = ''repo.user.create_user'' in
     case dcall (createUser_sql (gen e (ticks e)) (clock e (ticks e))
         (cuc_Name cmd) (cuc_Email cmd) (cuc_PasswordHash cmd)) e of
       (e', Inr i) \<Rightarrow> (e', Inr (FromPgUUID (ToPgUUID i)))
     | (e', Inl err) \<Rightarrow> (e', Inl
         (if errors_Is err Canceled \<or> errors_Is err DeadlineExceeded
          then AppError RequestTimeout op None ''request cancelled or timed out'' None
          else (case errors_As is_PgError err of
              Some (PgError code _ _) \<Rightarrow>
                (if code = ''23505'' then AppError AlreadyExists op None ''user already exists'' None
                 else AppError DatabaseErr op (Some err) ''internal server error'' None)
            | _ \<Rightarrow> AppError Internal op (Some err) ''internal server error'' None))))"

definition repo_GetUserByID :: "uuid \<Rightarrow> 'k world \<Rightarrow> 'k world \<times> user result" where
  "repo_GetUserByID userID e = (let op = ''repo.user.get_user_by_id'' in
     case dcall (getUserByID_sql userID) e of
       (e', Inr r) \<Rightarrow> (e', Inr \<lparr>usr_ID = FromPgUUID (ToPgUUID (u_ID r)), usr_Name = u_Name r,
          usr_Email = u_Email r, usr_PasswordHash = u_PasswordHash r,
          usr_MonitorsCount = FromPgInt32 (u_MonitorsCount r),
          usr_IsPaidUser = FromPgBool (u_IsPaidUser r)\<rparr>)
     | (e', Inl err) \<Rightarrow> (e', Inl (WrapRepoError op err True)))"

text \<open>The query by e-mail does not select the counter and the plan: they stay zero.\<close>

definition repo_GetUserByEmail :: "string \<Rightarrow> 'k world \<Rightarrow> 'k world \<times> user result" where
  "repo_GetUserByEmail email e = (let op = ''repo.user.get_user_by_email'' in
     case dcall (getUserByEmail_sql email) e of
       (e', Inr r) \<Rightarrow> (e', Inr \<lparr>usr_ID = FromPgUUID (ToPgUUID (u_ID r)), usr_Name = u_Name r,
          usr_Email = u_Email r, usr_PasswordHash = u_PasswordHash r,
          usr_MonitorsCount = 0, usr_IsPaidUser = False\<rparr>)
     | (e', Inl err) \<Rightarrow> (e', Inl (WrapRepoError op err True)))"

definition repo_IncrementMonitorCount :: "uuid \<Rightarrow> 'k world \<Rightarrow> 'k world \<times> go_error option" where
  "repo_IncrementMonitorCount userID e = (let op = ''repo.user.increment_monitor_count'' in
     case dcall (incrementMonitorCount_sql userID) e of
       (e', Inr rows) \<Rightarrow> (e', if rows = 0
          then Some (AppError Forbidden op None ''monitor quota exceed'' None) else None)
     | (e', Inl err) \<Rightarrow> (e', Some (WrapRepoError op err False)))"

section \<open>Statements through the network\<close>

text \<open>
  A statement that is answered ran; one that is not answered ran or did not. \<open>ran stmt e e'\<close>
  is what both have in common.
\<close>

definition ran :: "(tables \<Rightarrow> tables \<times> 'a result) \<Rightarrow> 'k world \<Rightarrow> 'k world \<Rightarrow> bool" where
  "ran stmt e e' \<longleftrightarrow> kv e' = kv e \<and> later e e' \<and> (db e' = db e \<or> db e' = fst (stmt (db e)))"

lemma dcall_result:
  assumes "dcall stmt e = (e', r)"
  shows "ran stmt e e'"
    and "\<And>a. r = Inr a \<Longrightarrow> stmt (db e) = (db e', Inr a)"
    and "reliable e \<Longrightarrow> stmt (db e) = (db e', r)"
proof -
  have "later e (fst (dcall stmt e))" by simp
  with assms have "later e e'" by simp
  then show "ran stmt e e'"
    using assms by (auto simp: ran_def dcall_def split: outcome.splits)
  show "\<And>a. r = Inr a \<Longrightarrow> stmt (db e) = (db e', Inr a)"
    using assms by (auto simp: dcall_def prod_eq_iff split: outcome.splits)
  show "reliable e \<Longrightarrow> stmt (db e) = (db e', r)"
    using assms by (auto simp: dcall_reliable prod_eq_iff)
qed

lemma ran_wf: "ran stmt e e' \<Longrightarrow> wf_tables (db e) \<Longrightarrow> wf_tables (fst (stmt (db e))) \<Longrightarrow> wf_tables (db e')"
  by (auto simp: ran_def)

lemma ran_vw [simp]: "ran stmt e e' \<Longrightarrow> vw x e' = vw x e"
  by (simp add: ran_def vw_def)

lemma ran_later: "ran stmt e e' \<Longrightarrow> later e e'"
  by (simp add: ran_def)

section \<open>The quota\<close>

text \<open>No user has more than ten monitors counted.\<close>

definition within_quota :: "tables \<Rightarrow> bool" where
  "within_quota T \<longleftrightarrow> (\<forall>r \<in> set (users T). case u_MonitorsCount r of
     None \<Rightarrow> True | Some n \<Rightarrow> 0 \<le> sint n \<and> sint n \<le> 10)"

lemma sint_plus_one:
  assumes "0 \<le> sint (n :: int32)" and "sint n < 10"
  shows "sint (n + 1) = sint n + 1"
proof -
  have "sint (n + 1) = signed_take_bit 31 (sint n + 1)"
    by (simp add: sint_word_ariths(1))
  also have "\<dots> = sint n + 1"
    using assms by (intro signed_take_bit_int_eq_self) simp_all
  finally show ?thesis .
qed

lemma within_quota_increment:
  assumes "within_quota T"
  shows "within_quota (fst (incrementMonitorCount_sql i T))"
proof -
  have "case u_MonitorsCount (count_up i r) of None \<Rightarrow> True | Some n \<Rightarrow> 0 \<le> sint n \<and> sint n \<le> 10"
    if "r \<in> set (users T)" for r
    using assms that sint_plus_one
    by (auto simp: within_quota_def count_up_def quota_row_def split: option.splits if_splits)
  then show ?thesis by (simp add: within_quota_def incrementMonitorCount_sql_def)
qed

lemma IncrementMonitorCount_result:
  assumes "repo_IncrementMonitorCount i e = (e', r)"
  shows "ran (incrementMonitorCount_sql i) e e'"
    and "r = None \<Longrightarrow> db e' = fst (incrementMonitorCount_sql i (db e)) \<and>
      (\<exists>u \<in> set (users (db e)). quota_row i u)"
    and "reliable e \<Longrightarrow> r \<noteq> None \<Longrightarrow> db e' = db e \<and> (\<forall>u \<in> set (users (db e)). \<not> quota_row i u) \<and>
      IsKind (the r) Forbidden"
proof -
  obtain r0 where c: "dcall (incrementMonitorCount_sql i) e = (e', r0)"
    and r: "r = (case r0 of Inl err \<Rightarrow> Some (WrapRepoError ''repo.user.increment_monitor_count'' err False)
      | Inr rows \<Rightarrow> if rows = 0 then Some (AppError Forbidden ''repo.user.increment_monitor_count'' None
            ''monitor quota exceed'' None) else None)"
    using assms by (auto simp: repo_IncrementMonitorCount_def Let_def split: prod.splits sum.splits)
  note res = dcall_result [OF c]
  show "ran (incrementMonitorCount_sql i) e e'" by (rule res(1))
  show "db e' = fst (incrementMonitorCount_sql i (db e)) \<and> (\<exists>u \<in> set (users (db e)). quota_row i u)"
    if none: "r = None"
  proof -
    obtain rows where "r0 = Inr rows" "rows \<noteq> 0" using none r by (auto split: sum.splits if_splits)
    with res(2) [of rows] show ?thesis
      by (auto simp: incrementMonitorCount_sql_def filter_empty_conv)
  qed
  show "db e' = db e \<and> (\<forall>u \<in> set (users (db e)). \<not> quota_row i u) \<and> IsKind (the r) Forbidden"
    if rel: "reliable e" and some: "r \<noteq> None"
  proof -
    have z: "r0 = Inr 0" "filter (quota_row i) (users (db e)) = []"
      using res(3) [OF rel] r some by (auto simp: incrementMonitorCount_sql_def split: if_splits)
    then have nq: "\<forall>u \<in> set (users (db e)). \<not> quota_row i u" by (simp add: filter_empty_conv)
    then have "map (count_up i) (users (db e)) = users (db e)"
      by (simp add: map_idI count_up_def)
    then have "db e' = db e" using res(3) [OF rel] by (simp add: incrementMonitorCount_sql_def)
    with nq z r show ?thesis by simp
  qed
qed

end
