(* ===== verification/Security.thy ===== *)
theory Security
  imports World
begin

text \<open>
  Passwords and access tokens: \<^verbatim>\<open>internals/security/hasher.go\<close>, \<^verbatim>\<open>tokenizer.go\<close> and
  \<^verbatim>\<open>types.go\<close>. The packages \<^verbatim>\<open>argon2id\<close> and \<^verbatim>\<open>golang-jwt\<close> are parameters
  (\<open>security_libs\<close>); what the code relies on of them is stated by the locale \<open>security_ok\<close>:
  a password matches the hash made of it, a token that is accepted bears a signature of an
  allowed method under the key that the key function gave for it and has not expired, and a
  token that was signed here is accepted as long as it has not; signing with HS256 succeeds.
\<close>

section \<open>The libraries\<close>

text \<open>
  \<^verbatim>\<open>RequestClaims\<close>; of the embedded \<^verbatim>\<open>jwt.RegisteredClaims\<close> the code sets the two dates, which
  are whole seconds. Its field for \<^verbatim>\<open>sub\<close> is shadowed by \<^verbatim>\<open>UserID\<close>.
\<close>

record requestClaims =
  rc_UserID :: string
  rc_Email :: string
  rc_ExpiresAt :: "int option"
  rc_IssuedAt :: "int option"

text \<open>
  \<open>argon_CreateHash\<close> takes the sixteen random bytes of the salt. \<open>jwt_SignedString alg key\<close>
  signs claims and \<open>jwt_ParseWithClaims methods keyfunc now\<close> reads a token at the time \<open>now\<close>:
  its claims with the flag \<^verbatim>\<open>Valid\<close>. \<open>jwt_signed alg key token\<close> are the claims that the token
  carries if its signature by that method under that key is right.
\<close>

record security_libs =
  argon_CreateHash :: "uuid \<Rightarrow> string \<Rightarrow> string result"
  argon_ComparePasswordAndHash :: "string \<Rightarrow> string \<Rightarrow> bool result"
  jwt_SignedString :: "string \<Rightarrow> string \<Rightarrow> requestClaims \<Rightarrow> string result"
  jwt_ParseWithClaims :: "string list \<Rightarrow> (string \<Rightarrow> string result) \<Rightarrow> time \<Rightarrow> string \<Rightarrow> (requestClaims \<times> bool) result"
  jwt_signed :: "string \<Rightarrow> string \<Rightarrow> string \<Rightarrow> requestClaims option"

definition HS256 :: string where "HS256 = ''HS256''"

definition unexpired :: "time \<Rightarrow> requestClaims \<Rightarrow> bool" where
  "unexpired now c \<longleftrightarrow> (case rc_ExpiresAt c of None \<Rightarrow> True | Some t \<Rightarrow> now < t * Second)"

definition ascii_claims :: "requestClaims \<Rightarrow> bool" where
  "ascii_claims c \<longleftrightarrow> ascii (rc_UserID c) \<and> ascii (rc_Email c)"

section \<open>Passwords (hasher.go)\<close>

definition HashPassword :: "security_libs \<Rightarrow> string \<Rightarrow> ('k, 'd) env \<Rightarrow> ('k, 'd) env \<times> string result" where
  "HashPassword sec password e = (let op = ''infra.security.hash_password''; salt = gen e (ticks e) in
     case argon_CreateHash sec salt password of
       Inl err \<Rightarrow> (tick e, Inl (AppError Dependency op (Some err) ''internal server error'' None))
     | Inr h \<Rightarrow> (tick e, Inr h))"

definition ComparePassword :: "security_libs \<Rightarrow> string \<Rightarrow> string \<Rightarrow> bool result" where
  "ComparePassword sec password h = (case argon_ComparePasswordAndHash sec password h of
     Inl err \<Rightarrow> Inl err | Inr ok \<Rightarrow> Inr ok)"

section \<open>Tokens (tokenizer.go)\<close>

record authConfig =
  ac_Secret :: string
  ac_TokenTTL :: duration

record tokenService =
  ts_secret :: string
  ts_tokenTTL :: duration

definition NewTokenService :: "authConfig \<Rightarrow> tokenService" where
  "NewTokenService cfg = \<lparr>ts_secret = ac_Secret cfg, ts_tokenTTL = ac_TokenTTL cfg\<rparr>"

definition GenerateAccessToken :: "security_libs \<Rightarrow> tokenService \<Rightarrow> requestClaims \<Rightarrow> ('k, 'd) env \<Rightarrow>
    ('k, 'd) env \<times> string result" where
  "GenerateAccessToken sec ts payload e = (let (e', now) = time_now e; expiryTime = now + ts_tokenTTL ts;
      payload' = payload\<lparr>rc_ExpiresAt := Some (Unix expiryTime), rc_IssuedAt := Some (Unix now)\<rparr> in
     case jwt_SignedString sec HS256 (ts_secret ts) payload' of
       Inl err \<Rightarrow> (e', Inl err)
     | Inr signedToken \<Rightarrow> (e', Inr signedToken))"

text \<open>The key function, given the method that the header of the token names.\<close>

definition token_key :: "tokenService \<Rightarrow> string \<Rightarrow> string result" where
  "token_key ts alg = (if alg \<noteq> HS256 then Inl (Opaque ''token signature is invalid'') else Inr (ts_secret ts))"

definition ValidateAccessToken :: "security_libs \<Rightarrow> tokenService \<Rightarrow> string \<Rightarrow> ('k, 'd) env \<Rightarrow>
    ('k, 'd) env \<times> requestClaims result" where
  "ValidateAccessToken sec ts accessToken e = (let op = ''service.token.validate_access_token'';
      (e', now) = time_now e in
     case jwt_ParseWithClaims sec [HS256] (token_key ts) now accessToken of
       Inl err \<Rightarrow> (e', Inl (AppError Unauthorised op None ''invalid token'' None))
     | Inr (claims, valid) \<Rightarrow>
        (if \<not> valid then (e', Inl (AppError Unauthorised op None ''invalid token'' None))
         else (e', Inr claims)))"

section \<open>What the code relies on\<close>

locale security_ok =
  fixes sec :: security_libs
  assumes hash_matches:
      "argon_CreateHash sec salt p = Inr h \<Longrightarrow> argon_ComparePasswordAndHash sec p h = Inr True"
    and parse_sound: "jwt_ParseWithClaims sec methods keyfunc now token = Inr (c, True) \<Longrightarrow>
      \<exists>alg \<in> set methods. \<exists>key. keyfunc alg = Inr key \<and> jwt_signed sec alg key token = Some c \<and> unexpired now c"
    and parse_signed: "jwt_SignedString sec alg key c = Inr token \<Longrightarrow> ascii_claims c \<Longrightarrow>
      alg \<in> set methods \<Longrightarrow> keyfunc alg = Inr key \<Longrightarrow> unexpired now c \<Longrightarrow>
      jwt_ParseWithClaims sec methods keyfunc now token = Inr (c, True)"
    and sign_total: "ascii key \<Longrightarrow> ascii_claims c \<Longrightarrow> \<exists>token. jwt_SignedString sec HS256 key c = Inr token"
begin

lemma Validate_result:
  assumes "ValidateAccessToken sec ts token e = (e', r)"
  shows "e' = tick e"
    and "r = Inr c \<Longrightarrow> jwt_signed sec HS256 (ts_secret ts) token = Some c \<and> unexpired (clock e (ticks e)) c"
    and "r = Inl err \<Longrightarrow> IsKind err Unauthorised"
proof -
  show "e' = tick e"
    using assms by (auto simp: ValidateAccessToken_def time_now_def Let_def split: sum.splits prod.splits if_splits)
  show "jwt_signed sec HS256 (ts_secret ts) token = Some c \<and> unexpired (clock e (ticks e)) c" if "r = Inr c"
  proof -
    have "jwt_ParseWithClaims sec [HS256] (token_key ts) (clock e (ticks e)) token = Inr (c, True)"
      using assms that
      by (auto simp: ValidateAccessToken_def time_now_def Let_def split: sum.splits prod.splits if_splits)
    from parse_sound [OF this] show ?thesis by (auto simp: token_key_def)
  qed
  show "IsKind err Unauthorised" if "r = Inl err"
    using assms that
    by (auto simp: ValidateAccessToken_def time_now_def Let_def split: sum.splits prod.splits if_splits)
qed

lemma Generate_Validate:
  assumes gn: "GenerateAccessToken sec ts payload e = (e1, Inr token)" and a: "ascii_claims payload"
    and t: "clock e' (ticks e') < Unix (clock e (ticks e) + ts_tokenTTL ts) * Second"
  shows "\<exists>c. ValidateAccessToken sec ts token e' = (tick e', Inr c) \<and>
     rc_UserID c = rc_UserID payload \<and> rc_Email c = rc_Email payload"
proof -
  let ?p = "payload\<lparr>rc_ExpiresAt := Some (Unix (clock e (ticks e) + ts_tokenTTL ts)),
    rc_IssuedAt := Some (Unix (clock e (ticks e)))\<rparr>"
  have s: "jwt_SignedString sec HS256 (ts_secret ts) ?p = Inr token"
    using gn by (auto simp: GenerateAccessToken_def time_now_def Let_def split: sum.splits)
  have "jwt_ParseWithClaims sec [HS256] (token_key ts) (clock e' (ticks e')) token = Inr (?p, True)"
    using a t by (intro parse_signed [OF s]) (simp_all add: ascii_claims_def token_key_def unexpired_def)
  then show ?thesis by (simp add: ValidateAccessToken_def time_now_def)
qed

lemma Hash_Compare:
  assumes "HashPassword sec password e = (e', Inr h)"
  shows "ComparePassword sec password h = Inr True" and "e' = tick e"
proof -
  have "argon_CreateHash sec (gen e (ticks e)) password = Inr h"
    using assms by (auto simp: HashPassword_def Let_def split: sum.splits)
  from hash_matches [OF this] show "ComparePassword sec password h = Inr True"
    by (simp add: ComparePassword_def)
  show "e' = tick e" using assms by (auto simp: HashPassword_def Let_def split: sum.splits)
qed

end

section \<open>An instance\<close>

text \<open>
  A hash that is the salt before the password, and a token that is a JSON document with the
  method, the key and the claims: enough to show that the laws can hold together.
\<close>

definition date_json :: "int option \<Rightarrow> json" where
  "date_json d = (case d of None \<Rightarrow> JBool False | Some t \<Rightarrow> JInt t)"

fun json_date :: "json \<Rightarrow> int option" where
  "json_date (JInt t) = Some t" | "json_date _ = None"

definition ref_token :: "string \<Rightarrow> string \<Rightarrow> requestClaims \<Rightarrow> json_doc" where
  "ref_token alg key c = [(''alg'', JStr alg), (''key'', JStr key), (''sub'', JStr (rc_UserID c)),
     (''email'', JStr (rc_Email c)), (''exp'', date_json (rc_ExpiresAt c)), (''iat'', date_json (rc_IssuedAt c))]"

definition ref_open :: "string \<Rightarrow> (string \<times> string \<times> requestClaims) option" where
  "ref_open token = (case read_doc token of
     Some [(_, JStr alg), (_, JStr key), (_, JStr sub), (_, JStr email), (_, expd), (_, iatd)] \<Rightarrow>
       Some (alg, key, \<lparr>rc_UserID = sub, rc_Email = email, rc_ExpiresAt = json_date expd, rc_IssuedAt = json_date iatd\<rparr>)
   | _ \<Rightarrow> None)"

definition ref_security :: security_libs where
  "ref_security = \<lparr>
     argon_CreateHash = (\<lambda>salt p. Inr (canonical_string salt @ p)),
     argon_ComparePasswordAndHash = (\<lambda>p h. Inr (drop 36 h = p)),
     jwt_SignedString = (\<lambda>alg key c. if ascii alg \<and> ascii key \<and> ascii_claims c
        then Inr (print_doc (ref_token alg key c)) else Inl (Opaque ''not signed'')),
     jwt_ParseWithClaims = (\<lambda>methods keyfunc now token. case ref_open token of
        None \<Rightarrow> Inl (Opaque ''token is malformed'')
      | Some (alg, key, c) \<Rightarrow> (if alg \<notin> set methods then Inl (Opaque ''signing method is invalid'') else
          (case keyfunc alg of Inl err \<Rightarrow> Inl err
           | Inr key' \<Rightarrow> (if key' \<noteq> key then Inl (Opaque ''token signature is invalid'')
              else if \<not> unexpired now c then Inl (Opaque ''token is expired'') else Inr (c, True))))),
     jwt_signed = (\<lambda>alg key token. case ref_open token of
        Some (alg', key', c) \<Rightarrow> if alg' = alg \<and> key' = key then Some c else None | None \<Rightarrow> None)\<rparr>"

lemma json_date_date_json [simp]: "json_date (date_json d) = d"
  by (cases d) (simp_all add: date_json_def)

lemma ascii_date_json [simp]: "ascii_json (date_json d)"
  by (cases d) (simp_all add: date_json_def)

lemma ref_open_print:
  assumes "ascii alg" and "ascii key" and "ascii_claims c"
  shows "ref_open (print_doc (ref_token alg key c)) = Some (alg, key, c)"
proof -
  have "ascii_doc (ref_token alg key c)"
    using assms by (simp add: ascii_doc_def ref_token_def ascii_claims_def)
  from compact.decode_encode [OF this] show ?thesis
    by (simp add: ref_open_def) (simp add: ref_token_def)
qed

interpretation ref_sec: security_ok ref_security
proof
  show "argon_ComparePasswordAndHash ref_security p h = Inr True"
    if "argon_CreateHash ref_security salt p = Inr h" for salt p h
    using that canonical.length_string [of salt] by (auto simp: ref_security_def)
  show "\<exists>alg \<in> set methods. \<exists>key. keyfunc alg = Inr key \<and> jwt_signed ref_security alg key token = Some c \<and> unexpired now c"
    if run: "jwt_ParseWithClaims ref_security methods keyfunc now token = Inr (c, True)" for methods keyfunc now token c
  proof -
    obtain alg key where "ref_open token = Some (alg, key, c)" "keyfunc alg = Inr key" "alg \<in> set methods" "unexpired now c"
      using run by (auto simp: ref_security_def split: option.splits sum.splits if_splits)
    then show ?thesis by (intro bexI [of _ alg] exI [of _ key]) (simp_all add: ref_security_def)
  qed
  show "jwt_ParseWithClaims ref_security methods keyfunc now token = Inr (c, True)"
    if "jwt_SignedString ref_security alg key c = Inr token" "ascii_claims c" "alg \<in> set methods"
      "keyfunc alg = Inr key" "unexpired now c" for alg key c token methods keyfunc now
    using that by (auto simp: ref_security_def ref_open_print split: if_splits)
  show "\<exists>token. jwt_SignedString ref_security HS256 key c = Inr token" if "ascii key" "ascii_claims c" for key c
    using that by (simp add: ref_security_def HS256_def)
qed

end
