(* ===== verification/User_Service.thy ===== *)
theory User_Service
  imports User_Repository Security
begin

text \<open>
  Registration, login and profile: \<^verbatim>\<open>internals/modules/user/service.go\<close> with the command and
  result types of \<^verbatim>\<open>domain.go\<close>, and what a login proves: the user whose row has the e-mail and
  a hash that the password matches, with a token for that user.
\<close>

section \<open>Operations\<close>

record logInUserCmd =
  luc_Email :: string
  luc_Password :: string

record logInUserResult =
  lur_UserID :: uuid
  lur_AccessToken :: string

definition Register :: "security_libs \<Rightarrow> createUserCmd \<Rightarrow> 'k world \<Rightarrow> 'k world \<times> uuid result" where
  "Register sec data e = (case HashPassword sec (cuc_PasswordHash data) e of
     (e1, Inl err) \<Rightarrow> (e1, Inl err)
   | (e1, Inr hashedPassword) \<Rightarrow> (case repo_CreateUser (data\<lparr>cuc_PasswordHash := hashedPassword\<rparr>) e1 of
       (e2, Inl err) \<Rightarrow> (e2, Inl err)
     | (e2, Inr i) \<Rightarrow> (e2, Inr i)))"

definition LogIn :: "'k services \<Rightarrow> security_libs \<Rightarrow> tokenService \<Rightarrow> logInUserCmd \<Rightarrow> 'k world \<Rightarrow>
    'k world \<times> logInUserResult result" where
  "LogIn x sec ts data e = (let op = ''service.user.login'';
      refused = AppError Unauthorised op None ''incorrect email or password'' None in
     case repo_GetUserByEmail (luc_Email data) e of
       (e1, Inl err) \<Rightarrow> (if IsKind err NotFound then (e1, Inl refused) else (e1, Inl err))
     | (e1, Inr u) \<Rightarrow>
        (if ComparePassword sec (luc_Password data) (usr_PasswordHash u) \<noteq> Inr True then (e1, Inl refused)
         else (let payload = \<lparr>rc_UserID = uuid_string x (usr_ID u), rc_Email = usr_Email u,
                 rc_ExpiresAt = None, rc_IssuedAt = None\<rparr> in
           case GenerateAccessToken sec ts payload e1 of
             (e2, Inl err) \<Rightarrow> (e2, Inl (AppError Internal op (Some err) ''internal server error'' None))
           | (e2, Inr token) \<Rightarrow> (e2, Inr \<lparr>lur_UserID = usr_ID u, lur_AccessToken = token\<rparr>))))"

definition GetProfile :: "uuid \<Rightarrow> 'k world \<Rightarrow> 'k world \<times> user result" where
  "GetProfile userId e = (case repo_GetUserByID userId e of
     (e', Inl err) \<Rightarrow> (e', Inl err) | (e', Inr u) \<Rightarrow> (e', Inr u))"

definition GetUserByID :: "uuid \<Rightarrow> 'k world \<Rightarrow> 'k world \<times> user result" where
  "GetUserByID userID e = (case repo_GetUserByID userID e of
     (e', Inl err) \<Rightarrow> (e', Inl err) | (e', Inr dbUser) \<Rightarrow> (e', Inr dbUser))"

definition IncrementMonitorCount :: "uuid \<Rightarrow> 'k world \<Rightarrow> 'k world \<times> go_error option" where
  "IncrementMonitorCount userID e = repo_IncrementMonitorCount userID e"

section \<open>Reading users\<close>

definition stored_user :: "user_row \<Rightarrow> user" where
  "stored_user r = \<lparr>usr_ID = u_ID r, usr_Name = u_Name r, usr_Email = u_Email r, usr_PasswordHash = u_PasswordHash r,
     usr_MonitorsCount = FromPgInt32 (u_MonitorsCount r), usr_IsPaidUser = FromPgBool (u_IsPaidUser r)\<rparr>"

lemma one_row_filter:
  "one_row (filter P xs) = Inr r \<Longrightarrow> r \<in> set xs \<and> P r"
  by (auto simp: one_row_def split: list.splits dest: filter_eq_ConsD)

lemma GetProfile_result:
  assumes "GetProfile i e = (e', r)"
  shows "kv e' = kv e" and "db e' = db e" and "later e e'"
    and "\<And>u. r = Inr u \<Longrightarrow> \<exists>row \<in> set (users (db e)). u_ID row = i \<and> u = stored_user row"
proof -
  obtain r0 where c: "dcall (getUserByID_sql i) e = (e', r0)"
    and r: "r = (case r0 of Inl err \<Rightarrow> Inl (WrapRepoError ''repo.user.get_user_by_id'' err True)
      | Inr row \<Rightarrow> Inr (stored_user row))"
    using assms by (auto simp: GetProfile_def repo_GetUserByID_def Let_def stored_user_def split: prod.splits sum.splits)
  note res = dcall_result [OF c]
  show "kv e' = kv e" "db e' = db e" "later e e'" using res(1) by (auto simp: ran_def getUserByID_sql_def)
  show "\<exists>row \<in> set (users (db e)). u_ID row = i \<and> u = stored_user row" if u: "r = Inr u" for u
  proof -
    obtain row where row: "r0 = Inr row" "u = stored_user row" using r u by (auto split: sum.splits)
    have "one_row (filter (\<lambda>r. u_ID r = i) (users (db e))) = Inr row"
      using res(2) [OF row(1)] by (auto simp: getUserByID_sql_def)
    from one_row_filter [OF this] row(2) show ?thesis by blast
  qed
qed

section \<open>Registering\<close>

definition new_user :: "createUserCmd \<Rightarrow> string \<Rightarrow> uuid \<Rightarrow> user_row \<Rightarrow> bool" where
  "new_user data h i row \<longleftrightarrow> u_ID row = i \<and> u_Name row = cuc_Name data \<and> u_Email row = cuc_Email data \<and>
     u_PasswordHash row = h \<and> u_MonitorsCount row = Some 0 \<and> u_IsPaidUser row = Some False"

lemma createUser_sql_Inr:
  assumes "createUser_sql i now name email h T = (T', Inr j)"
  shows "j = i \<and> email \<notin> u_Email ` set (users T) \<and> i \<notin> u_ID ` set (users T) \<and> monitors T' = monitors T \<and> incidents T' = incidents T \<and>
    users T' = users T @ [\<lparr>u_ID = i, u_Name = name, u_Email = email, u_PasswordHash = h,
        u_MonitorsCount = Some 0, u_IsPaidUser = Some False, u_CreatedAt = now\<rparr>]"
  using assms by (auto simp: createUser_sql_def split: if_splits)

lemma repo_CreateUser_result:
  assumes "repo_CreateUser cmd e = (e', r)"
  shows "ran (createUser_sql (gen e (ticks e)) (clock e (ticks e)) (cuc_Name cmd) (cuc_Email cmd) (cuc_PasswordHash cmd)) e e'"
    and "\<And>i. r = Inr i \<Longrightarrow> createUser_sql (gen e (ticks e)) (clock e (ticks e)) (cuc_Name cmd) (cuc_Email cmd)
        (cuc_PasswordHash cmd) (db e) = (db e', Inr i)"
    and "reliable e \<Longrightarrow> cuc_Email cmd \<in> u_Email ` set (users (db e)) \<Longrightarrow>
      db e' = db e \<and> (\<exists>err. r = Inl err \<and> IsKind err AlreadyExists)"
proof -
  let ?q = "createUser_sql (gen e (ticks e)) (clock e (ticks e)) (cuc_Name cmd) (cuc_Email cmd) (cuc_PasswordHash cmd)"
  obtain r0 where c: "dcall ?q e = (e', r0)"
    using assms by (auto simp: repo_CreateUser_def Let_def split: prod.splits sum.splits)
  note res = dcall_result [OF c]
  show "ran ?q e e'" by (rule res(1))
  show "?q (db e) = (db e', Inr i)" if "r = Inr i" for i
  proof -
    have "r0 = Inr i" using assms c that
      by (auto simp: repo_CreateUser_def Let_def FromPgUUID_def ToPgUUID_def split: sum.splits)
    then show ?thesis by (rule res(2))
  qed
  show "db e' = db e \<and> (\<exists>err. r = Inl err \<and> IsKind err AlreadyExists)"
    if rel: "reliable e" and em: "cuc_Email cmd \<in> u_Email ` set (users (db e))"
  proof -
    obtain cn where r0: "r0 = Inl (PgError ''23505'' cn ''users'')" and d: "db e' = db e"
      using res(3) [OF rel] em by (auto simp: createUser_sql_def split: if_splits)
    have "r = Inl (AppError AlreadyExists ''repo.user.create_user'' None ''user already exists'' None)"
      using assms c by (simp add: repo_CreateUser_def Let_def r0 errors_Is_def errors_As_def)
    with d show ?thesis by simp
  qed
qed

context security_ok
begin

lemma Register_result:
  assumes "Register sec data e = (e', r)"
  shows "vw x e' = vw x e" and "later e e'"
    and "\<And>i. r = Inr i \<Longrightarrow> \<exists>row h. new_user data h i row \<and> users (db e') = users (db e) @ [row] \<and>
      cuc_Email data \<notin> u_Email ` set (users (db e)) \<and> ComparePassword sec (cuc_PasswordHash data) h = Inr True"
    and "\<exists>i now h. db e' = db e \<or>
      db e' = fst (createUser_sql i now (cuc_Name data) (cuc_Email data) h (db e))"
proof -
  obtain e1 h where c: "HashPassword sec (cuc_PasswordHash data) e = (e1, h)"
    by (cases "HashPassword sec (cuc_PasswordHash data) e")
  have e1: "e1 = tick e" using c by (auto simp: HashPassword_def Let_def split: sum.splits)
  have *: "vw x e' = vw x e \<and> later e e' \<and> (\<exists>i now h. db e' = db e \<or>
      db e' = fst (createUser_sql i now (cuc_Name data) (cuc_Email data) h (db e))) \<and>
    (\<forall>i. r = Inr i \<longrightarrow> (\<exists>row h. new_user data h i row \<and> users (db e') = users (db e) @ [row] \<and>
      cuc_Email data \<notin> u_Email ` set (users (db e)) \<and> ComparePassword sec (cuc_PasswordHash data) h = Inr True))"
  proof (cases h)
    case (Inl err)
    then show ?thesis using assms c e1 by (auto simp: Register_def later_def tick_def vw_def)
  next
    case (Inr hp)
    let ?d = "data\<lparr>cuc_PasswordHash := hp\<rparr>"
    obtain r2 where c2: "repo_CreateUser ?d e1 = (e', r2)" and r: "r = r2"
      using assms c Inr by (auto simp: Register_def split: prod.splits sum.splits)
    note res = repo_CreateUser_result [OF c2]
    have e: "vw x e1 = vw x e" "later e e1" "db e1 = db e" by (simp_all add: e1 tick_def later_def vw_def)
    have "new_user data hp i row \<and> users (db e') = users (db e) @ [row] \<longrightarrow>
       ComparePassword sec (cuc_PasswordHash data) hp = Inr True" for i row
      using Hash_Compare(1) c Inr by blast
    moreover have "\<exists>row. new_user data hp i row \<and> users (db e') = users (db e) @ [row] \<and>
      cuc_Email data \<notin> u_Email ` set (users (db e))" if "r = Inr i" for i
      using createUser_sql_Inr [OF res(2)] that r e(3) by (auto simp: new_user_def)
    moreover have "vw x e' = vw x e" "later e e'"
      using ran_vw [OF res(1), of x] ran_later [OF res(1)] e by (auto intro: later_trans)
    moreover have "\<exists>i now h. db e' = db e \<or> db e' = fst (createUser_sql i now (cuc_Name data) (cuc_Email data) h (db e))"
      using res(1) e(3) by (auto simp: ran_def)
    ultimately show ?thesis by blast
  qed
  show "vw x e' = vw x e" "later e e'" using * by blast+
  show "\<exists>i now h. db e' = db e \<or> db e' = fst (createUser_sql i now (cuc_Name data) (cuc_Email data) h (db e))"
    using * by blast
  show "\<exists>row h. new_user data h i row \<and> users (db e') = users (db e) @ [row] \<and>
      cuc_Email data \<notin> u_Email ` set (users (db e)) \<and> ComparePassword sec (cuc_PasswordHash data) h = Inr True"
    if "r = Inr i" for i using * that by blast
qed

end


section \<open>Logging in\<close>

lemma repo_GetUserByEmail_result:
  assumes "repo_GetUserByEmail email e = (e', r)"
  shows "kv e' = kv e" and "db e' = db e" and "later e e'"
    and "\<And>u. r = Inr u \<Longrightarrow> \<exists>row \<in> set (users (db e)). u_Email row = email \<and>
      usr_ID u = u_ID row \<and> usr_Email u = u_Email row \<and> usr_PasswordHash u = u_PasswordHash row"
    and "\<And>row. reliable e \<Longrightarrow> wf_tables (db e) \<Longrightarrow> row \<in> set (users (db e)) \<Longrightarrow> u_Email row = email \<Longrightarrow>
      \<exists>u. r = Inr u \<and> usr_ID u = u_ID row \<and> usr_Email u = u_Email row \<and> usr_PasswordHash u = u_PasswordHash row"
    and "reliable e \<Longrightarrow> email \<notin> u_Email ` set (users (db e)) \<Longrightarrow> \<exists>err. r = Inl err \<and> IsKind err NotFound"
proof -
  obtain r0 where c: "dcall (getUserByEmail_sql email) e = (e', r0)"
    and rOk: "\<And>row. r0 = Inr row \<Longrightarrow> \<exists>u. r = Inr u \<and> usr_ID u = u_ID row \<and> usr_Email u = u_Email row \<and>
      usr_PasswordHash u = u_PasswordHash row"
    and rErr: "\<And>err. r0 = Inl err \<Longrightarrow> r = Inl (WrapRepoError ''repo.user.get_user_by_email'' err True)"
    using assms
    by (cases "dcall (getUserByEmail_sql email) e") (auto simp: repo_GetUserByEmail_def Let_def split: sum.splits)
  note res = dcall_result [OF c]
  show "kv e' = kv e" "db e' = db e" "later e e'" using res(1) by (auto simp: ran_def getUserByEmail_sql_def)
  show "\<exists>row \<in> set (users (db e)). u_Email row = email \<and>
      usr_ID u = u_ID row \<and> usr_Email u = u_Email row \<and> usr_PasswordHash u = u_PasswordHash row" if u: "r = Inr u" for u
  proof -
    obtain row where row: "r0 = Inr row" using rErr u by (cases r0) auto
    have "one_row (filter (\<lambda>r. u_Email r = email) (users (db e))) = Inr row"
      using res(2) [OF row] by (auto simp: getUserByEmail_sql_def)
    from one_row_filter [OF this] rOk [OF row] u show ?thesis by auto
  qed
  show "\<exists>u. r = Inr u \<and> usr_ID u = u_ID row \<and> usr_Email u = u_Email row \<and> usr_PasswordHash u = u_PasswordHash row"
    if "reliable e" "wf_tables (db e)" "row \<in> set (users (db e))" "u_Email row = email" for row
  proof -
    have "filter (\<lambda>r. u_Email r = email) (users (db e)) = [row]"
      using filter_key_unique [of u_Email "users (db e)" row] that by (simp add: wf_tables_def)
    then have "r0 = Inr row" using res(3) [OF that(1)] by (auto simp: getUserByEmail_sql_def one_row_def)
    then show ?thesis by (rule rOk)
  qed
  show "\<exists>err. r = Inl err \<and> IsKind err NotFound" if "reliable e" "email \<notin> u_Email ` set (users (db e))"
  proof -
    have "filter (\<lambda>r. u_Email r = email) (users (db e)) = []" using that(2) by (auto simp: filter_empty_conv)
    then have "r0 = Inl ErrNoRows" using res(3) [OF that(1)] by (auto simp: getUserByEmail_sql_def one_row_def)
    from rErr [OF this] show ?thesis by (simp add: WrapRepoError_def errors_Is_def)
  qed
qed

definition bad_login :: go_error where
  "bad_login = AppError Unauthorised ''service.user.login'' None ''incorrect email or password'' None"

definition login_claims :: "'k services \<Rightarrow> uuid \<Rightarrow> string \<Rightarrow> requestClaims" where
  "login_claims x i email = \<lparr>rc_UserID = uuid_string x i, rc_Email = email, rc_ExpiresAt = None, rc_IssuedAt = None\<rparr>"

text \<open>The part of \<^verbatim>\<open>LogIn\<close> after the user has been read.\<close>

lemma LogIn_user:
  assumes "repo_GetUserByEmail (luc_Email data) e = (e1, Inr u)" and "LogIn x sec ts data e = (e', r)"
  shows "ComparePassword sec (luc_Password data) (usr_PasswordHash u) \<noteq> Inr True \<Longrightarrow> (e', r) = (e1, Inl bad_login)"
    and "ComparePassword sec (luc_Password data) (usr_PasswordHash u) = Inr True \<Longrightarrow>
      (case GenerateAccessToken sec ts (login_claims x (usr_ID u) (usr_Email u)) e1 of
        (e2, Inl err) \<Rightarrow> e' = e2 \<and> (\<exists>er. r = Inl er \<and> IsKind er Internal)
      | (e2, Inr token) \<Rightarrow> e' = e2 \<and> r = Inr \<lparr>lur_UserID = usr_ID u, lur_AccessToken = token\<rparr>)"
  using assms by (auto simp: LogIn_def Let_def bad_login_def login_claims_def split: prod.splits sum.splits)

lemma GenerateAccessToken_frame:
  "GenerateAccessToken sec ts p e = (e', r) \<Longrightarrow> e' = tick e"
  by (auto simp: GenerateAccessToken_def Let_def time_now_def split: sum.splits)

lemma tick_frame: "kv (tick e) = kv e" "db (tick e) = db e" "later e (tick e)"
  by (simp_all add: tick_def later_def)

lemma LogIn_frame:
  assumes "LogIn x sec ts data e = (e', r)"
  shows "kv e' = kv e \<and> db e' = db e \<and> later e e'"
proof -
  obtain e1 r1 where c: "repo_GetUserByEmail (luc_Email data) e = (e1, r1)"
    by (cases "repo_GetUserByEmail (luc_Email data) e")
  have "e' = e1 \<or> e' = tick e1"
    using assms c by (auto simp: LogIn_def Let_def split: sum.splits if_splits prod.splits dest: GenerateAccessToken_frame)
  with repo_GetUserByEmail_result(1-3) [OF c] show ?thesis
    by (auto simp: tick_frame intro: later_trans tick_frame(3))
qed

lemma LogIn_sound:
  assumes run: "LogIn x sec ts data e = (e', Inr res)"
  shows "\<exists>row \<in> set (users (db e)). u_Email row = luc_Email data \<and> u_ID row = lur_UserID res \<and>
    ComparePassword sec (luc_Password data) (u_PasswordHash row) = Inr True \<and>
    (\<exists>e1. later e e1 \<and> GenerateAccessToken sec ts (login_claims x (u_ID row) (u_Email row)) e1 = (e', Inr (lur_AccessToken res)))"
proof -
  obtain e1 r1 where c: "repo_GetUserByEmail (luc_Email data) e = (e1, r1)"
    by (cases "repo_GetUserByEmail (luc_Email data) e")
  obtain u where u: "r1 = Inr u" using run c by (cases r1) (auto simp: LogIn_def Let_def split: if_splits)
  note cases = LogIn_user [OF c [unfolded u] run]
  have cmp: "ComparePassword sec (luc_Password data) (usr_PasswordHash u) = Inr True" using cases(1) by auto
  have tok: "GenerateAccessToken sec ts (login_claims x (usr_ID u) (usr_Email u)) e1 = (e', Inr (lur_AccessToken res))"
    and i: "lur_UserID res = usr_ID u"
    using cases(2) [OF cmp]
    by (cases "GenerateAccessToken sec ts (login_claims x (usr_ID u) (usr_Email u)) e1"; auto split: sum.splits)+
  from repo_GetUserByEmail_result(3,4) [OF c] u cmp tok i show ?thesis by fastforce
qed

text \<open>An unknown e-mail and a wrong password get the same answer.\<close>

lemma LogIn_refused:
  assumes rel: "reliable e" and wf: "wf_tables (db e)" and run: "LogIn x sec ts data e = (e', r)"
    and bad: "\<forall>row \<in> set (users (db e)). u_Email row = luc_Email data \<longrightarrow>
      ComparePassword sec (luc_Password data) (u_PasswordHash row) \<noteq> Inr True"
  shows "r = Inl bad_login"
proof (cases "luc_Email data \<in> u_Email ` set (users (db e))")
  case True
  then obtain row where row: "row \<in> set (users (db e))" "u_Email row = luc_Email data" by auto
  obtain e1 r1 where c: "repo_GetUserByEmail (luc_Email data) e = (e1, r1)"
    by (cases "repo_GetUserByEmail (luc_Email data) e")
  from repo_GetUserByEmail_result(5) [OF c rel wf row] obtain u where
    u: "r1 = Inr u" "usr_PasswordHash u = u_PasswordHash row" by blast
  with LogIn_user(1) [OF c [unfolded u(1)] run] bad row show ?thesis by auto
next
  case False
  obtain e1 r1 where c: "repo_GetUserByEmail (luc_Email data) e = (e1, r1)"
    by (cases "repo_GetUserByEmail (luc_Email data) e")
  from repo_GetUserByEmail_result(6) [OF c rel False] obtain err where "r1 = Inl err" "IsKind err NotFound" by blast
  with run c show ?thesis by (auto simp: LogIn_def Let_def bad_login_def)
qed

context security_ok
begin

lemma Register_LogIn:
  assumes rel: "reliable e" and wf: "wf_tables (db e)" and key: "ascii (ts_secret ts)"
    and a: "ascii (cuc_Email data)" and ux: "\<And>i. ascii (uuid_string x i)"
    and reg: "Register sec data e = (e1, Inr i)" and ep: "db e2 = db e1" "reliable e2"
    and cmd: "luc_Email cmd = cuc_Email data" "luc_Password cmd = cuc_PasswordHash data"
  shows "\<exists>e3 token now. LogIn x sec ts cmd e2 = (e3, Inr \<lparr>lur_UserID = i, lur_AccessToken = token\<rparr>) \<and>
     later e2 e3 \<and> (\<exists>n \<ge> ticks e2. now = clock e2 n) \<and> (\<forall>e4. clock e4 (ticks e4) < Unix (now + ts_tokenTTL ts) * Second \<longrightarrow>
       (\<exists>c. ValidateAccessToken sec ts token e4 = (tick e4, Inr c) \<and>
          rc_UserID c = uuid_string x i \<and> rc_Email c = cuc_Email data))"
proof -
  obtain row h where row: "new_user data h i row" "users (db e1) = users (db e) @ [row]"
      "ComparePassword sec (cuc_PasswordHash data) h = Inr True"
    using Register_result(3) [OF reg] by blast
  have wf1: "wf_tables (db e2)" using Register_result(4) [OF reg] wf wf_createUser ep by metis
  have mem: "row \<in> set (users (db e2))" "u_Email row = luc_Email cmd" "u_PasswordHash row = h" "u_ID row = i"
    using row cmd ep by (auto simp: new_user_def)
  obtain e3 r where run: "LogIn x sec ts cmd e2 = (e3, r)" by (cases "LogIn x sec ts cmd e2")
  obtain ea ra where c: "repo_GetUserByEmail (luc_Email cmd) e2 = (ea, ra)"
    by (cases "repo_GetUserByEmail (luc_Email cmd) e2")
  from repo_GetUserByEmail_result(5) [OF c ep(2) wf1 mem(1,2)] obtain u where
    u: "ra = Inr u" "usr_ID u = i" "usr_Email u = cuc_Email data" "usr_PasswordHash u = h"
    using mem cmd by auto
  let ?p = "login_claims x i (cuc_Email data)" and ?now = "clock ea (ticks ea)"
  have ac: "ascii_claims ?p" using a ux by (simp add: ascii_claims_def login_claims_def)
  let ?p' = "?p\<lparr>rc_ExpiresAt := Some (Unix (?now + ts_tokenTTL ts)), rc_IssuedAt := Some (Unix ?now)\<rparr>"
  have "ascii_claims ?p'" using ac by (simp add: ascii_claims_def)
  then obtain token where "jwt_SignedString sec HS256 (ts_secret ts) ?p' = Inr token"
    using sign_total [OF key] by blast
  then have tok: "GenerateAccessToken sec ts ?p ea = (tick ea, Inr token)"
    by (simp add: GenerateAccessToken_def time_now_def Let_def)
  have "r = Inr \<lparr>lur_UserID = i, lur_AccessToken = token\<rparr>"
    using LogIn_user(2) [OF c [unfolded u(1)] run] u row(3) cmd(2) tok by simp
  moreover have "later e2 e3" using LogIn_frame [OF run] by blast
  moreover have "\<exists>c. ValidateAccessToken sec ts token e4 = (tick e4, Inr c) \<and>
      rc_UserID c = uuid_string x i \<and> rc_Email c = cuc_Email data"
    if "clock e4 (ticks e4) < Unix (?now + ts_tokenTTL ts) * Second" for e4 :: "('x, 'y) env"
    using Generate_Validate [OF tok ac that] by (simp add: login_claims_def)
  moreover have "\<exists>n \<ge> ticks e2. ?now = clock e2 n"
    using repo_GetUserByEmail_result(3) [OF c] by (auto simp: later_def)
  ultimately show ?thesis using run by blast
qed

end

end
