(* ===== verification/Validator.thy ===== *)
theory Validator
  imports Prelude
begin

text \<open>
  Validation of structs by their tags, as the package \<^verbatim>\<open>go-playground/validator\<close> does it for
  request bodies and for the configuration. The validators behind the tags are a parameter,
  with their documented behaviour as the laws of a locale; nothing is assumed of \<^verbatim>\<open>email\<close>,
  \<^verbatim>\<open>url\<close> and \<^verbatim>\<open>oneof\<close>.
\<close>

section \<open>Tags\<close>

datatype field = FStr string | FInt int | FBool bool

datatype tag = Required | Gte int | Gt int | Lte int | Email | Url | Oneof "string list"

text \<open>\<^verbatim>\<open>validator.Struct\<close>: every tag of every field accepts its value.\<close>

definition validStruct :: "(tag \<Rightarrow> field \<Rightarrow> bool) \<Rightarrow> (field \<times> tag list) list \<Rightarrow> bool" where
  "validStruct validate fs \<longleftrightarrow> list_all (\<lambda>(f, tags). list_all (\<lambda>t. validate t f) tags) fs"

text \<open>
  \<^verbatim>\<open>required\<close> refuses zero values; \<^verbatim>\<open>gte\<close>, \<^verbatim>\<open>gt\<close> and \<^verbatim>\<open>lte\<close> compare numbers by value
  (durations as nanoseconds) and strings by their number of characters.
\<close>

locale validator_tags =
  fixes validate :: "tag \<Rightarrow> field \<Rightarrow> bool"
  assumes required_str: "validate Required (FStr s) \<longleftrightarrow> s \<noteq> ''''"
    and required_int: "validate Required (FInt n) \<longleftrightarrow> n \<noteq> 0"
    and required_bool: "validate Required (FBool b) \<longleftrightarrow> b"
    and gte_int: "validate (Gte m) (FInt n) \<longleftrightarrow> m \<le> n"
    and gt_int: "validate (Gt m) (FInt n) \<longleftrightarrow> m < n"
    and lte_int: "validate (Lte m) (FInt n) \<longleftrightarrow> n \<le> m"
    and gte_str: "ascii s \<Longrightarrow> validate (Gte m) (FStr s) \<longleftrightarrow> m \<le> int (length s)"
    and lte_str: "ascii s \<Longrightarrow> validate (Lte m) (FStr s) \<longleftrightarrow> int (length s) \<le> m"
begin

lemmas tag_laws = required_str required_int required_bool gte_int gt_int lte_int gte_str lte_str

end

definition ref_validate :: "tag \<Rightarrow> field \<Rightarrow> bool" where
  "ref_validate t f = (case t of
     Required \<Rightarrow> (case f of FStr s \<Rightarrow> s \<noteq> '''' | FInt n \<Rightarrow> n \<noteq> 0 | FBool b \<Rightarrow> b)
   | Gte m \<Rightarrow> (case f of FStr s \<Rightarrow> m \<le> int (length s) | FInt n \<Rightarrow> m \<le> n | FBool b \<Rightarrow> False)
   | Gt m \<Rightarrow> (case f of FStr s \<Rightarrow> m < int (length s) | FInt n \<Rightarrow> m < n | FBool b \<Rightarrow> False)
   | Lte m \<Rightarrow> (case f of FStr s \<Rightarrow> int (length s) \<le> m | FInt n \<Rightarrow> n \<le> m | FBool b \<Rightarrow> False)
   | Email \<Rightarrow> (case f of FStr s \<Rightarrow> CHR ''@'' \<in> set s | _ \<Rightarrow> False)
   | Url \<Rightarrow> (case f of FStr s \<Rightarrow> CHR '':'' \<in> set s | _ \<Rightarrow> False)
   | Oneof ss \<Rightarrow> (case f of FStr s \<Rightarrow> s \<in> set ss | _ \<Rightarrow> False))"

interpretation ref_tags: validator_tags ref_validate
  by unfold_locales (simp_all add: ref_validate_def)

end
