(* ===== verification/Http.thy ===== *)
theory Http
  imports User_Service Validator
begin

text \<open>
  What the HTTP layer shares: requests and responses (\<^verbatim>\<open>pkg/utils/response.go\<close>), the decoding of
  JSON bodies into structs, and the authentication and authorization middleware
  (\<^verbatim>\<open>internals/middleware\<close>). The byte-level syntax of JSON, the routing and the header and
  query parsing of \<^verbatim>\<open>net/http\<close> and \<^verbatim>\<open>chi\<close> are behind the record \<open>request\<close>.
\<close>

section \<open>Requests and responses\<close>

text \<open>
  A body is no JSON object, the literal \<^verbatim>\<open>null\<close>, or an object. A member may also be \<^verbatim>\<open>null\<close>
  or a value that no field of the structs here can take (an array, an object, a number that is
  no integer).
\<close>

datatype member = Plain json | NullMember | OtherMember

datatype body = BadBody | NullBody | ObjectBody "(string \<times> member) list"

record authenticatedUser =
  au_UserID :: uuid
  au_Email :: string

text \<open>
  \<open>rq_authorization\<close> is the header, empty if missing; \<open>rq_monitorID\<close> the URL parameter;
  \<open>rq_user\<close> the value of the context under \<^verbatim>\<open>userCtxKey\<close>.
\<close>

record request =
  rq_reqID :: string
  rq_authorization :: string
  rq_monitorID :: string
  rq_limit :: string
  rq_offset :: string
  rq_body :: body
  rq_user :: "authenticatedUser option"

text \<open>A response: the status, and \<^verbatim>\<open>SuccessResponse\<close> with its data or \<^verbatim>\<open>ErrorResponse\<close>.\<close>

datatype 'a response_body =
    SuccessResponse (sr_RequestID: string) (sr_Message: string) (sr_Data: 'a)
  | ErrorResponse (er_RequestID: string) (er_Kind: kind) (er_Message: string)

record 'a response =
  rs_status :: int
  rs_body :: "'a response_body"

definition WriteJSON :: "int \<Rightarrow> string \<Rightarrow> string \<Rightarrow> 'a \<Rightarrow> 'a response" where
  "WriteJSON status reqID message data = \<lparr>rs_status = status, rs_body = SuccessResponse reqID message data\<rparr>"

definition WriteError :: "int \<Rightarrow> string \<Rightarrow> kind \<Rightarrow> string \<Rightarrow> 'a response" where
  "WriteError httpStatusCode reqID code message =
     \<lparr>rs_status = httpStatusCode, rs_body = ErrorResponse reqID code message\<rparr>"

definition FromAppError :: "string \<Rightarrow> go_error \<Rightarrow> 'a response" where
  "FromAppError reqID err =
     (let appErr = (case errors_As is_AppError err of
          Some a \<Rightarrow> a | None \<Rightarrow> AppError Internal '''' None ''internal server error'' None)
      in WriteError (GetHTTPStatus (Kind appErr)) reqID (Kind appErr) (Message appErr))"

text \<open>The messages of \<^verbatim>\<open>constants.go\<close>, which the handlers do not use yet.\<close>

type_synonym responseMessage = string

definition response_messages :: "responseMessage list" where
  "response_messages = [''User registered successfully'', ''User logged in successfully'', ''User updated successfully'',
     ''User deleted successfully'', ''User retrieved successfully'', ''Monitor created successfully'',
     ''Monitor updated successfully'', ''Monitor deleted successfully'', ''Monitor retrieved successfully'']"

definition BuildNotFoundMessage :: "string \<Rightarrow> responseMessage" where
  "BuildNotFoundMessage resource = resource @ '' not found''"

definition refusal :: "'a response \<Rightarrow> bool" where
  "refusal r \<longleftrightarrow> (case rs_body r of ErrorResponse _ _ _ \<Rightarrow> True | SuccessResponse _ _ _ \<Rightarrow> False)"

lemma refusal_simps [simp]:
  "refusal (WriteError s i k m)" "\<not> refusal (WriteJSON s i m d)" "refusal (FromAppError i err)"
  by (simp_all add: refusal_def WriteError_def WriteJSON_def FromAppError_def Let_def)

lemma status_simps [simp]:
  "rs_status (WriteError s i k m) = s" "rs_status (WriteJSON s i m d) = s"
  by (simp_all add: WriteError_def WriteJSON_def)

lemma GetHTTPStatus_range: "GetHTTPStatus k \<in> {400, 401, 403, 404, 409, 500, 502}"
  by (simp add: GetHTTPStatus_def)

lemma FromAppError_status: "rs_status (FromAppError i err) \<in> {400, 401, 403, 404, 409, 500, 502}"
  by (simp add: FromAppError_def Let_def GetHTTPStatus_range del: insert_iff)

lemma FromAppError_AppError [simp]:
  "FromAppError i (AppError k op err m st) = WriteError (GetHTTPStatus k) i k m"
  by (simp add: FromAppError_def)

section \<open>Decoding a struct\<close>

text \<open>
  \<^verbatim>\<open>json.NewDecoder(r.Body).Decode(&req)\<close>: \<open>assign\<close> stores a plain member into the field with
  the (case-folded) name, if there is one, and fails if it has another type. A \<^verbatim>\<open>null\<close> member
  leaves its field alone; any other value for a field is an error, and for no field is skipped
  (\<open>has_field\<close>).
\<close>

primrec decode_members :: "(string \<Rightarrow> bool) \<Rightarrow> (string \<Rightarrow> json \<Rightarrow> 'a \<Rightarrow> 'a option) \<Rightarrow>
    (string \<times> member) list \<Rightarrow> 'a \<Rightarrow> 'a option" where
  "decode_members has_field assign [] req = Some req"
| "decode_members has_field assign (m # ms) req = (case snd m of
     Plain v \<Rightarrow> Option.bind (assign (fst m) v req) (decode_members has_field assign ms)
   | NullMember \<Rightarrow> decode_members has_field assign ms req
   | OtherMember \<Rightarrow> (if has_field (fst m) then None else decode_members has_field assign ms req))"

definition decode :: "(string \<Rightarrow> bool) \<Rightarrow> (string \<Rightarrow> json \<Rightarrow> 'a \<Rightarrow> 'a option) \<Rightarrow> 'a \<Rightarrow> body \<Rightarrow> 'a option" where
  "decode has_field assign zero b = (case b of
     BadBody \<Rightarrow> None | NullBody \<Rightarrow> Some zero | ObjectBody ms \<Rightarrow> decode_members has_field assign ms zero)"

section \<open>Authentication (authentication.go, authorization.go)\<close>

text \<open>\<^verbatim>\<open>strings.Split(s, sep)\<close> for a separator of one byte.\<close>

fun Split :: "char \<Rightarrow> string \<Rightarrow> string list" where
  "Split sep [] = [[]]"
| "Split sep (c # cs) = (if c = sep then [] # Split sep cs
     else (case Split sep cs of [] \<Rightarrow> [[c]] | p # ps \<Rightarrow> (c # p) # ps))"

text \<open>An error of \<^verbatim>\<open>extractBearerToken\<close> is its text.\<close>

definition extractBearerToken :: "request \<Rightarrow> string + string" where
  "extractBearerToken r = (let authHeader = rq_authorization r in
     if authHeader = '''' then Inl ''missing Authorization header''
     else (let parts = Split (CHR '' '') authHeader in
       if length parts \<noteq> 2 \<or> parts ! 0 \<noteq> ''Bearer'' then Inl ''invalid Authorization header''
       else Inr (parts ! 1)))"

definition Handle :: "'k services \<Rightarrow> security_libs \<Rightarrow> tokenService \<Rightarrow>
    (request \<Rightarrow> 'k world \<Rightarrow> 'k world \<times> 'a response) \<Rightarrow> request \<Rightarrow> 'k world \<Rightarrow> 'k world \<times> 'a response" where
  "Handle x sec ts nxt r e = (let reqID = rq_reqID r in
     case extractBearerToken r of
       Inl err \<Rightarrow> (e, WriteError 401 reqID Unauthorised err)
     | Inr token \<Rightarrow> (case ValidateAccessToken sec ts token e of
         (e1, Inl err) \<Rightarrow> (e1, FromAppError reqID err)
       | (e1, Inr claims) \<Rightarrow>
          (if rc_UserID claims = '''' \<or> rc_Email claims = ''''
           then (e1, WriteError 401 reqID Unauthorised ''user is unauthorised'')
           else (case uuid_parse x (rc_UserID claims) of
               None \<Rightarrow> (e1, WriteError 401 reqID Unauthorised ''user is unauthorised'')
             | Some userID \<Rightarrow> nxt (r\<lparr>rq_user := Some \<lparr>au_UserID = userID, au_Email = rc_Email claims\<rparr>\<rparr>) e1))))"

definition UserFromContext :: "request \<Rightarrow> authenticatedUser option" where
  "UserFromContext r = rq_user r"

definition AllowAdmin :: "(request \<Rightarrow> 'k world \<Rightarrow> 'k world \<times> 'a response) \<Rightarrow> request \<Rightarrow> 'k world \<Rightarrow>
    'k world \<times> 'a response" where
  "AllowAdmin nxt r e = (case UserFromContext r of
     None \<Rightarrow> (e, WriteError 401 (rq_reqID r) Unauthorised ''user is unauthorised'')
   | Some _ \<Rightarrow> nxt r e)"

section \<open>What authentication gives\<close>

lemma Split_nonempty: "Split sep s \<noteq> []"
  by (induction s) (auto split: list.splits)

lemma Split_no_sep: "sep \<notin> set s \<Longrightarrow> Split sep s = [s]"
  by (induction s) auto

lemma Split_append: "sep \<notin> set s \<Longrightarrow> Split sep (s @ sep # t) = s # Split sep t"
  by (induction s) (auto split: list.splits)

lemma extract_bearer:
  assumes "CHR '' '' \<notin> set token" and "rq_authorization r = ''Bearer '' @ token"
  shows "extractBearerToken r = Inr token"
proof -
  have "Split (CHR '' '') (''Bearer'' @ CHR '' '' # token) = [''Bearer'', token]"
    using assms(1) by (subst Split_append) (simp_all add: Split_no_sep)
  then show ?thesis using assms(2) by (simp add: extractBearerToken_def)
qed

text \<open>
  \<open>authenticated\<close>: the request carries a token with a good signature under the secret of the
  service that has not expired and whose subject is the user.
\<close>

definition authenticated :: "'k services \<Rightarrow> security_libs \<Rightarrow> tokenService \<Rightarrow> request \<Rightarrow> 'k world \<Rightarrow> uuid \<Rightarrow> bool" where
  "authenticated x sec ts r e user \<longleftrightarrow> (\<exists>token c. extractBearerToken r = Inr token \<and>
     jwt_signed sec HS256 (ts_secret ts) token = Some c \<and> unexpired (clock e (ticks e)) c \<and>
     rc_Email c \<noteq> '''' \<and> uuid_parse x (rc_UserID c) = Some user)"

definition as_user :: "authenticatedUser \<Rightarrow> request \<Rightarrow> request" where
  "as_user u r = r\<lparr>rq_user := Some u\<rparr>"

lemma Handle_passes:
  assumes "extractBearerToken r = Inr token" and "ValidateAccessToken sec ts token e = (e1, Inr c)"
    and "rc_UserID c \<noteq> ''''" and "rc_Email c \<noteq> ''''" and "uuid_parse x (rc_UserID c) = Some i"
  shows "Handle x sec ts nxt r e = nxt (as_user \<lparr>au_UserID = i, au_Email = rc_Email c\<rparr> r) e1"
  using assms by (simp add: Handle_def as_user_def)

context security_ok
begin

lemma Handle_cases:
  assumes "Handle x sec ts nxt r e = (e', resp)"
  obtains (refused) "e' = e \<or> e' = tick e" "refusal resp" "rs_status resp = 401"
  | (passed) u where "authenticated x sec ts r e (au_UserID u)" "nxt (as_user u r) (tick e) = (e', resp)"
proof (cases "extractBearerToken r")
  case (Inl err)
  then show ?thesis using assms refused by (auto simp: Handle_def Let_def)
next
  case (Inr token)
  obtain e1 v where v: "ValidateAccessToken sec ts token e = (e1, v)" by (cases "ValidateAccessToken sec ts token e")
  note vr = Validate_result [OF v]
  show ?thesis
  proof (cases v)
    case (Inl err)
    obtain op er m st where "err = AppError Unauthorised op er m st"
      using v Inl by (auto simp: ValidateAccessToken_def Let_def time_now_def split: sum.splits prod.splits if_splits)
    then show ?thesis using assms Inr Inl v vr(1) refused
      by (auto simp: Handle_def Let_def GetHTTPStatus_def kind_defs)
  next
    case (Inr c)
    note c = vr(2) [OF Inr]
    show ?thesis
    proof (cases "rc_UserID c = '''' \<or> rc_Email c = '''' \<or> uuid_parse x (rc_UserID c) = None")
      case True
      then show ?thesis using assms \<open>extractBearerToken r = Inr token\<close> Inr v vr(1) refused
        by (auto simp: Handle_def Let_def split: if_splits)
    next
      case False
      then obtain i where i: "uuid_parse x (rc_UserID c) = Some i" by auto
      let ?u = "\<lparr>au_UserID = i, au_Email = rc_Email c\<rparr>"
      have "authenticated x sec ts r e (au_UserID ?u)"
        using \<open>extractBearerToken r = Inr token\<close> c False i by (auto simp: authenticated_def)
      moreover have "nxt (as_user ?u r) (tick e) = (e', resp)"
        using assms \<open>extractBearerToken r = Inr token\<close> Inr v vr(1) False i
        by (auto simp: Handle_def Let_def as_user_def)
      ultimately show ?thesis by (rule passed)
    qed
  qed
qed

end

end
