(* ===== verification/Redis_Store.thy ===== *)
theory Redis_Store
  imports World
begin

text \<open>
  The Redis client of the program, \<^verbatim>\<open>pkg/redisstore\<close>, and the three Lua scripts of
  \<^verbatim>\<open>internals/modules/scheduler/lua_scripts.go\<close> it sends: the two sorted sets of the schedule,
  the monitor cache, the incident hashes, the retry counters and the status hashes.
\<close>

section \<open>Keys\<close>

definition scheduleKey :: string where "scheduleKey = ''monitor:schedule''"
definition inflightKey :: string where "inflightKey = ''monitor:inflight''"

definition monitorKey :: "string \<Rightarrow> string" where
  "monitorKey i = ''monitor:'' @ i"

definition incidentKey :: "'k services \<Rightarrow> uuid \<Rightarrow> string" where
  "incidentKey x u = ''monitor:incident:'' @ uuid_string x u"

definition retryKey :: "'k services \<Rightarrow> uuid \<Rightarrow> string" where
  "retryKey x u = ''monitor:retry:'' @ uuid_string x u"

definition statusKey :: "'k services \<Rightarrow> uuid \<Rightarrow> string" where
  "statusKey x u = ''monitor:status:'' @ uuid_string x u"

section \<open>Lua scripts\<close>

text \<open>
  A script runs on the server, alone; \<^verbatim>\<open>redis.call\<close> raises on an error reply, which ends the
  script with that error and keeps what it has done so far. A reply is a string, an integer
  or a table.
\<close>

datatype lua_val = LStr string | LInt int | LList "lua_val list"

text \<open>\<^verbatim>\<open>for i, member in ipairs(items) do redis.call("ZREM", ...) end\<close>\<close>

primrec remove_each :: "'k redis \<Rightarrow> string \<Rightarrow> string list \<Rightarrow> 'k \<Rightarrow> 'k \<times> unit result" where
  "remove_each rd key [] s = (s, Inr ())"
| "remove_each rd key (member # items) s = (case ZREM rd key member s of
     (s1, Inl err) \<Rightarrow> (s1, Inl err)
   | (s1, Inr _) \<Rightarrow> remove_each rd key items s1)"

text \<open>The loop body \<^verbatim>\<open>ZREM from member; ZADD to score member\<close> of the two moving scripts.\<close>

primrec move_each :: "'k redis \<Rightarrow> string \<Rightarrow> string \<Rightarrow> int \<Rightarrow> string list \<Rightarrow> 'k \<Rightarrow> 'k \<times> unit result" where
  "move_each rd from to score [] s = (s, Inr ())"
| "move_each rd from to score (member # items) s = (case ZREM rd from member s of
     (s1, Inl err) \<Rightarrow> (s1, Inl err)
   | (s1, Inr _) \<Rightarrow> (case ZADD rd to [(score, member)] s1 of
       (s2, Inl err) \<Rightarrow> (s2, Inl err)
     | (s2, Inr _) \<Rightarrow> move_each rd from to score items s2))"

definition fetchDueMonitorsScript :: "'k redis \<Rightarrow> string \<Rightarrow> int \<Rightarrow> int \<Rightarrow> 'k \<Rightarrow> 'k \<times> lua_val result" where
  "fetchDueMonitorsScript rd key now limit s = (case ZRANGEBYSCORE rd key now limit s of
     (s1, Inl err) \<Rightarrow> (s1, Inl err)
   | (s1, Inr items) \<Rightarrow> (case remove_each rd key items s1 of
       (s2, Inl err) \<Rightarrow> (s2, Inl err)
     | (s2, Inr _) \<Rightarrow> (s2, Inr (LList (map LStr items)))))"

definition fetchAndMoveToInflightScript ::
    "'k redis \<Rightarrow> string \<Rightarrow> string \<Rightarrow> int \<Rightarrow> int \<Rightarrow> int \<Rightarrow> 'k \<Rightarrow> 'k \<times> lua_val result" where
  "fetchAndMoveToInflightScript rd schedKey inflKey now limit visibilityTimeout s =
     (case ZRANGEBYSCORE rd schedKey now limit s of
       (s1, Inl err) \<Rightarrow> (s1, Inl err)
     | (s1, Inr items) \<Rightarrow> (case move_each rd schedKey inflKey (now + visibilityTimeout) items s1 of
         (s2, Inl err) \<Rightarrow> (s2, Inl err)
       | (s2, Inr _) \<Rightarrow> (s2, Inr (LList (map LStr items)))))"

definition reclaimMonitorsScript ::
    "'k redis \<Rightarrow> string \<Rightarrow> string \<Rightarrow> int \<Rightarrow> int \<Rightarrow> 'k \<Rightarrow> 'k \<times> lua_val result" where
  "reclaimMonitorsScript rd inflKey schedKey now limit s =
     (case ZRANGEBYSCORE rd inflKey now limit s of
       (s1, Inl err) \<Rightarrow> (s1, Inl err)
     | (s1, Inr items) \<Rightarrow> (case move_each rd inflKey schedKey now items s1 of
         (s2, Inl err) \<Rightarrow> (s2, Inl err)
       | (s2, Inr _) \<Rightarrow> (s2, Inr (LInt (int (length items))))))"

section \<open>The schedule (scheduler.go, reclaimer.go)\<close>

definition Schedule :: "'k services \<Rightarrow> string \<Rightarrow> time \<Rightarrow> ('k, 'd) env \<Rightarrow>
    ('k, 'd) env \<times> go_error option" where
  "Schedule x monitorID nextRun e =
     (case retry 3 (once (ZADD (rds x) scheduleKey [(UnixMilli nextRun, monitorID)])) () e of
       (e', _, err) \<Rightarrow> (e', err))"

definition ScheduleBatch :: "'k services \<Rightarrow> (string \<times> int) list \<Rightarrow> ('k, 'd) env \<Rightarrow>
    ('k, 'd) env \<times> go_error option" where
  "ScheduleBatch x items e =
     (if items = [] then (e, None)
      else (case retry 3 (once (ZADD (rds x) scheduleKey (map (\<lambda>(m, sc). (sc, m)) items))) () e of
        (e', _, err) \<Rightarrow> (e', err)))"

definition PopDue :: "'k services \<Rightarrow> int \<Rightarrow> ('k, 'd) env \<Rightarrow>
    ('k, 'd) env \<times> (string \<times> int) list \<times> go_error option" where
  "PopDue x batchCount e =
     retry 3 (\<lambda>res e. case rcall (ZPOPMIN (rds x) scheduleKey batchCount) e of
       (e', Inl err) \<Rightarrow> (e', [], Some err)
     | (e', Inr popped) \<Rightarrow> (e', popped, None)) [] e"

definition DelSchedule :: "'k services \<Rightarrow> string \<Rightarrow> ('k, 'd) env \<Rightarrow> ('k, 'd) env \<times> go_error option" where
  "DelSchedule x monitorID e =
     (case rcall (ZREM (rds x) scheduleKey monitorID) e of (e', r) \<Rightarrow> (e', err_of r))"

text \<open>The strings of a table reply; other entries are skipped.\<close>

definition reply_strings :: "lua_val list \<Rightarrow> string list" where
  "reply_strings raw = List.map_filter (\<lambda>v. case v of LStr t \<Rightarrow> Some t | _ \<Rightarrow> None) raw"

definition FetchDueMonitors :: "'k services \<Rightarrow> time \<Rightarrow> int \<Rightarrow> ('k, 'd) env \<Rightarrow>
    ('k, 'd) env \<times> string list result" where
  "FetchDueMonitors x now limit e =
     (case rcall (fetchDueMonitorsScript (rds x) scheduleKey (UnixMilli now) limit) e of
       (e', Inl err) \<Rightarrow> (e', Inl err)
     | (e', Inr (LList rawItems)) \<Rightarrow> (e', Inr (reply_strings rawItems))
     | (e', Inr _) \<Rightarrow> (e', Inr []))"

definition FetchAndMoveToInflight :: "'k services \<Rightarrow> time \<Rightarrow> int \<Rightarrow> duration \<Rightarrow> ('k, 'd) env \<Rightarrow>
    ('k, 'd) env \<times> string list result" where
  "FetchAndMoveToInflight x now limit visibilityTimeout e =
     (case rcall (fetchAndMoveToInflightScript (rds x) scheduleKey inflightKey (UnixMilli now)
         limit (Milliseconds visibilityTimeout)) e of
       (e', Inl err) \<Rightarrow> (e', Inl err)
     | (e', Inr (LList rawItems)) \<Rightarrow> (e', Inr (reply_strings rawItems))
     | (e', Inr _) \<Rightarrow> (e', Inr []))"

definition AckJob :: "'k services \<Rightarrow> string \<Rightarrow> ('k, 'd) env \<Rightarrow> ('k, 'd) env \<times> go_error option" where
  "AckJob x monitorID e =
     (case rcall (ZREM (rds x) inflightKey monitorID) e of (e', r) \<Rightarrow> (e', err_of r))"

definition ReclaimMonitors :: "'k services \<Rightarrow> time \<Rightarrow> int \<Rightarrow> ('k, 'd) env \<Rightarrow> ('k, 'd) env \<times> int result" where
  "ReclaimMonitors x now limit e =
     (case rcall (reclaimMonitorsScript (rds x) inflightKey scheduleKey (UnixMilli now) limit) e of
       (e', Inl err) \<Rightarrow> (e', Inl err)
     | (e', Inr (LInt count)) \<Rightarrow> (e', Inr count)
     | (e', Inr _) \<Rightarrow> (e', Inr 0))"

section \<open>The monitor cache (monitor.go)\<close>

definition SetMonitor :: "'k services \<Rightarrow> string \<Rightarrow> string \<Rightarrow> duration \<Rightarrow> ('k, 'd) env \<Rightarrow>
    ('k, 'd) env \<times> go_error option" where
  "SetMonitor x i data ttl e =
     (case rcall (SETEX (rds x) (monitorKey i) data ttl) e of (e', r) \<Rightarrow> (e', err_of r))"

definition GetMonitor_cache :: "'k services \<Rightarrow> string \<Rightarrow> ('k, 'd) env \<Rightarrow> ('k, 'd) env \<times> string result" where
  "GetMonitor_cache x i e = (case rcall (GET (rds x) (monitorKey i)) e of
     (e', Inl err) \<Rightarrow> (e', Inl (if err = RedisNil then AppError NotFound '''' None '''' None else err))
   | (e', Inr res) \<Rightarrow> (e', Inr res))"

definition DelMonitor :: "'k services \<Rightarrow> string \<Rightarrow> ('k, 'd) env \<Rightarrow> ('k, 'd) env \<times> go_error option" where
  "DelMonitor x i e = (case rcall (DEL (rds x) (monitorKey i)) e of (e', r) \<Rightarrow> (e', err_of r))"

section \<open>Incidents (incident.go)\<close>

text \<open>
  The closure of \<^verbatim>\<open>IncrementIncident\<close>: the captured variables are \<^verbatim>\<open>failureCount\<close> and
  \<^verbatim>\<open>firstTime\<close>. The results of its two \<^verbatim>\<open>HSet\<close> calls are discarded.
\<close>

definition incrementIncident_attempt :: "'k services \<Rightarrow> string \<Rightarrow> int \<Rightarrow> int \<times> bool \<Rightarrow> ('k, 'd) env \<Rightarrow>
    ('k, 'd) env \<times> (int \<times> bool) \<times> go_error option" where
  "incrementIncident_attempt x key now v e = (case rcall (HINCRBY (rds x) key ''failure_count'' 1) e of
     (e1, Inl err) \<Rightarrow> (e1, (0, snd v), Some err)
   | (e1, Inr failureCount) \<Rightarrow>
       (if failureCount = 1
        then (fst (rcall (HSET (rds x) key [(''first_failure_at'', decimal now),
                (''last_failure_at'', decimal now)]) e1), (failureCount, True), None)
        else (fst (rcall (HSET (rds x) key [(''last_failure_at'', decimal now)]) e1),
                (failureCount, snd v), None)))"

definition IncrementIncident :: "'k services \<Rightarrow> uuid \<Rightarrow> ('k, 'd) env \<Rightarrow>
    ('k, 'd) env \<times> (int \<times> bool) \<times> go_error option" where
  "IncrementIncident x monitorID e =
     (let key = incidentKey x monitorID; (e0, t) = time_now e; now = Unix t in
      retry 3 (incrementIncident_attempt x key now) (0, False) e0)"

definition ClearIncident :: "'k services \<Rightarrow> uuid \<Rightarrow> ('k, 'd) env \<Rightarrow> ('k, 'd) env \<times> go_error option" where
  "ClearIncident x monitorID e =
     (case retry 2 (once (DEL (rds x) (incidentKey x monitorID))) () e of (e', _, err) \<Rightarrow> (e', err))"

definition MarkIncidentAlerted :: "'k services \<Rightarrow> uuid \<Rightarrow> ('k, 'd) env \<Rightarrow> ('k, 'd) env \<times> go_error option" where
  "MarkIncidentAlerted x monitorID e =
     (case rcall (HSET (rds x) (incidentKey x monitorID)
         [(''alerted'', ''true''), (''db_incident'', ''false'')]) e of (e', r) \<Rightarrow> (e', err_of r))"

definition GetIncidentAlerted :: "'k services \<Rightarrow> uuid \<Rightarrow> ('k, 'd) env \<Rightarrow> ('k, 'd) env \<times> bool result" where
  "GetIncidentAlerted x monitorID e =
     (case rcall (HGET (rds x) (incidentKey x monitorID) ''alerted'') e of
       (e', Inl err) \<Rightarrow> (e', Inl err)
     | (e', Inr resp) \<Rightarrow> (e', Inr (resp = ''true'')))"

text \<open>The map is nil (\<open>None\<close>) only on \<^verbatim>\<open>redis.Nil\<close>.\<close>

definition GetIncident :: "'k services \<Rightarrow> uuid \<Rightarrow> ('k, 'd) env \<Rightarrow>
    ('k, 'd) env \<times> (string \<rightharpoonup> string) option result" where
  "GetIncident x monitorID e = (case rcall (HGETALL (rds x) (incidentKey x monitorID)) e of
     (e', Inl err) \<Rightarrow> (e', if err = RedisNil then Inr None else Inl err)
   | (e', Inr resp) \<Rightarrow> (e', Inr (Some resp)))"

definition ClearIncidentIfExists :: "'k services \<Rightarrow> uuid \<Rightarrow> ('k, 'd) env \<Rightarrow>
    ('k, 'd) env \<times> bool \<times> go_error option" where
  "ClearIncidentIfExists x monitorID e =
     (case retry 2 (\<lambda>n e. case rcall (DEL (rds x) (incidentKey x monitorID)) e of
         (e', Inl err) \<Rightarrow> (e', 0, Some err)
       | (e', Inr n') \<Rightarrow> (e', n', None)) (0 :: int) e of
       (e', n, err) \<Rightarrow> (e', n = 1, err))"

definition MarkDBIncidentCreated :: "'k services \<Rightarrow> uuid \<Rightarrow> ('k, 'd) env \<Rightarrow> ('k, 'd) env \<times> go_error option" where
  "MarkDBIncidentCreated x monitorID e =
     (case rcall (HSET (rds x) (incidentKey x monitorID) [(''db_incident'', ''true'')]) e of
       (e', r) \<Rightarrow> (e', err_of r))"

definition MarkIncidentAlertedIfNotSet :: "'k services \<Rightarrow> uuid \<Rightarrow> ('k, 'd) env \<Rightarrow>
    ('k, 'd) env \<times> bool result" where
  "MarkIncidentAlertedIfNotSet x monitorID e =
     rcall (HSETNX (rds x) (incidentKey x monitorID) ''alerted'' ''true'') e"

section \<open>Retry counters (retry_counter.go)\<close>

definition incrementRetry_attempt :: "'k services \<Rightarrow> string \<Rightarrow> int \<Rightarrow> ('k, 'd) env \<Rightarrow>
    ('k, 'd) env \<times> int \<times> go_error option" where
  "incrementRetry_attempt x key count e = (case rcall (INCR (rds x) key) e of
     (e1, Inl err) \<Rightarrow> (e1, 0, Some err)
   | (e1, Inr count') \<Rightarrow> (case rcall (EXPIRE (rds x) key (5 * Minute)) e1 of
       (e2, r) \<Rightarrow> (e2, count', err_of r)))"

definition IncrementRetry :: "'k services \<Rightarrow> uuid \<Rightarrow> ('k, 'd) env \<Rightarrow>
    ('k, 'd) env \<times> int \<times> go_error option" where
  "IncrementRetry x monitorID e = retry 2 (incrementRetry_attempt x (retryKey x monitorID)) 0 e"

definition ClearRetry :: "'k services \<Rightarrow> uuid \<Rightarrow> ('k, 'd) env \<Rightarrow> ('k, 'd) env \<times> go_error option" where
  "ClearRetry x monitorID e =
     (case retry 2 (once (DEL (rds x) (retryKey x monitorID))) () e of (e', _, err) \<Rightarrow> (e', err))"

section \<open>Status (status.go)\<close>

definition StoreStatus :: "'k services \<Rightarrow> uuid \<Rightarrow> int \<Rightarrow> int \<Rightarrow> time \<Rightarrow> ('k, 'd) env \<Rightarrow>
    ('k, 'd) env \<times> go_error option" where
  "StoreStatus x monitorID statusCode latencyMs checkedAt e =
     (case retry 2 (once (HSET (rds x) (statusKey x monitorID)
         [(''status_code'', decimal statusCode), (''latency_ms'', decimal latencyMs),
          (''checked_at'', decimal (Unix checkedAt))])) () e of (e', _, err) \<Rightarrow> (e', err))"

definition GetStatus :: "'k services \<Rightarrow> uuid \<Rightarrow> ('k, 'd) env \<Rightarrow>
    ('k, 'd) env \<times> (string \<rightharpoonup> string) option result" where
  "GetStatus x monitorID e = (case rcall (HGETALL (rds x) (statusKey x monitorID)) e of
     (e', Inl err) \<Rightarrow> (e', if err = RedisNil then Inr None else Inl err)
   | (e', Inr res) \<Rightarrow> (e', Inr (Some res)))"

definition DelStatus :: "'k services \<Rightarrow> uuid \<Rightarrow> ('k, 'd) env \<Rightarrow> ('k, 'd) env \<times> go_error option" where
  "DelStatus x monitorID e =
     (case rcall (DEL (rds x) (statusKey x monitorID)) e of (e', r) \<Rightarrow> (e', err_of r))"

end
