(* ===== verification/Redis_Laws.thy ===== *)
theory Redis_Laws
  imports Redis_Store
begin

text \<open>
  What the operations of \<^verbatim>\<open>pkg/redisstore\<close> do to the keyspace, for every environment: the
  locale \<open>monit\<close> collects the contracts of the services, and each operation gets one fact
  that names its effect and says when it took place. The facts are used by the scheduler, the
  monitor service, the executor and the result processor.
\<close>

section \<open>The services together\<close>

locale monit =
  fixes x :: "'k services"
  assumes redis: "redis_server (rds x)"
    and uuids: "uuid_codec (uuid_string x) (uuid_parse x)"
    and jsons: "json_codec (json_encode x) (json_decode x)"

sublocale monit \<subseteq> srv: redis_server "rds x"
  by (rule redis)

sublocale monit \<subseteq> uu: uuid_codec "uuid_string x" "uuid_parse x"
  by (rule uuids)

sublocale monit \<subseteq> js: json_codec "json_encode x" "json_decode x"
  by (rule jsons)

text \<open>An instance of all of them, used by the closed examples.\<close>

definition ref_services :: "mem services" where
  "ref_services = \<lparr>rds = mem_redis, uuid_string = canonical_string, uuid_parse = canonical_parse,
     json_encode = print_doc, json_decode = read_doc\<rparr>"

interpretation ref: monit ref_services
proof (rule monit.intro)
  show "redis_server (rds ref_services)"
    by (simp add: ref_services_def mem.redis_server_axioms)
  show "uuid_codec (uuid_string ref_services) (uuid_parse ref_services)"
    by (simp add: ref_services_def canonical.uuid_codec_axioms)
  show "json_codec (json_encode ref_services) (json_decode ref_services)"
    by (simp add: ref_services_def compact.json_codec_axioms)
qed

section \<open>Key names\<close>

lemmas key_defs = scheduleKey_def inflightKey_def monitorKey_def incidentKey_def retryKey_def statusKey_def

context monit
begin

lemma key_lengths:
  "length scheduleKey = 16" "length inflightKey = 16"
  "length (monitorKey (uuid_string x u)) = 44" "length (incidentKey x u) = 53"
  "length (retryKey x u) = 50" "length (statusKey x u) = 51"
  by (simp_all add: key_defs uu.length_string)

lemma keys_differ [simp]:
  "scheduleKey \<noteq> inflightKey" "inflightKey \<noteq> scheduleKey"
  "scheduleKey \<noteq> monitorKey (uuid_string x u)" "monitorKey (uuid_string x u) \<noteq> scheduleKey"
  "scheduleKey \<noteq> incidentKey x u" "incidentKey x u \<noteq> scheduleKey"
  "scheduleKey \<noteq> retryKey x u" "retryKey x u \<noteq> scheduleKey"
  "scheduleKey \<noteq> statusKey x u" "statusKey x u \<noteq> scheduleKey"
  "inflightKey \<noteq> monitorKey (uuid_string x u)" "monitorKey (uuid_string x u) \<noteq> inflightKey"
  "inflightKey \<noteq> incidentKey x u" "incidentKey x u \<noteq> inflightKey"
  "inflightKey \<noteq> retryKey x u" "retryKey x u \<noteq> inflightKey"
  "inflightKey \<noteq> statusKey x u" "statusKey x u \<noteq> inflightKey"
  "monitorKey (uuid_string x u) \<noteq> incidentKey x v" "incidentKey x v \<noteq> monitorKey (uuid_string x u)"
  "monitorKey (uuid_string x u) \<noteq> retryKey x v" "retryKey x v \<noteq> monitorKey (uuid_string x u)"
  "monitorKey (uuid_string x u) \<noteq> statusKey x v" "statusKey x v \<noteq> monitorKey (uuid_string x u)"
  "incidentKey x u \<noteq> retryKey x v" "retryKey x v \<noteq> incidentKey x u"
  "incidentKey x u \<noteq> statusKey x v" "statusKey x v \<noteq> incidentKey x u"
  "retryKey x u \<noteq> statusKey x v" "statusKey x v \<noteq> retryKey x u"
proof -
  show "scheduleKey \<noteq> inflightKey" "inflightKey \<noteq> scheduleKey"
    by (simp_all add: scheduleKey_def inflightKey_def)
qed (auto dest!: arg_cong [where f = length] simp: key_lengths)

lemma keys_inj [simp]:
  "monitorKey (uuid_string x u) = monitorKey (uuid_string x v) \<longleftrightarrow> u = v"
  "incidentKey x u = incidentKey x v \<longleftrightarrow> u = v"
  "retryKey x u = retryKey x v \<longleftrightarrow> u = v"
  "statusKey x u = statusKey x v \<longleftrightarrow> u = v"
  by (simp_all add: key_defs uu.string_inj)

end

section \<open>Typed keyspaces\<close>

text \<open>
  Every key of the program holds a value of the type its operations expect, or nothing, and the
  two sorted sets do not expire.
\<close>

definition typed :: "'k services \<Rightarrow> keyspace \<Rightarrow> bool" where
  "typed x ks \<longleftrightarrow> is_zset ks scheduleKey \<and> is_zset ks inflightKey \<and>
     ttls ks scheduleKey = None \<and> ttls ks inflightKey = None \<and>
     (\<forall>u. is_hash ks (incidentKey x u) \<and> is_hash ks (statusKey x u) \<and>
          is_str ks (retryKey x u) \<and> is_str ks (monitorKey (uuid_string x u)))"

lemma typedD:
  assumes "typed x ks"
  shows "is_zset ks scheduleKey" "is_zset ks inflightKey" "is_hash ks (incidentKey x u)"
    "is_hash ks (statusKey x u)" "is_str ks (retryKey x u)"
    "is_str ks (monitorKey (uuid_string x u))" "ttls ks scheduleKey = None" "ttls ks inflightKey = None"
  using assms by (auto simp: typed_def)

section \<open>Effects of single commands\<close>

text \<open>
  \<open>applied x f e p\<close>: the run \<open>p\<close> of an operation from \<open>e\<close> changed the keyspace by \<open>f\<close> if
  it reported no error, and by \<open>f\<close> or not at all if it did; it touched nothing else, and it
  reports no error when every call is delivered and the keys are typed.
\<close>

definition applied :: "'k services \<Rightarrow> (keyspace \<Rightarrow> keyspace) \<Rightarrow> ('k, 'd) env \<Rightarrow>
    ('k, 'd) env \<times> go_error option \<Rightarrow> bool" where
  "applied x f e p \<longleftrightarrow>
     (snd p = None \<longrightarrow> vw x (fst p) = f (vw x e)) \<and>
     (snd p \<noteq> None \<longrightarrow> vw x (fst p) = vw x e \<or> vw x (fst p) = f (vw x e)) \<and>
     later e (fst p) \<and> db (fst p) = db e \<and>
     (reliable e \<longrightarrow> typed x (vw x e) \<longrightarrow> snd p = None)"

lemma appliedD:
  assumes "applied x f e p"
  shows "snd p = None \<Longrightarrow> vw x (fst p) = f (vw x e)"
    and "vw x (fst p) = vw x e \<or> vw x (fst p) = f (vw x e)"
    and "later e (fst p)" and "db (fst p) = db e"
    and "reliable e \<Longrightarrow> typed x (vw x e) \<Longrightarrow> snd p = None"
    and "reliable e \<Longrightarrow> typed x (vw x e) \<Longrightarrow> vw x (fst p) = f (vw x e)"
  using assms by (auto simp: applied_def)

lemma applied_rcall:
  assumes m: "meets (view (rds x)) cmd pre (\<lambda>ks r ks'. ks' = f ks)"
    and t: "\<And>ks. typed x ks \<Longrightarrow> pre ks"
  shows "applied x f e (case rcall cmd e of (e', r) \<Rightarrow> (e', err_of r))"
proof -
  obtain e' r where c: "rcall cmd e = (e', r)" by (cases "rcall cmd e")
  have "later e e'" "db e' = db e"
    using later_ops(2) [of e cmd] db_ops(2) [of cmd e] c by simp_all
  moreover have "err_of r = None" if rel: "reliable e" and ty: "typed x (vw x e)"
  proof -
    obtain a where "snd (rcall cmd e) = Inr a"
      using rcall_meets_reliable [OF m rel t [OF ty]] by blast
    with c show ?thesis by simp
  qed
  ultimately show ?thesis
    using rcall_meets [OF m c] c by (cases r) (auto simp: applied_def)
qed

lemma applied_retry:
  assumes m: "meets (view (rds x)) cmd pre (\<lambda>ks r ks'. ks' = f ks)"
    and idem: "\<And>ks. pre ks \<Longrightarrow> pre (f ks) \<and> f (f ks) = f ks"
    and t: "\<And>ks. typed x ks \<Longrightarrow> pre ks" and n: "0 < n"
  shows "applied x f e (case retry n (once cmd) () e of (e', _, err) \<Rightarrow> (e', err))"
proof -
  obtain e' u' r where c: "retry n (once cmd) () e = (e', u', r)"
    by (cases "retry n (once cmd) () e")
  have "later e e'" "db e' = db e"
    using later_retry_once [of e n cmd "()"] db_retry_once [OF n, of cmd "()" e] c by simp_all
  moreover have "r = None" if "reliable e" "typed x (vw x e)"
    using retry_once_reliable [OF m that(1) t [OF that(2)] n, of "()"] c by simp
  ultimately show ?thesis
    using retry_once_effect [OF m idem n c] c by (auto simp: applied_def)
qed

text \<open>The effects, by name.\<close>

definition sched_at :: "string \<Rightarrow> int \<Rightarrow> keyspace \<Rightarrow> keyspace" where
  "sched_at m sc ks = put_zset scheduleKey ((zset ks scheduleKey)(m \<mapsto> sc)) ks"

definition unsched :: "string \<Rightarrow> keyspace \<Rightarrow> keyspace" where
  "unsched m ks = put_zset scheduleKey ((zset ks scheduleKey)(m := None)) ks"

definition acked :: "string \<Rightarrow> keyspace \<Rightarrow> keyspace" where
  "acked m ks = put_zset inflightKey ((zset ks inflightKey)(m := None)) ks"

definition hash_set :: "string \<Rightarrow> (string \<times> string) list \<Rightarrow> keyspace \<Rightarrow> keyspace" where
  "hash_set k fvs ks = put_hash k (hsets fvs (hash ks k)) ks"

lemma put_zset_idem: "put_zset k z (put_zset k z ks) = put_zset k z ks"
  by (simp add: put_zset_def drop_key_def)

lemma drop_key_idem: "drop_key k (drop_key k ks) = drop_key k ks"
  by (simp add: drop_key_def)

lemma hsets_conv: "hsets fvs h = h ++ map_of (rev fvs)"
  by (induction fvs arbitrary: h) (auto simp: map_add_assoc [symmetric])

lemma hash_set_idem: "hash_set k fvs (hash_set k fvs ks) = hash_set k fvs ks"
proof -
  have "hsets fvs (hsets fvs h) = hsets fvs h" for h
    by (simp add: hsets_conv map_add_assoc [symmetric] map_add_subsumed1)
  then show ?thesis by (simp add: hash_set_def) (simp add: put_hash_def)
qed

context monit
begin

lemma Schedule_applied: "applied x (sched_at m (UnixMilli t)) e (Schedule x m t e)"
  unfolding Schedule_def
  using srv.ZADD_meets [of scheduleKey "[(UnixMilli t, m)]"]
  by (intro applied_retry [where pre = "\<lambda>ks. is_zset ks scheduleKey"])
    (auto simp: sched_at_def [abs_def] put_zset_idem typedD)

lemma DelSchedule_applied: "applied x (unsched m) e (DelSchedule x m e)"
  unfolding DelSchedule_def
  using srv.ZREM_meets [of scheduleKey m]
  by (intro applied_rcall [where pre = "\<lambda>ks. is_zset ks scheduleKey"])
    (auto simp: unsched_def [abs_def] typedD)

lemma AckJob_applied: "applied x (acked m) e (AckJob x m e)"
  unfolding AckJob_def
  using srv.ZREM_meets [of inflightKey m]
  by (intro applied_rcall [where pre = "\<lambda>ks. is_zset ks inflightKey"])
    (auto simp: acked_def [abs_def] typedD)

lemma SetMonitor_applied:
  "applied x (\<lambda>ks. put_ttl (monitorKey i) ttl (put_str (monitorKey i) data ks)) e (SetMonitor x i data ttl e)"
  unfolding SetMonitor_def
  by (rule applied_rcall [OF srv.SETEX_meets]) simp

lemma del_meets: "meets (view (rds x)) (DEL (rds x) k) (\<lambda>ks. True) (\<lambda>ks r ks'. ks' = drop_key k ks)"
  by (rule meets_weaken [OF srv.DEL_meets]) simp

lemma DelMonitor_applied: "applied x (drop_key (monitorKey i)) e (DelMonitor x i e)"
  unfolding DelMonitor_def by (rule applied_rcall [OF del_meets]) simp

lemma DelStatus_applied: "applied x (drop_key (statusKey x u)) e (DelStatus x u e)"
  unfolding DelStatus_def by (rule applied_rcall [OF del_meets]) simp

lemma ClearIncident_applied: "applied x (drop_key (incidentKey x u)) e (ClearIncident x u e)"
  unfolding ClearIncident_def by (rule applied_retry [OF del_meets]) (simp_all add: drop_key_idem)

lemma ClearRetry_applied: "applied x (drop_key (retryKey x u)) e (ClearRetry x u e)"
  unfolding ClearRetry_def by (rule applied_retry [OF del_meets]) (simp_all add: drop_key_idem)

lemma hset_meets:
  "meets (view (rds x)) (HSET (rds x) k fvs) (\<lambda>ks. is_hash ks k) (\<lambda>ks n ks'. ks' = hash_set k fvs ks)"
  using srv.HSET_meets [of k fvs] by (simp add: hash_set_def)

lemma MarkDBIncidentCreated_applied:
  "applied x (hash_set (incidentKey x u) [(''db_incident'', ''true'')]) e (MarkDBIncidentCreated x u e)"
  unfolding MarkDBIncidentCreated_def by (rule applied_rcall [OF hset_meets]) (rule typedD)

lemma MarkIncidentAlerted_applied:
  "applied x (hash_set (incidentKey x u) [(''alerted'', ''true''), (''db_incident'', ''false'')]) e
     (MarkIncidentAlerted x u e)"
  unfolding MarkIncidentAlerted_def by (rule applied_rcall [OF hset_meets]) (rule typedD)

lemma StoreStatus_applied:
  "applied x (hash_set (statusKey x u) [(''status_code'', decimal c), (''latency_ms'', decimal l),
       (''checked_at'', decimal (Unix t))]) e (StoreStatus x u c l t e)"
  unfolding StoreStatus_def
  by (rule applied_retry [OF hset_meets])
    (simp_all add: hash_set_idem typedD del: hsets_simps, simp add: hash_set_def)

end

section \<open>Effects of the scripts\<close>

definition moved :: "string \<Rightarrow> string \<Rightarrow> int \<Rightarrow> string list \<Rightarrow> keyspace \<Rightarrow> keyspace" where
  "moved from to sc items ks = fold (\<lambda>m ks. let ks1 = put_zset from ((zset ks from)(m := None)) ks
     in put_zset to ((zset ks1 to)(m \<mapsto> sc)) ks1) items ks"

definition removed :: "string \<Rightarrow> string list \<Rightarrow> keyspace \<Rightarrow> keyspace" where
  "removed key items ks = fold (\<lambda>m ks. put_zset key ((zset ks key)(m := None)) ks) items ks"

lemma moved_simps [simp]:
  "moved from to sc [] ks = ks"
  "moved from to sc (m # items) ks = moved from to sc items
     (let ks1 = put_zset from ((zset ks from)(m := None)) ks in put_zset to ((zset ks1 to)(m \<mapsto> sc)) ks1)"
  by (simp_all add: moved_def)

lemma removed_simps [simp]:
  "removed key [] ks = ks"
  "removed key (m # items) ks = removed key items (put_zset key ((zset ks key)(m := None)) ks)"
  by (simp_all add: removed_def)

lemma zset_moved:
  assumes "from \<noteq> to"
  shows "zset (moved from to sc items ks) k = (if k = from then zset ks from |` (- set items)
    else if k = to then (\<lambda>m. if m \<in> set items then Some sc else zset ks to m) else zset ks k)"
  using assms by (induction items arbitrary: ks) (auto simp: Let_def restrict_map_def fun_eq_iff)

lemma vals_moved: "k \<noteq> from \<Longrightarrow> k \<noteq> to \<Longrightarrow> vals (moved from to sc items ks) k = vals ks k"
  by (induction items arbitrary: ks) (simp_all add: Let_def)

lemma ttls_moved: "ttls ks k = None \<Longrightarrow> ttls (moved from to sc items ks) k = None"
  by (induction items arbitrary: ks) (simp_all add: Let_def)

lemma is_zset_moved: "is_zset ks k \<Longrightarrow> is_zset (moved from to sc items ks) k"
  by (induction items arbitrary: ks) (simp_all add: Let_def)

lemma zset_removed: "zset (removed key items ks) k =
    (if k = key then zset ks key |` (- set items) else zset ks k)"
  by (induction items arbitrary: ks) (auto simp: restrict_map_def fun_eq_iff)

lemma vals_removed: "k \<noteq> key \<Longrightarrow> vals (removed key items ks) k = vals ks k"
  by (induction items arbitrary: ks) simp_all

lemma is_zset_removed: "is_zset ks k \<Longrightarrow> is_zset (removed key items ks) k"
  by (induction items arbitrary: ks) simp_all

context redis_server
begin

lemma move_each_moved:
  assumes "is_zset (view rd s) from" and "is_zset (view rd s) to"
  shows "\<exists>s'. move_each rd from to sc items s = (s', Inr ()) \<and>
    view rd s' = moved from to sc items (view rd s)"
  using assms
proof (induction items arbitrary: s)
  case Nil
  then show ?case by simp
next
  case (Cons m items)
  obtain s1 n where s1: "ZREM rd from m s = (s1, Inr n)"
    and v1: "view rd s1 = put_zset from ((zset (view rd s) from)(m := None)) (view rd s)"
    using meets_up [OF ZREM_meets [of "from" m], of s] Cons.prems(1) by blast
  have "is_zset (view rd s1) to" using Cons.prems(2) by (simp add: v1)
  then obtain s2 n' where s2: "ZADD rd to [(sc, m)] s1 = (s2, Inr n')"
    and v2: "view rd s2 = put_zset to ((zset (view rd s1) to)(m \<mapsto> sc)) (view rd s1)"
    using meets_up [OF ZADD_meets [of to "[(sc, m)]"], of s1] by auto
  have "is_zset (view rd s2) from" "is_zset (view rd s2) to"
    using Cons.prems by (simp_all add: v1 v2)
  from Cons.IH [OF this] show ?case by (simp add: s1 s2 v1 v2 Let_def)
qed

lemma remove_each_removed:
  assumes "is_zset (view rd s) key"
  shows "\<exists>s'. remove_each rd key items s = (s', Inr ()) \<and>
    view rd s' = removed key items (view rd s)"
  using assms
proof (induction items arbitrary: s)
  case Nil
  then show ?case by simp
next
  case (Cons m items)
  obtain s1 n where s1: "ZREM rd key m s = (s1, Inr n)"
    and v1: "view rd s1 = put_zset key ((zset (view rd s) key)(m := None)) (view rd s)"
    using meets_up [OF ZREM_meets [of key m], of s] Cons.prems by blast
  have "is_zset (view rd s1) key" by (simp add: v1)
  from Cons.IH [OF this] show ?case by (simp add: s1 v1)
qed

lemma zrange_typed:
  assumes "is_zset (view rd s) key"
  obtains s' items where "ZRANGEBYSCORE rd key now limit s = (s', Inr items)"
    and "view rd s' = view rd s" and "zrange_ok (zset (view rd s) key) now limit items"
  using meets_up [OF ZRANGEBYSCORE_meets [of key now limit], of s] assms by blast

lemma fetchAndMove_script:
  assumes "is_zset (view rd s) sk" and "is_zset (view rd s) ik"
  shows "\<exists>s' items. fetchAndMoveToInflightScript rd sk ik now limit vt s = (s', Inr (LList (map LStr items))) \<and>
    zrange_ok (zset (view rd s) sk) now limit items \<and>
    view rd s' = moved sk ik (now + vt) items (view rd s)"
proof -
  obtain s1 items where z: "ZRANGEBYSCORE rd sk now limit s = (s1, Inr items)"
    and v: "view rd s1 = view rd s" and ok: "zrange_ok (zset (view rd s) sk) now limit items"
    using zrange_typed [OF assms(1)] .
  obtain s2 where "move_each rd sk ik (now + vt) items s1 = (s2, Inr ())"
    and "view rd s2 = moved sk ik (now + vt) items (view rd s)"
    using move_each_moved [of s1 sk ik] assms v by auto
  with z ok show ?thesis by (simp add: fetchAndMoveToInflightScript_def) blast
qed

lemma fetchDue_script:
  assumes "is_zset (view rd s) sk"
  shows "\<exists>s' items. fetchDueMonitorsScript rd sk now limit s = (s', Inr (LList (map LStr items))) \<and>
    zrange_ok (zset (view rd s) sk) now limit items \<and> view rd s' = removed sk items (view rd s)"
proof -
  obtain s1 items where z: "ZRANGEBYSCORE rd sk now limit s = (s1, Inr items)"
    and v: "view rd s1 = view rd s" and ok: "zrange_ok (zset (view rd s) sk) now limit items"
    using zrange_typed [OF assms] .
  obtain s2 where "remove_each rd sk items s1 = (s2, Inr ())"
    and "view rd s2 = removed sk items (view rd s)"
    using remove_each_removed [of s1 sk] assms v by auto
  with z ok show ?thesis by (simp add: fetchDueMonitorsScript_def) blast
qed

lemma reclaim_script:
  assumes "is_zset (view rd s) ik" and "is_zset (view rd s) sk"
  shows "\<exists>s' items. reclaimMonitorsScript rd ik sk now limit s = (s', Inr (LInt (int (length items)))) \<and>
    zrange_ok (zset (view rd s) ik) now limit items \<and>
    view rd s' = moved ik sk now items (view rd s)"
proof -
  obtain s1 items where z: "ZRANGEBYSCORE rd ik now limit s = (s1, Inr items)"
    and v: "view rd s1 = view rd s" and ok: "zrange_ok (zset (view rd s) ik) now limit items"
    using zrange_typed [OF assms(1)] .
  obtain s2 where "move_each rd ik sk now items s1 = (s2, Inr ())"
    and "view rd s2 = moved ik sk now items (view rd s)"
    using move_each_moved [of s1 ik sk] assms v by auto
  with z ok show ?thesis by (simp add: reclaimMonitorsScript_def) blast
qed

end

lemma reply_strings_LStr [simp]: "reply_strings (map LStr items) = items"
  by (induction items) (simp_all add: reply_strings_def List.map_filter_simps)

lemma zrange_okD:
  assumes "zrange_ok z mx lim items"
  shows "distinct items" and "set items \<subseteq> due z mx" and "sorted (map (\<lambda>m. the (z m)) items)"
    and "0 \<le> lim \<Longrightarrow> length items \<le> nat lim"
proof -
  obtain ms where ms: "by_score z ms" "set ms = due z mx" "items = take_limit lim ms"
    using assms by (auto simp: zrange_ok_def)
  then show "distinct items" "set items \<subseteq> due z mx"
    using set_take_limit [of lim ms] by (auto simp: by_score_def distinct_take_limit)
  show "sorted (map (\<lambda>m. the (z m)) items)"
    using ms by (auto simp: by_score_def take_limit_def sorted_wrt_take simp flip: take_map)
  show "0 \<le> lim \<Longrightarrow> length items \<le> nat lim" using ms(3) by (simp add: length_take_limit)
qed

lemma zrange_ok_complete:
  assumes "zrange_ok z mx lim items" and "0 \<le> lim" and "length items < nat lim"
  shows "set items = due z mx"
proof -
  obtain ms where ms: "set ms = due z mx" "items = take_limit lim ms"
    using assms(1) by (auto simp: zrange_ok_def)
  with assms(2,3) have "items = ms" by (simp add: take_limit_def)
  with ms(1) show ?thesis by simp
qed

section \<open>Frames\<close>

text \<open>\<open>touches K ks ks'\<close>: only keys of \<open>K\<close> may have changed.\<close>

definition touches :: "string set \<Rightarrow> keyspace \<Rightarrow> keyspace \<Rightarrow> bool" where
  "touches K ks ks' \<longleftrightarrow> (\<forall>k. k \<notin> K \<longrightarrow> vals ks' k = vals ks k)"

lemma touches_refl [simp]: "touches K ks ks"
  by (simp add: touches_def)

lemma touches_trans: "touches K ks ks' \<Longrightarrow> touches K ks' ks'' \<Longrightarrow> touches K ks ks''"
  by (simp add: touches_def)

lemma touches_mono: "touches K ks ks' \<Longrightarrow> K \<subseteq> K' \<Longrightarrow> touches K' ks ks'"
  by (auto simp: touches_def)

lemma touches_upd [simp]:
  "touches K ks (drop_key k ks') \<longleftrightarrow> touches K ks ks'" if "k \<in> K"
  using that by (auto simp: touches_def)

lemma touches_put_ttl [simp]: "touches K ks (put_ttl k d ks') \<longleftrightarrow> touches K ks ks'"
  by (simp add: touches_def)

lemma touches_puts [intro]:
  "k \<in> K \<Longrightarrow> touches K ks (put_zset k z ks)"
  "k \<in> K \<Longrightarrow> touches K ks (put_hash k h ks)"
  "k \<in> K \<Longrightarrow> touches K ks (put_str k v ks)"
  "k \<in> K \<Longrightarrow> touches K ks (drop_key k ks)"
  by (auto simp: touches_def keyspace_upds)

lemma touches_effects:
  "touches {scheduleKey} ks (sched_at m sc ks)"
  "touches {scheduleKey} ks (unsched m ks)"
  "touches {inflightKey} ks (acked m ks)"
  "touches {k} ks (hash_set k fvs ks)"
  by (auto simp: sched_at_def unsched_def acked_def hash_set_def)

lemma touches_moved: "touches {from, to} ks (moved from to sc items ks)"
  by (auto simp: touches_def vals_moved)

lemma touches_views:
  assumes "touches K ks ks'" and "k \<notin> K"
  shows "vals ks' k = vals ks k" "zset ks' k = zset ks k" "hash ks' k = hash ks k" "str ks' k = str ks k"
    "is_zset ks' k = is_zset ks k" "is_hash ks' k = is_hash ks k" "is_str ks' k = is_str ks k"
  using assms
  by (simp_all add: touches_def zset_def hash_def str_def is_zset_def is_hash_def is_str_def)

lemma applied_touches:
  "applied x f e p \<Longrightarrow> (\<And>ks. touches K ks (f ks)) \<Longrightarrow> touches K (vw x e) (vw x (fst p))"
proof -
  assume "applied x f e p" and f: "\<And>ks. touches K ks (f ks)"
  then have "vw x (fst p) = vw x e \<or> vw x (fst p) = f (vw x e)" by (simp add: appliedD)
  then show ?thesis using f [of "vw x e"] by auto
qed

context monit
begin

lemma typed_effects [simp]:
  assumes "typed x ks"
  shows "typed x (sched_at m sc ks)" "typed x (unsched m ks)" "typed x (acked m ks)"
    "typed x (hash_set (incidentKey x u) fvs ks)" "typed x (hash_set (statusKey x u) fvs ks)"
    "typed x (drop_key k ks)" "typed x (put_ttl (incidentKey x u) d ks)" "typed x (put_ttl (retryKey x u) d ks)"
    "typed x (put_ttl (monitorKey (uuid_string x u)) d ks)"
    "typed x (put_str (retryKey x u) v ks)" "typed x (put_str (monitorKey (uuid_string x u)) v ks)"
    "typed x (put_hash (incidentKey x u) h ks)" "typed x (put_hash (statusKey x u) h ks)"
  using assms
  by (auto simp: typed_def sched_at_def unsched_def acked_def hash_set_def)

lemma typed_moved:
  assumes "typed x ks" and "{from, to} \<subseteq> {scheduleKey, inflightKey}"
  shows "typed x (moved from to sc items ks)"
proof -
  have "is_zset (moved from to sc items ks) scheduleKey" "is_zset (moved from to sc items ks) inflightKey"
    using assms(1) by (simp_all add: is_zset_moved typedD)
  moreover have "touches {scheduleKey, inflightKey} ks (moved from to sc items ks)"
    using touches_moved assms(2) by (rule touches_mono)
  moreover have "ttls (moved from to sc items ks) k = None" if "ttls ks k = None" for k
    using that by (rule ttls_moved)
  ultimately show ?thesis
    using assms(1) touches_views [of "{scheduleKey, inflightKey}" ks "moved from to sc items ks"]
    by (simp add: typed_def)
qed

lemma applied_typed:
  "applied x f e p \<Longrightarrow> typed x (vw x e) \<Longrightarrow> (\<And>ks. typed x ks \<Longrightarrow> typed x (f ks)) \<Longrightarrow>
    typed x (vw x (fst p))"
  by (metis appliedD(2))

lemma rcall_script:
  assumes "\<exists>s' a. cmd (kv e) = (s', Inr a) \<and> P a (view (rds x) s')" and "rcall cmd e = (e', r)"
  shows "\<And>a. r = Inr a \<Longrightarrow> P a (vw x e')"
    and "\<And>er. r = Inl er \<Longrightarrow> vw x e' = vw x e \<or> (\<exists>a. P a (vw x e'))"
    and "reliable e \<Longrightarrow> \<exists>a. r = Inr a"
    and "later e e'" and "db e' = db e"
proof -
  have "later e (fst (rcall cmd e))" "db (fst (rcall cmd e)) = db e" by simp_all
  with assms(2) show "later e e'" "db e' = db e" by simp_all
  show "\<And>a. r = Inr a \<Longrightarrow> P a (vw x e')"
    "\<And>er. r = Inl er \<Longrightarrow> vw x e' = vw x e \<or> (\<exists>a. P a (vw x e'))"
    "reliable e \<Longrightarrow> \<exists>a. r = Inr a"
    using assms by (auto simp: rcall_def vw_def reliable_def split: outcome.splits)
qed

end

section \<open>Fetching and reclaiming\<close>

definition fetched :: "time \<Rightarrow> int \<Rightarrow> duration \<Rightarrow> string list \<Rightarrow> keyspace \<Rightarrow> keyspace \<Rightarrow> bool" where
  "fetched now lim vt items ks ks' \<longleftrightarrow> zrange_ok (zset ks scheduleKey) (UnixMilli now) lim items \<and>
     ks' = moved scheduleKey inflightKey (UnixMilli now + Milliseconds vt) items ks"

definition reclaimed :: "time \<Rightarrow> int \<Rightarrow> string list \<Rightarrow> keyspace \<Rightarrow> keyspace \<Rightarrow> bool" where
  "reclaimed now lim items ks ks' \<longleftrightarrow> zrange_ok (zset ks inflightKey) (UnixMilli now) lim items \<and>
     ks' = moved inflightKey scheduleKey (UnixMilli now) items ks"

context monit
begin

lemma FetchAndMoveToInflight_result:
  assumes t: "typed x (vw x e)" and run: "FetchAndMoveToInflight x now lim vt e = (e', r)"
  shows "\<And>items. r = Inr items \<Longrightarrow> fetched now lim vt items (vw x e) (vw x e')"
    and "\<And>er. r = Inl er \<Longrightarrow> vw x e' = vw x e \<or> (\<exists>items. fetched now lim vt items (vw x e) (vw x e'))"
    and "reliable e \<Longrightarrow> \<exists>items. r = Inr items"
    and "later e e'" and "db e' = db e"
proof -
  let ?cmd = "fetchAndMoveToInflightScript (rds x) scheduleKey inflightKey (UnixMilli now) lim (Milliseconds vt)"
  let ?P = "\<lambda>a ks'. \<exists>items. a = LList (map LStr items) \<and> fetched now lim vt items (vw x e) ks'"
  obtain r0 where c: "rcall ?cmd e = (e', r0)"
    and r: "r = (case r0 of Inl er \<Rightarrow> Inl er | Inr (LList raw) \<Rightarrow> Inr (reply_strings raw) | Inr _ \<Rightarrow> Inr [])"
    using run by (auto simp: FetchAndMoveToInflight_def split: prod.splits sum.splits lua_val.splits)
  have "\<exists>s' a. ?cmd (kv e) = (s', Inr a) \<and> ?P a (view (rds x) s')"
    using srv.fetchAndMove_script [of "kv e" scheduleKey inflightKey] t
    by (simp add: typedD vw_def fetched_def) blast
  note res = rcall_script [where P = ?P, OF this c]
  show "later e e'" "db e' = db e" using res(4,5) by simp_all
  show "\<And>items. r = Inr items \<Longrightarrow> fetched now lim vt items (vw x e) (vw x e')"
    using res(1) r by (cases r0) auto
  show "\<And>er. r = Inl er \<Longrightarrow> vw x e' = vw x e \<or> (\<exists>items. fetched now lim vt items (vw x e) (vw x e'))"
    using res(1,2) r by (cases r0) auto
  show "reliable e \<Longrightarrow> \<exists>items. r = Inr items" using res(1,3) r by auto
qed

lemma ReclaimMonitors_result:
  assumes t: "typed x (vw x e)" and run: "ReclaimMonitors x now lim e = (e', r)"
  shows "\<And>n. r = Inr n \<Longrightarrow> \<exists>items. n = int (length items) \<and> reclaimed now lim items (vw x e) (vw x e')"
    and "\<And>er. r = Inl er \<Longrightarrow> vw x e' = vw x e \<or> (\<exists>items. reclaimed now lim items (vw x e) (vw x e'))"
    and "reliable e \<Longrightarrow> \<exists>n. r = Inr n"
    and "later e e'" and "db e' = db e"
proof -
  let ?cmd = "reclaimMonitorsScript (rds x) inflightKey scheduleKey (UnixMilli now) lim"
  let ?P = "\<lambda>a ks'. \<exists>items. a = LInt (int (length items)) \<and> reclaimed now lim items (vw x e) ks'"
  obtain r0 where c: "rcall ?cmd e = (e', r0)"
    and r: "r = (case r0 of Inl er \<Rightarrow> Inl er | Inr (LInt n) \<Rightarrow> Inr n | Inr _ \<Rightarrow> Inr 0)"
    using run by (auto simp: ReclaimMonitors_def split: prod.splits sum.splits lua_val.splits)
  have "\<exists>s' a. ?cmd (kv e) = (s', Inr a) \<and> ?P a (view (rds x) s')"
    using srv.reclaim_script [of "kv e" inflightKey scheduleKey] t
    by (simp add: typedD vw_def reclaimed_def) blast
  note res = rcall_script [where P = ?P, OF this c]
  show "later e e'" "db e' = db e" using res(4,5) by simp_all
  show "\<And>n. r = Inr n \<Longrightarrow> \<exists>items. n = int (length items) \<and> reclaimed now lim items (vw x e) (vw x e')"
    using res(1) r by (cases r0) auto
  show "\<And>er. r = Inl er \<Longrightarrow> vw x e' = vw x e \<or> (\<exists>items. reclaimed now lim items (vw x e) (vw x e'))"
    using res(1,2) r by (cases r0) auto
  show "reliable e \<Longrightarrow> \<exists>n. r = Inr n" using res(1,3) r by auto
qed

end

section \<open>Sequences of best-effort calls\<close>

text \<open>
  Most callers log a failed Redis call and go on. \<open>best_effort x K f e e'\<close>: from \<open>e\<close> to \<open>e'\<close>
  only keys of \<open>K\<close> have changed and the keyspace is still typed, whatever the network did; and
  if every call is delivered, the keyspace has changed by \<open>f\<close>.
\<close>

definition best_effort :: "'k services \<Rightarrow> string set \<Rightarrow> (keyspace \<Rightarrow> keyspace) \<Rightarrow> ('k, 'd) env \<Rightarrow>
    ('k, 'd) env \<Rightarrow> bool" where
  "best_effort x K f e e' \<longleftrightarrow> touches K (vw x e) (vw x e') \<and> (typed x (vw x e) \<longrightarrow> typed x (vw x e')) \<and>
     later e e' \<and> db e' = db e \<and> (reliable e \<longrightarrow> typed x (vw x e) \<longrightarrow> vw x e' = f (vw x e))"

lemma best_effortD:
  assumes "best_effort x K f e e'"
  shows "touches K (vw x e) (vw x e')" and "typed x (vw x e) \<Longrightarrow> typed x (vw x e')"
    and "later e e'" and "db e' = db e" and "reliable e \<Longrightarrow> reliable e'"
    and "reliable e \<Longrightarrow> typed x (vw x e) \<Longrightarrow> vw x e' = f (vw x e)"
  using assms by (auto simp: best_effort_def intro: reliable_later)

lemma best_effort_refl [simp]: "best_effort x K id e e"
  by (simp add: best_effort_def)

lemma best_effort_trans:
  assumes "best_effort x K f e e'" and "best_effort x K' g e' e''"
  shows "best_effort x (K \<union> K') (g \<circ> f) e e''"
proof -
  have "touches (K \<union> K') (vw x e) (vw x e')" "touches (K \<union> K') (vw x e') (vw x e'')"
    using assms by (auto simp: best_effort_def intro: touches_mono)
  then show ?thesis
    using assms reliable_later [of e e'] later_trans [of e e' e'']
    by (auto simp: best_effort_def intro: touches_trans)
qed

lemma best_effort_mono: "best_effort x K f e e' \<Longrightarrow> K \<subseteq> K' \<Longrightarrow> best_effort x K' f e e'"
  by (auto simp: best_effort_def intro: touches_mono)

lemma best_effort_idle:
  "vw x e' = vw x e \<Longrightarrow> later e e' \<Longrightarrow> db e' = db e \<Longrightarrow> best_effort x K id e e'"
  by (simp add: best_effort_def)

lemma best_effort_time_now: "best_effort x K id e (fst (time_now e))"
  by (simp add: best_effort_idle)

lemma best_effort_applied:
  assumes "applied x f e p" and "\<And>ks. touches K ks (f ks)" and "\<And>ks. typed x ks \<Longrightarrow> typed x (f ks)"
  shows "best_effort x K f e (fst p)"
proof -
  have "typed x (vw x e) \<Longrightarrow> typed x (vw x (fst p))"
    using appliedD(2) [OF assms(1)] assms(3) by metis
  then show ?thesis
    using applied_touches [OF assms(1,2)] by (simp add: best_effort_def appliedD [OF assms(1)])
qed

context monit
begin

lemma Schedule_best_effort:
  "best_effort x {scheduleKey} (sched_at m (UnixMilli t)) e (fst (Schedule x m t e))"
  by (rule best_effort_applied [OF Schedule_applied]) (simp_all add: touches_effects)

lemma DelSchedule_best_effort: "best_effort x {scheduleKey} (unsched m) e (fst (DelSchedule x m e))"
  by (rule best_effort_applied [OF DelSchedule_applied]) (simp_all add: touches_effects)

lemma AckJob_best_effort: "best_effort x {inflightKey} (acked m) e (fst (AckJob x m e))"
  by (rule best_effort_applied [OF AckJob_applied]) (simp_all add: touches_effects)

lemma DelMonitor_best_effort:
  "best_effort x {monitorKey i} (drop_key (monitorKey i)) e (fst (DelMonitor x i e))"
  by (rule best_effort_applied [OF DelMonitor_applied]) auto

lemma DelStatus_best_effort:
  "best_effort x {statusKey x u} (drop_key (statusKey x u)) e (fst (DelStatus x u e))"
  by (rule best_effort_applied [OF DelStatus_applied]) auto

lemma ClearIncident_best_effort:
  "best_effort x {incidentKey x u} (drop_key (incidentKey x u)) e (fst (ClearIncident x u e))"
  by (rule best_effort_applied [OF ClearIncident_applied]) auto

lemma ClearRetry_best_effort:
  "best_effort x {retryKey x u} (drop_key (retryKey x u)) e (fst (ClearRetry x u e))"
  by (rule best_effort_applied [OF ClearRetry_applied]) auto

lemma MarkDBIncidentCreated_best_effort:
  "best_effort x {incidentKey x u} (hash_set (incidentKey x u) [(''db_incident'', ''true'')]) e
     (fst (MarkDBIncidentCreated x u e))"
  by (rule best_effort_applied [OF MarkDBIncidentCreated_applied]) (simp_all add: touches_effects)

lemma StoreStatus_best_effort:
  "best_effort x {statusKey x u} (hash_set (statusKey x u) [(''status_code'', decimal c),
     (''latency_ms'', decimal l), (''checked_at'', decimal (Unix t))]) e (fst (StoreStatus x u c l t e))"
  by (rule best_effort_applied [OF StoreStatus_applied]) (simp_all add: touches_effects)

end

end
