(* ===== verification/Incident_Laws.thy ===== *)
theory Incident_Laws
  imports Redis_Laws
begin

text \<open>
  What the retry counter, the incident hash, the alert mark and the monitor cache do, for
  every environment (frames and invariants) and when every call is delivered (results).
\<close>

section \<open>Retry counters\<close>

definition bump_retry :: "'k services \<Rightarrow> uuid \<Rightarrow> int \<Rightarrow> keyspace \<Rightarrow> keyspace" where
  "bump_retry x u n ks = put_ttl (retryKey x u) (5 * Minute) (put_str (retryKey x u) (decimal n) ks)"

context monit
begin

lemma later_incrementRetry_attempt [simp]: "later e (fst (incrementRetry_attempt x k c e))"
proof -
  obtain e1 r where c: "rcall (INCR (rds x) k) e = (e1, r)" by (cases "rcall (INCR (rds x) k) e")
  have "later e e1" using later_ops(2) [of e "INCR (rds x) k"] c by simp
  moreover have "later e1 (fst (rcall (EXPIRE (rds x) k (5 * Minute)) e1))" by simp
  ultimately show ?thesis
    using c by (cases r) (auto simp: incrementRetry_attempt_def case_prod_unfold elim: later_trans)
qed

lemma db_incrementRetry_attempt [simp]: "db (fst (incrementRetry_attempt x k c e)) = db e"
  using db_ops(2) [of "INCR (rds x) k" e]
  by (auto simp: incrementRetry_attempt_def case_prod_unfold split: sum.split)

lemma IncrementRetry_later: "later e (fst (IncrementRetry x u e))"
  "db (fst (IncrementRetry x u e)) = db e"
  by (simp_all add: IncrementRetry_def later_retry retry_db)

lemma incrementRetry_attempt_frame:
  assumes "incrementRetry_attempt x (retryKey x u) c e = (e', c', r)"
  shows "touches {retryKey x u} (vw x e) (vw x e') \<and> (typed x (vw x e) \<longrightarrow> typed x (vw x e'))"
proof -
  let ?k = "retryKey x u"
  obtain e1 r1 where c1: "rcall (INCR (rds x) ?k) e = (e1, r1)" by (cases "rcall (INCR (rds x) ?k) e")
  have "vw x e1 = vw x e \<or> (\<exists>a. vw x e1 = put_str ?k (decimal a) (vw x e))"
    using rcall_meets [OF srv.INCR_meets c1] by (cases r1) auto
  then have f1: "touches {?k} (vw x e) (vw x e1) \<and> (typed x (vw x e) \<longrightarrow> typed x (vw x e1))" by auto
  show ?thesis
  proof (cases r1)
    case (Inl er)
    with assms c1 f1 show ?thesis by (simp add: incrementRetry_attempt_def)
  next
    case (Inr a)
    obtain r2 where c2: "rcall (EXPIRE (rds x) ?k (5 * Minute)) e1 = (e', r2)"
      using assms c1 Inr by (auto simp: incrementRetry_attempt_def split: prod.splits)
    have "vw x e' = vw x e1 \<or> vw x e' = put_ttl ?k (5 * Minute) (vw x e1)"
      using rcall_meets [OF srv.EXPIRE_meets c2] by (cases r2) auto
    with f1 show ?thesis by (auto intro: touches_trans)
  qed
qed

lemma IncrementRetry_frame:
  assumes "IncrementRetry x u e = (e', c, r)"
  shows "touches {retryKey x u} (vw x e) (vw x e') \<and> (typed x (vw x e) \<longrightarrow> typed x (vw x e'))"
proof -
  let ?I = "\<lambda>_ e1. touches {retryKey x u} (vw x e) (vw x e1) \<and> (typed x (vw x e) \<longrightarrow> typed x (vw x e1))"
  have "(r = None \<longrightarrow> ?I c e') \<and> (r \<noteq> None \<longrightarrow> ?I c e')"
    by (rule retry_rule [where I = ?I and Q = ?I, OF _ _ _ _ _ assms [unfolded IncrementRetry_def]])
      (auto dest: incrementRetry_attempt_frame intro: touches_trans)
  then show ?thesis by blast
qed

lemma IncrementRetry_reliable:
  assumes "reliable e" and "typed x (vw x e)"
    and n: "counter (str (vw x e) (retryKey x u)) = Some n" "in_int64 (n + 1)"
  shows "\<exists>e'. IncrementRetry x u e = (e', n + 1, None) \<and> vw x e' = bump_retry x u (n + 1) (vw x e)"
proof -
  let ?k = "retryKey x u"
  have pre: "is_str (vw x e) ?k \<and> (\<exists>n. counter (str (vw x e) ?k) = Some n \<and> in_int64 (n + 1))"
    using assms(2) n by (auto intro: typedD)
  obtain a where a: "snd (rcall (INCR (rds x) ?k) e) = Inr a"
    and v1: "counter (str (vw x e) ?k) = Some (a - 1)"
      "vw x (fst (rcall (INCR (rds x) ?k) e)) = put_str ?k (decimal a) (vw x e)"
    using rcall_meets_reliable [OF srv.INCR_meets assms(1) pre] by blast
  define e1 where "e1 = fst (rcall (INCR (rds x) ?k) e)"
  have c1: "rcall (INCR (rds x) ?k) e = (e1, Inr (n + 1))"
    using a v1 n(1) by (simp add: e1_def prod_eq_iff)
  have "reliable e1" using assms(1) by (simp add: e1_def reliable_later)
  from rcall_meets_reliable [OF srv.EXPIRE_meets this TrueI, of ?k "5 * Minute"]
  obtain b where b: "snd (rcall (EXPIRE (rds x) ?k (5 * Minute)) e1) = Inr b"
    "b = (vals (vw x e1) ?k \<noteq> None)"
    "vw x (fst (rcall (EXPIRE (rds x) ?k (5 * Minute)) e1)) = (if b then put_ttl ?k (5 * Minute) (vw x e1) else vw x e1)"
    by blast
  have "incrementRetry_attempt x ?k 0 e = (fst (rcall (EXPIRE (rds x) ?k (5 * Minute)) e1), n + 1, None)"
    using c1 b(1) by (simp add: incrementRetry_attempt_def case_prod_unfold)
  moreover have "vw x (fst (rcall (EXPIRE (rds x) ?k (5 * Minute)) e1)) = bump_retry x u (n + 1) (vw x e)"
    using b v1 n(1) by (auto simp: bump_retry_def e1_def)
  ultimately show ?thesis by (simp add: IncrementRetry_def retry_first)
qed

end

section \<open>Incident counters\<close>

definition incident_stamps :: "int \<Rightarrow> int \<Rightarrow> (string \<times> string) list" where
  "incident_stamps n now = (if n = 1 then [(''first_failure_at'', decimal now), (''last_failure_at'', decimal now)]
     else [(''last_failure_at'', decimal now)])"

definition bump_incident :: "'k services \<Rightarrow> uuid \<Rightarrow> int \<Rightarrow> int \<Rightarrow> keyspace \<Rightarrow> keyspace" where
  "bump_incident x u n now ks = put_hash (incidentKey x u)
     (hsets (incident_stamps n now) ((hash ks (incidentKey x u))(''failure_count'' \<mapsto> decimal n))) ks"

definition counter_fields :: "string set" where
  "counter_fields = {''failure_count'', ''first_failure_at'', ''last_failure_at''}"

text \<open>The frame of the counter: one hash, and in it only the counter and its stamps.\<close>

definition incident_frame :: "'k services \<Rightarrow> uuid \<Rightarrow> keyspace \<Rightarrow> keyspace \<Rightarrow> bool" where
  "incident_frame x u ks ks' \<longleftrightarrow> touches {incidentKey x u} ks ks' \<and> (typed x ks \<longrightarrow> typed x ks') \<and>
     (\<forall>f. f \<notin> counter_fields \<longrightarrow> hash ks' (incidentKey x u) f = hash ks (incidentKey x u) f)"

lemma incident_frame_refl [simp]: "incident_frame x u ks ks"
  by (simp add: incident_frame_def)

lemma incident_frame_trans:
  "incident_frame x u ks ks' \<Longrightarrow> incident_frame x u ks' ks'' \<Longrightarrow> incident_frame x u ks ks''"
  by (auto simp: incident_frame_def intro: touches_trans)

lemma hsets_notin: "f \<notin> set (map fst fvs) \<Longrightarrow> hsets fvs h f = h f"
  by (induction fvs arbitrary: h) auto

context monit
begin

lemma incident_frame_put:
  assumes "\<And>f. f \<notin> counter_fields \<Longrightarrow> h f = hash ks (incidentKey x u) f"
  shows "incident_frame x u ks (put_hash (incidentKey x u) h ks)"
  using assms by (auto simp: incident_frame_def)

lemma later_incrementIncident_attempt [simp]: "later e (fst (incrementIncident_attempt x k now c e))"
proof -
  obtain e1 r where c: "rcall (HINCRBY (rds x) k ''failure_count'' 1) e = (e1, r)"
    by (cases "rcall (HINCRBY (rds x) k ''failure_count'' 1) e")
  have "later e e1" using later_ops(2) [of e "HINCRBY (rds x) k ''failure_count'' 1"] c by simp
  moreover have "later e1 (fst (rcall (HSET (rds x) k fvs) e1))" for fvs by simp
  ultimately show ?thesis
    using c by (cases r) (auto simp: incrementIncident_attempt_def intro: later_trans)
qed

lemma db_incrementIncident_attempt [simp]: "db (fst (incrementIncident_attempt x k now c e)) = db e"
  using db_ops(2) [of "HINCRBY (rds x) k ''failure_count'' 1" e]
  by (auto simp: incrementIncident_attempt_def case_prod_unfold split: sum.split)

lemma IncrementIncident_later: "later e (fst (IncrementIncident x u e))"
  "db (fst (IncrementIncident x u e)) = db e"
proof -
  have "later e (fst (time_now e))" by simp
  also have "later (fst (time_now e))
      (fst (retry 3 (incrementIncident_attempt x (incidentKey x u) n) v (fst (time_now e))))" for n v
    by (rule later_retry) simp
  finally show "later e (fst (IncrementIncident x u e))"
    by (simp add: IncrementIncident_def Let_def case_prod_unfold)
  show "db (fst (IncrementIncident x u e)) = db e"
    by (simp add: IncrementIncident_def Let_def case_prod_unfold retry_db)
qed

lemma incrementIncident_attempt_frame:
  assumes "incrementIncident_attempt x (incidentKey x u) now c e = (e', c', r)"
  shows "incident_frame x u (vw x e) (vw x e')"
proof -
  let ?k = "incidentKey x u"
  obtain e1 r1 where c1: "rcall (HINCRBY (rds x) ?k ''failure_count'' 1) e = (e1, r1)"
    by (cases "rcall (HINCRBY (rds x) ?k ''failure_count'' 1) e")
  have "vw x e1 = vw x e \<or>
      (\<exists>a. vw x e1 = put_hash ?k ((hash (vw x e) ?k)(''failure_count'' \<mapsto> decimal a)) (vw x e))"
    using rcall_meets [OF srv.HINCRBY_meets c1] by (cases r1) auto
  then have f1: "incident_frame x u (vw x e) (vw x e1)"
    by (auto intro!: incident_frame_put simp: counter_fields_def)
  have hset: "incident_frame x u (vw x e1) (vw x (fst (rcall (HSET (rds x) ?k fvs) e1)))"
    if "set (map fst fvs) \<subseteq> counter_fields" for fvs
  proof -
    obtain e2 r2 where c2: "rcall (HSET (rds x) ?k fvs) e1 = (e2, r2)"
      by (cases "rcall (HSET (rds x) ?k fvs) e1")
    have "vw x e2 = vw x e1 \<or> vw x e2 = put_hash ?k (hsets fvs (hash (vw x e1) ?k)) (vw x e1)"
      using rcall_meets [OF srv.HSET_meets c2] by (cases r2) auto
    moreover have "hsets fvs (hash (vw x e1) ?k) f = hash (vw x e1) ?k f" if "f \<notin> counter_fields" for f
      using that \<open>set (map fst fvs) \<subseteq> counter_fields\<close> by (intro hsets_notin) blast
    ultimately show ?thesis using c2 by (auto intro!: incident_frame_put)
  qed
  show ?thesis
  proof (cases r1)
    case (Inl er)
    with assms c1 f1 show ?thesis by (simp add: incrementIncident_attempt_def)
  next
    case (Inr a)
    have "incident_frame x u (vw x e1) (vw x e')"
      using assms c1 Inr hset [of "[(''first_failure_at'', decimal now), (''last_failure_at'', decimal now)]"]
        hset [of "[(''last_failure_at'', decimal now)]"]
      by (auto simp: incrementIncident_attempt_def counter_fields_def split: if_splits)
    with f1 show ?thesis by (rule incident_frame_trans)
  qed
qed

lemma IncrementIncident_frame:
  assumes "IncrementIncident x u e = (e', c, r)"
  shows "incident_frame x u (vw x e) (vw x e')"
proof -
  let ?I = "\<lambda>_ e1. incident_frame x u (vw x e) (vw x e1)"
  have "retry 3 (incrementIncident_attempt x (incidentKey x u) (Unix (clock e (ticks e)))) (0, False)
      (fst (time_now e)) = (e', c, r)"
    using assms by (simp add: IncrementIncident_def Let_def case_prod_unfold)
  then have "(r = None \<longrightarrow> ?I c e') \<and> (r \<noteq> None \<longrightarrow> ?I c e')"
    by (rule retry_rule [where I = ?I and Q = ?I, rotated 5])
      (auto dest: incrementIncident_attempt_frame intro: incident_frame_trans)
  then show ?thesis by blast
qed

lemma IncrementIncident_reliable:
  assumes "reliable e" and "typed x (vw x e)"
    and n: "counter (hash (vw x e) (incidentKey x u) ''failure_count'') = Some n" "in_int64 (n + 1)"
  shows "\<exists>e'. IncrementIncident x u e = (e', (n + 1, n = 0), None) \<and>
    vw x e' = bump_incident x u (n + 1) (Unix (clock e (ticks e))) (vw x e)"
proof -
  let ?k = "incidentKey x u" and ?now = "Unix (clock e (ticks e))"
  define e0 where "e0 = fst (time_now e)"
  have e0: "reliable e0" "vw x e0 = vw x e" using assms(1) by (simp_all add: e0_def reliable_later)
  let ?cmd = "HINCRBY (rds x) ?k ''failure_count'' 1"
  have pre: "is_hash (vw x e0) ?k \<and> (\<exists>n. counter (hash (vw x e0) ?k ''failure_count'') = Some n \<and> in_int64 (n + 1))"
    using assms(2) n e0(2) by (auto intro: typedD)
  obtain a where a: "snd (rcall ?cmd e0) = Inr a"
    and v1: "counter (hash (vw x e) ?k ''failure_count'') = Some (a - 1)"
      "vw x (fst (rcall ?cmd e0)) = put_hash ?k ((hash (vw x e) ?k)(''failure_count'' \<mapsto> decimal a)) (vw x e)"
    using rcall_meets_reliable [OF srv.HINCRBY_meets e0(1) pre] e0(2) by auto
  define e1 where "e1 = fst (rcall ?cmd e0)"
  have c1: "rcall ?cmd e0 = (e1, Inr (n + 1))"
    using a v1 n(1) by (simp add: e1_def prod_eq_iff)
  have e1: "reliable e1" "is_hash (vw x e1) ?k" "hash (vw x e1) ?k = (hash (vw x e) ?k)(''failure_count'' \<mapsto> decimal (n + 1))"
    using e0(1) v1 n(1) by (auto simp: e1_def intro: reliable_later)
  have hs: "vw x (fst (rcall (HSET (rds x) ?k fvs) e1)) = put_hash ?k (hsets fvs (hash (vw x e1) ?k)) (vw x e1)" for fvs
    using rcall_meets_reliable [OF srv.HSET_meets e1(1) e1(2)] by blast
  have "put_hash ?k h (vw x e1) = put_hash ?k h (vw x e)" for h
    using v1(2) by (simp add: e1_def put_hash_def)
  moreover have "incrementIncident_attempt x ?k ?now (0, False) e0 =
     (fst (rcall (HSET (rds x) ?k (incident_stamps (n + 1) ?now)) e1), (n + 1, n = 0), None)"
    using c1 by (simp add: incrementIncident_attempt_def incident_stamps_def)
  ultimately show ?thesis
    using hs [of "incident_stamps (n + 1) ?now"] e1(3)
    by (simp add: IncrementIncident_def Let_def case_prod_unfold retry_first bump_incident_def flip: e0_def)
qed

end

section \<open>The alert mark\<close>

definition mark_alerted :: "'k services \<Rightarrow> uuid \<Rightarrow> keyspace \<Rightarrow> keyspace" where
  "mark_alerted x u ks = (if hash ks (incidentKey x u) ''alerted'' = None
     then put_hash (incidentKey x u) ((hash ks (incidentKey x u))(''alerted'' \<mapsto> ''true'')) ks else ks)"

context monit
begin

lemma MarkIncidentAlertedIfNotSet_result:
  assumes "MarkIncidentAlertedIfNotSet x u e = (e', r)"
  shows "\<And>b. r = Inr b \<Longrightarrow> b = (hash (vw x e) (incidentKey x u) ''alerted'' = None) \<and>
        vw x e' = mark_alerted x u (vw x e)"
    and "\<And>er. r = Inl er \<Longrightarrow> vw x e' = vw x e \<or> vw x e' = mark_alerted x u (vw x e)"
    and "later e e'" and "db e' = db e"
    and "reliable e \<Longrightarrow> typed x (vw x e) \<Longrightarrow> \<exists>b. r = Inr b"
proof -
  let ?cmd = "HSETNX (rds x) (incidentKey x u) ''alerted'' ''true''"
  have c: "rcall ?cmd e = (e', r)" using assms by (simp add: MarkIncidentAlertedIfNotSet_def)
  have "later e (fst (rcall ?cmd e))" "db (fst (rcall ?cmd e)) = db e" by simp_all
  with c show "later e e'" "db e' = db e" by simp_all
  note res = rcall_meets [OF srv.HSETNX_meets c]
  show "\<And>b. r = Inr b \<Longrightarrow> b = (hash (vw x e) (incidentKey x u) ''alerted'' = None) \<and>
        vw x e' = mark_alerted x u (vw x e)"
    using res by (auto simp: mark_alerted_def)
  show "\<And>er. r = Inl er \<Longrightarrow> vw x e' = vw x e \<or> vw x e' = mark_alerted x u (vw x e)"
    using res by (auto simp: mark_alerted_def)
  show "\<exists>b. r = Inr b" if rel: "reliable e" and ty: "typed x (vw x e)"
    using rcall_meets_reliable [OF srv.HSETNX_meets rel typedD(3) [OF ty], of u "''alerted''" "''true''"] c
    by auto
qed

lemma typed_mark_alerted [simp]: "typed x ks \<Longrightarrow> typed x (mark_alerted x u ks)"
  by (simp add: mark_alerted_def)

lemma touches_mark_alerted: "touches {incidentKey x u} ks (mark_alerted x u ks)"
  by (auto simp: mark_alerted_def)

end

section \<open>Reads\<close>

context monit
begin

lemma GetIncident_result:
  assumes "GetIncident x u e = (e', r)"
  shows "vw x e' = vw x e" and "later e e'" and "db e' = db e"
    and "\<And>h. r = Inr (Some h) \<Longrightarrow> h = hash (vw x e) (incidentKey x u)"
    and "reliable e \<Longrightarrow> typed x (vw x e) \<Longrightarrow> r = Inr (Some (hash (vw x e) (incidentKey x u)))"
proof -
  let ?cmd = "HGETALL (rds x) (incidentKey x u)"
  obtain r0 where c: "rcall ?cmd e = (e', r0)"
    and r: "r = (case r0 of Inl err \<Rightarrow> if err = RedisNil then Inr None else Inl err | Inr h \<Rightarrow> Inr (Some h))"
    using assms by (auto simp: GetIncident_def split: prod.splits sum.splits)
  have "later e (fst (rcall ?cmd e))" "db (fst (rcall ?cmd e)) = db e" by simp_all
  with c show "later e e'" "db e' = db e" by simp_all
  note res = rcall_meets [OF srv.HGETALL_meets c]
  show "vw x e' = vw x e" using res by (cases r0) auto
  show "\<And>h. r = Inr (Some h) \<Longrightarrow> h = hash (vw x e) (incidentKey x u)"
    using res r by (cases r0) (auto split: if_splits)
  show "r = Inr (Some (hash (vw x e) (incidentKey x u)))" if rel: "reliable e" and ty: "typed x (vw x e)"
  proof -
    obtain h where "snd (rcall ?cmd e) = Inr h"
      using rcall_meets_reliable [OF srv.HGETALL_meets rel typedD(3) [OF ty]] by blast
    with c r res show ?thesis by auto
  qed
qed

lemma GetMonitor_cache_result:
  assumes "GetMonitor_cache x i e = (e', r)"
  shows "vw x e' = vw x e" and "later e e'" and "db e' = db e"
    and "\<And>v. r = Inr v \<Longrightarrow> str (vw x e) (monitorKey i) = Some v"
    and "\<And>v. reliable e \<Longrightarrow> str (vw x e) (monitorKey i) = Some v \<Longrightarrow> r = Inr v"
    and "reliable e \<Longrightarrow> vals (vw x e) (monitorKey i) = None \<Longrightarrow> \<exists>er. r = Inl er \<and> IsKind er NotFound"
proof -
  let ?cmd = "GET (rds x) (monitorKey i)"
  obtain r0 where c: "rcall ?cmd e = (e', r0)"
    and r: "r = (case r0 of Inl err \<Rightarrow> Inl (if err = RedisNil then AppError NotFound '''' None '''' None else err)
      | Inr v \<Rightarrow> Inr v)"
    using assms by (auto simp: GetMonitor_cache_def split: prod.splits sum.splits)
  have "later e (fst (rcall ?cmd e))" "db (fst (rcall ?cmd e)) = db e" by simp_all
  with c show "later e e'" "db e' = db e" by simp_all
  note res = rcall_meets [OF srv.GET_meets c]
  show "vw x e' = vw x e" using res by (cases r0) auto
  show "\<And>v. r = Inr v \<Longrightarrow> str (vw x e) (monitorKey i) = Some v"
    using res r by (cases r0) auto
  show "r = Inr v" if rel: "reliable e" and v: "str (vw x e) (monitorKey i) = Some v" for v
  proof -
    obtain a where "snd (rcall ?cmd e) = Inr a"
      using rcall_meets_reliable [OF srv.GET_meets rel, of "monitorKey i"] v by blast
    with c r res v show ?thesis by auto
  qed
  show "\<exists>er. r = Inl er \<and> IsKind er NotFound" if rel: "reliable e" and nil: "vals (vw x e) (monitorKey i) = None"
  proof -
    have "snd (GET (rds x) (monitorKey i) (kv e)) = Inl RedisNil"
      using nil by (simp add: srv.GET_nil vw_def)
    then have "r0 = Inl RedisNil" using c rel by (simp add: rcall_reliable prod_eq_iff)
    with r show ?thesis by simp
  qed
qed

end

end
