(* ===== verification/Monitor_Service.thy ===== *)
theory Monitor_Service
  imports User_Repository Incident_Laws
begin

text \<open>
  The monitor module: its domain types (\<^verbatim>\<open>domain.go\<close>), its repository (\<^verbatim>\<open>repository.go\<close>), the
  JSON form of a cached monitor, and the service (\<^verbatim>\<open>service.go\<close>) that ties the database, the
  cache and the schedule together.
\<close>

section \<open>Domain (domain.go)\<close>

record createMonitorCmd =
  cmc_UserID :: uuid
  cmc_Url :: string
  cmc_IntervalSec :: int32
  cmc_TimeoutSec :: int32
  cmc_LatencyThresholdMs :: int32
  cmc_ExpectedStatus :: int32
  cmc_AlertEmail :: string

record monitor =
  mon_ID :: uuid
  mon_UserID :: uuid
  mon_Url :: string
  mon_AlertEmail :: string
  mon_IntervalSec :: int32
  mon_TimeoutSec :: int32
  mon_LatencyThresholdMs :: int32
  mon_ExpectedStatus :: int32
  mon_Enabled :: bool

definition zero_monitor :: monitor where
  "zero_monitor = \<lparr>mon_ID = uuid_nil, mon_UserID = uuid_nil, mon_Url = '''', mon_AlertEmail = '''',
     mon_IntervalSec = 0, mon_TimeoutSec = 0, mon_LatencyThresholdMs = 0, mon_ExpectedStatus = 0,
     mon_Enabled = False\<rparr>"

section \<open>Repository (repository.go)\<close>

definition row_monitor :: "monitor_row \<Rightarrow> monitor" where
  "row_monitor r = \<lparr>mon_ID = FromPgUUID (ToPgUUID (m_ID r)), mon_UserID = FromPgUUID (ToPgUUID (m_UserID r)),
     mon_Url = m_Url r, mon_AlertEmail = FromPgText (m_AlertEmail r), mon_IntervalSec = m_IntervalSec r,
     mon_TimeoutSec = m_TimeoutSec r, mon_LatencyThresholdMs = m_LatencyThresholdMs r,
     mon_ExpectedStatus = m_ExpectedStatus r, mon_Enabled = m_Enabled r\<rparr>"

definition repo_Create :: "createMonitorCmd \<Rightarrow> 'k world \<Rightarrow> 'k world \<times> uuid result" where
  "repo_Create cmd e = (case dcall (createMonitor_sql (gen e (ticks e)) (clock e (ticks e))
       \<lparr>p_UserID = cmc_UserID cmd, p_Url = cmc_Url cmd, p_IntervalSec = cmc_IntervalSec cmd,
        p_TimeoutSec = cmc_TimeoutSec cmd, p_LatencyThresholdMs = cmc_LatencyThresholdMs cmd,
        p_ExpectedStatus = cmc_ExpectedStatus cmd, p_AlertEmail = ToPgText (cmc_AlertEmail cmd)\<rparr>) e of
     (e', Inr i) \<Rightarrow> (e', Inr (FromPgUUID (ToPgUUID i)))
   | (e', Inl err) \<Rightarrow> (e', Inl (WrapRepoError ''repo.monitor.create'' err False)))"

definition repo_GetByID :: "uuid \<Rightarrow> 'k world \<Rightarrow> 'k world \<times> monitor result" where
  "repo_GetByID monitorID e = (case dcall (getMonitorByID_sql monitorID) e of
     (e', Inr r) \<Rightarrow> (e', Inr (row_monitor r))
   | (e', Inl err) \<Rightarrow> (e', Inl (WrapRepoError ''repo.monitor.get_by_id'' err True)))"

definition repo_Get :: "uuid \<Rightarrow> uuid \<Rightarrow> 'k world \<Rightarrow> 'k world \<times> monitor result" where
  "repo_Get userID monitorID e = (case dcall (getMonitor_sql monitorID userID) e of
     (e', Inr r) \<Rightarrow> (e', Inr (row_monitor r))
   | (e', Inl err) \<Rightarrow> (e', Inl (WrapRepoError ''repo.monitor.get'' err True)))"

definition repo_GetAll :: "uuid \<Rightarrow> int32 \<Rightarrow> int32 \<Rightarrow> 'k world \<Rightarrow> 'k world \<times> monitor list result" where
  "repo_GetAll userID limit offset e = (case dcall (getAllMonitorByUserID_sql userID limit offset) e of
     (e', Inr rows) \<Rightarrow> (e', Inr (if rows = [] then [] else map row_monitor rows))
   | (e', Inl err) \<Rightarrow> (e', Inl (WrapRepoError ''repo.monitor.get_all'' err False)))"

definition repo_SetEnabled :: "uuid \<Rightarrow> uuid \<Rightarrow> bool \<Rightarrow> 'k world \<Rightarrow> 'k world \<times> go_error option" where
  "repo_SetEnabled userID monitorID enabled e = (let op = ''repo.monitor.enable_disable_monitor'' in
     case dcall (updateMonitorStatus_sql monitorID enabled userID) e of
       (e', Inr rows) \<Rightarrow> (e', if rows = 0
          then Some (AppError NotFound op None ''resource not found'' None) else None)
     | (e', Inl err) \<Rightarrow> (e', Some (WrapRepoError op err False)))"

section \<open>The cached form\<close>

text \<open>
  \<^verbatim>\<open>json.Marshal\<close> of the struct writes its fields in order under their names; a UUID is its
  text. It cannot fail on this struct, so the error branch of \<^verbatim>\<open>cacheMonitor\<close> is dead.
\<close>

definition marshal_monitor :: "'k services \<Rightarrow> monitor \<Rightarrow> json_doc" where
  "marshal_monitor x m = [(''ID'', JStr (uuid_string x (mon_ID m))),
     (''UserID'', JStr (uuid_string x (mon_UserID m))), (''Url'', JStr (mon_Url m)),
     (''AlertEmail'', JStr (mon_AlertEmail m)), (''IntervalSec'', JInt (sint (mon_IntervalSec m))),
     (''TimeoutSec'', JInt (sint (mon_TimeoutSec m))),
     (''LatencyThresholdMs'', JInt (sint (mon_LatencyThresholdMs m))),
     (''ExpectedStatus'', JInt (sint (mon_ExpectedStatus m))), (''Enabled'', JBool (mon_Enabled m))]"

text \<open>
  \<^verbatim>\<open>json.Unmarshal\<close> assigns the members one by one, in the order of the text. A member whose name matches no
  field, up to the case of letters, is skipped; one of the wrong type, out of the range of
  \<^verbatim>\<open>int32\<close> or with a malformed UUID is an error.
\<close>

definition lower :: "char \<Rightarrow> char" where
  "lower c = (let n = of_char c :: nat in if 65 \<le> n \<and> n \<le> 90 then char_of (n + 32) else c)"

definition same_field :: "string \<Rightarrow> string \<Rightarrow> bool" where
  "same_field s t \<longleftrightarrow> map lower s = map lower t"

definition want_str :: "json \<Rightarrow> string option" where
  "want_str v = (case v of JStr s \<Rightarrow> Some s | _ \<Rightarrow> None)"

definition want_int32 :: "json \<Rightarrow> int32 option" where
  "want_int32 v = (case v of
     JInt n \<Rightarrow> if - (2 ^ 31) \<le> n \<and> n < 2 ^ 31 then Some (word_of_int n) else None | _ \<Rightarrow> None)"

definition want_bool :: "json \<Rightarrow> bool option" where
  "want_bool v = (case v of JBool b \<Rightarrow> Some b | _ \<Rightarrow> None)"

definition want_uuid :: "'k services \<Rightarrow> json \<Rightarrow> uuid option" where
  "want_uuid x v = Option.bind (want_str v) (uuid_parse x)"

definition assign_member :: "'k services \<Rightarrow> string \<times> json \<Rightarrow> monitor \<Rightarrow> monitor option" where
  "assign_member x fv m = (let k = fst fv; v = snd fv in
     if same_field k ''ID'' then map_option (\<lambda>i. m\<lparr>mon_ID := i\<rparr>) (want_uuid x v)
     else if same_field k ''UserID'' then map_option (\<lambda>i. m\<lparr>mon_UserID := i\<rparr>) (want_uuid x v)
     else if same_field k ''Url'' then map_option (\<lambda>s. m\<lparr>mon_Url := s\<rparr>) (want_str v)
     else if same_field k ''AlertEmail'' then map_option (\<lambda>s. m\<lparr>mon_AlertEmail := s\<rparr>) (want_str v)
     else if same_field k ''IntervalSec'' then map_option (\<lambda>n. m\<lparr>mon_IntervalSec := n\<rparr>) (want_int32 v)
     else if same_field k ''TimeoutSec'' then map_option (\<lambda>n. m\<lparr>mon_TimeoutSec := n\<rparr>) (want_int32 v)
     else if same_field k ''LatencyThresholdMs''
       then map_option (\<lambda>n. m\<lparr>mon_LatencyThresholdMs := n\<rparr>) (want_int32 v)
     else if same_field k ''ExpectedStatus'' then map_option (\<lambda>n. m\<lparr>mon_ExpectedStatus := n\<rparr>) (want_int32 v)
     else if same_field k ''Enabled'' then map_option (\<lambda>b. m\<lparr>mon_Enabled := b\<rparr>) (want_bool v)
     else Some m)"

primrec assign_members :: "'k services \<Rightarrow> json_doc \<Rightarrow> monitor \<Rightarrow> monitor option" where
  "assign_members x [] m = Some m"
| "assign_members x (fv # d) m = Option.bind (assign_member x fv m) (assign_members x d)"

definition unmarshal_monitor :: "'k services \<Rightarrow> string \<Rightarrow> monitor result" where
  "unmarshal_monitor x data = (case Option.bind (json_decode x data)
       (\<lambda>d. assign_members x d zero_monitor) of
     None \<Rightarrow> Inl (Opaque ''json'') | Some m \<Rightarrow> Inr m)"

section \<open>The service (service.go)\<close>

text \<open>\<^verbatim>\<open>time.Duration(intervalSec) * time.Second\<close>, in 64 bits.\<close>

definition seconds :: "int32 \<Rightarrow> duration" where
  "seconds n = sint ((signed n :: int64) * 1000000000)"

definition ScheduleMonitor :: "'k services \<Rightarrow> uuid \<Rightarrow> int32 \<Rightarrow> ('k, 'd) env \<Rightarrow> ('k, 'd) env" where
  "ScheduleMonitor x mID intervalSec e = (let (e1, now) = time_now e; nextRun = now + seconds intervalSec in
     fst (Schedule x (uuid_string x mID) nextRun e1))"

definition disableMonitor :: "'k services \<Rightarrow> uuid \<Rightarrow> ('k, 'd) env \<Rightarrow> ('k, 'd) env" where
  "disableMonitor x monitorID e =
     (let e1 = fst (DelMonitor x (uuid_string x monitorID) e);
          e2 = fst (DelSchedule x (uuid_string x monitorID) e1);
          e3 = fst (ClearIncident x monitorID e2)
      in fst (DelStatus x monitorID e3))"

definition cacheMonitor :: "'k services \<Rightarrow> monitor \<Rightarrow> ('k, 'd) env \<Rightarrow> ('k, 'd) env \<times> go_error option" where
  "cacheMonitor x m e = SetMonitor x (uuid_string x (mon_ID m)) (json_encode x (marshal_monitor x m)) (24 * Hour) e"

definition getCachedMonitor :: "'k services \<Rightarrow> uuid \<Rightarrow> ('k, 'd) env \<Rightarrow> ('k, 'd) env \<times> monitor result" where
  "getCachedMonitor x i e = (case GetMonitor_cache x (uuid_string x i) e of
     (e', Inl err) \<Rightarrow> (e', Inl err)
   | (e', Inr data) \<Rightarrow> (e', unmarshal_monitor x data))"

definition CreateMonitor :: "'k services \<Rightarrow> createMonitorCmd \<Rightarrow> 'k world \<Rightarrow> 'k world \<times> uuid result" where
  "CreateMonitor x cmd e = (case repo_IncrementMonitorCount (cmc_UserID cmd) e of
     (e1, Some err) \<Rightarrow> (e1, Inl err)
   | (e1, None) \<Rightarrow> (case repo_Create cmd e1 of
       (e2, Inl err) \<Rightarrow> (e2, Inl err)
     | (e2, Inr monitorID) \<Rightarrow> (ScheduleMonitor x monitorID (cmc_IntervalSec cmd) e2, Inr monitorID)))"

definition GetMonitor :: "'k services \<Rightarrow> uuid \<Rightarrow> uuid \<Rightarrow> 'k world \<Rightarrow> 'k world \<times> monitor result" where
  "GetMonitor x userID monitorID e =
     (let (e1, cached) = getCachedMonitor x monitorID e;
          miss = (case repo_Get userID monitorID e1 of
              (e2, Inl err) \<Rightarrow> (e2, Inl err)
            | (e2, Inr mDB) \<Rightarrow> (fst (cacheMonitor x mDB e2), Inr mDB))
      in case cached of
          Inr m \<Rightarrow> if mon_UserID m = userID then (e1, Inr m) else miss
        | Inl _ \<Rightarrow> miss)"

definition LoadMonitor :: "'k services \<Rightarrow> uuid \<Rightarrow> 'k world \<Rightarrow> 'k world \<times> monitor result" where
  "LoadMonitor x monitorID e = (case getCachedMonitor x monitorID e of
     (e1, Inr m) \<Rightarrow> (e1, Inr m)
   | (e1, Inl _) \<Rightarrow> (case repo_GetByID monitorID e1 of
       (e2, Inl err) \<Rightarrow> (e2, Inl err)
     | (e2, Inr mDB) \<Rightarrow> (fst (cacheMonitor x mDB e2), Inr mDB)))"

definition GetAllMonitors :: "uuid \<Rightarrow> int32 \<Rightarrow> int32 \<Rightarrow> 'k world \<Rightarrow> 'k world \<times> monitor list result" where
  "GetAllMonitors userID limit offset e = (case repo_GetAll userID limit offset e of
     (e', Inl err) \<Rightarrow> (e', Inl err) | (e', Inr m) \<Rightarrow> (e', Inr m))"

definition UpdateMonitorStatus :: "'k services \<Rightarrow> uuid \<Rightarrow> uuid \<Rightarrow> bool \<Rightarrow> 'k world \<Rightarrow> 'k world \<times> bool result" where
  "UpdateMonitorStatus x userID monitorID enable e = (case repo_Get userID monitorID e of
     (e1, Inl err) \<Rightarrow> (e1, Inl err)
   | (e1, Inr m) \<Rightarrow>
      (if mon_Enabled m = enable then (e1, Inr True)
       else (case repo_SetEnabled userID monitorID enable e1 of
           (e2, Some err) \<Rightarrow> (e2, Inl err)
         | (e2, None) \<Rightarrow>
            (if enable then (ScheduleMonitor x (mon_ID m) (mon_IntervalSec m) e2, Inr True)
             else (disableMonitor x monitorID e2, Inr True)))))"

end
