(* ===== verification/Api.thy ===== *)
theory Api
  imports Http Monitor_Service
begin

text \<open>
  The HTTP interface: the request and response types (\<^verbatim>\<open>dto.go\<close>) and the handlers
  (\<^verbatim>\<open>handler.go\<close>) of users and monitors, and the routes of \<^verbatim>\<open>routes.go\<close> and
  \<^verbatim>\<open>internals/app/router.go\<close> with the authentication in front of them. A handler maps the
  request and the state to the state it leaves and the response it writes. The names of the
  handlers are prefixed by \<open>h_\<close>, as the services have operations of the same names.
\<close>

section \<open>Data transfer objects (dto.go)\<close>

record createMonitorRequest =
  cmr_Url :: string
  cmr_AlertEmail :: string
  cmr_IntervalSec :: int32
  cmr_TimeoutSec :: int32
  cmr_LatencyThresholdMs :: int32
  cmr_ExpectedStatus :: int32

record getMonitorResponse =
  gmr_ID :: string
  gmr_Url :: string
  gmr_AlertEmail :: string
  gmr_IntervalSec :: int32
  gmr_TimeoutSec :: int32
  gmr_LatencyThresholdMs :: int32
  gmr_ExpectedStatus :: int32
  gmr_Enabled :: bool

record getAllMonitorsResponse =
  gar_UserID :: string
  gar_Limit :: int32
  gar_Offset :: int32
  gar_Monitors :: "getMonitorResponse list"

record updateMonitorStatusRequest =
  umr_Enable :: bool

record registerRequest =
  rr_Name :: string
  rr_Email :: string
  rr_Password :: string

record logInRequest =
  lr_Email :: string
  lr_Password :: string

record getProfileResponse =
  gpr_ID :: string
  gpr_Name :: string
  gpr_Email :: string
  gpr_MonitorsCount :: int32
  gpr_IsPaidUser :: bool

datatype payload =
    CreateMonitorResponse (cmr_MonitorID: string)
  | MonitorPayload getMonitorResponse
  | MonitorsPayload getAllMonitorsResponse
  | OkPayload string
  | RegisterResponse (rr_UserID: string)
  | LogInResponse (lr_UserID: string) (lr_AccessToken: string)
  | ProfilePayload getProfileResponse

section \<open>Decoding and validation\<close>

definition assign_createMonitor :: "string \<Rightarrow> json \<Rightarrow> createMonitorRequest \<Rightarrow> createMonitorRequest option" where
  "assign_createMonitor k v q =
     (if same_field k ''url'' then map_option (\<lambda>s. q\<lparr>cmr_Url := s\<rparr>) (want_str v)
      else if same_field k ''alert_email'' then map_option (\<lambda>s. q\<lparr>cmr_AlertEmail := s\<rparr>) (want_str v)
      else if same_field k ''interval_sec'' then map_option (\<lambda>n. q\<lparr>cmr_IntervalSec := n\<rparr>) (want_int32 v)
      else if same_field k ''timeout_sec'' then map_option (\<lambda>n. q\<lparr>cmr_TimeoutSec := n\<rparr>) (want_int32 v)
      else if same_field k ''latency_threshold_ms''
        then map_option (\<lambda>n. q\<lparr>cmr_LatencyThresholdMs := n\<rparr>) (want_int32 v)
      else if same_field k ''expected_status'' then map_option (\<lambda>n. q\<lparr>cmr_ExpectedStatus := n\<rparr>) (want_int32 v)
      else Some q)"

definition zero_createMonitor :: createMonitorRequest where
  "zero_createMonitor = \<lparr>cmr_Url = '''', cmr_AlertEmail = '''', cmr_IntervalSec = 0, cmr_TimeoutSec = 0, cmr_LatencyThresholdMs = 0, cmr_ExpectedStatus = 0\<rparr>"

definition decode_createMonitor :: "body \<Rightarrow> createMonitorRequest option" where
  "decode_createMonitor = decode (\<lambda>k. list_ex (same_field k) [''url'', ''alert_email'', ''interval_sec'',
       ''timeout_sec'', ''latency_threshold_ms'', ''expected_status'']) assign_createMonitor
     zero_createMonitor"

definition createMonitor_tags :: "createMonitorRequest \<Rightarrow> (field \<times> tag list) list" where
  "createMonitor_tags q = [(FStr (cmr_Url q), [Required, Url]), (FStr (cmr_AlertEmail q), [Email]),
     (FInt (sint (cmr_IntervalSec q)), [Required, Gte 60]), (FInt (sint (cmr_TimeoutSec q)), [Required, Gte 120]),
     (FInt (sint (cmr_LatencyThresholdMs q)), [Required, Gte 0]),
     (FInt (sint (cmr_ExpectedStatus q)), [Required, Gte 100, Lte 599])]"

definition assign_updateStatus :: "string \<Rightarrow> json \<Rightarrow> updateMonitorStatusRequest \<Rightarrow> updateMonitorStatusRequest option" where
  "assign_updateStatus k v q =
     (if same_field k ''enable'' then map_option (\<lambda>b. q\<lparr>umr_Enable := b\<rparr>) (want_bool v) else Some q)"

definition decode_updateStatus :: "body \<Rightarrow> updateMonitorStatusRequest option" where
  "decode_updateStatus = decode (\<lambda>k. same_field k ''enable'') assign_updateStatus \<lparr>umr_Enable = False\<rparr>"

definition updateStatus_tags :: "updateMonitorStatusRequest \<Rightarrow> (field \<times> tag list) list" where
  "updateStatus_tags q = [(FBool (umr_Enable q), [Required])]"

definition assign_register :: "string \<Rightarrow> json \<Rightarrow> registerRequest \<Rightarrow> registerRequest option" where
  "assign_register k v q =
     (if same_field k ''name'' then map_option (\<lambda>s. q\<lparr>rr_Name := s\<rparr>) (want_str v)
      else if same_field k ''email'' then map_option (\<lambda>s. q\<lparr>rr_Email := s\<rparr>) (want_str v)
      else if same_field k ''password'' then map_option (\<lambda>s. q\<lparr>rr_Password := s\<rparr>) (want_str v)
      else Some q)"

definition decode_register :: "body \<Rightarrow> registerRequest option" where
  "decode_register = decode (\<lambda>k. list_ex (same_field k) [''name'', ''email'', ''password'']) assign_register
     \<lparr>rr_Name = '''', rr_Email = '''', rr_Password = ''''\<rparr>"

definition register_tags :: "registerRequest \<Rightarrow> (field \<times> tag list) list" where
  "register_tags q = [(FStr (rr_Name q), [Required, Gte 3, Lte 60]), (FStr (rr_Email q), [Required, Email]),
     (FStr (rr_Password q), [Required, Gte 8, Lte 60])]"

definition assign_logIn :: "string \<Rightarrow> json \<Rightarrow> logInRequest \<Rightarrow> logInRequest option" where
  "assign_logIn k v q =
     (if same_field k ''email'' then map_option (\<lambda>s. q\<lparr>lr_Email := s\<rparr>) (want_str v)
      else if same_field k ''password'' then map_option (\<lambda>s. q\<lparr>lr_Password := s\<rparr>) (want_str v)
      else Some q)"

definition decode_logIn :: "body \<Rightarrow> logInRequest option" where
  "decode_logIn = decode (\<lambda>k. list_ex (same_field k) [''email'', ''password'']) assign_logIn
     \<lparr>lr_Email = '''', lr_Password = ''''\<rparr>"

definition logIn_tags :: "logInRequest \<Rightarrow> (field \<times> tag list) list" where
  "logIn_tags q = [(FStr (lr_Email q), [Required, Email]), (FStr (lr_Password q), [Required, Gte 8, Lte 60])]"

text \<open>\<^verbatim>\<open>strconv.ParseInt(s, 10, 32)\<close>.\<close>

definition ParseInt32 :: "string \<Rightarrow> int option" where
  "ParseInt32 s = Option.bind (parse_int s) (\<lambda>n. if - (2 ^ 31) \<le> n \<and> n < 2 ^ 31 then Some n else None)"

section \<open>The monitor handlers (monitor/handler.go)\<close>

type_synonym 'k handler = "request \<Rightarrow> 'k world \<Rightarrow> 'k world \<times> payload response"

definition h_CreateMonitor :: "'k services \<Rightarrow> (tag \<Rightarrow> field \<Rightarrow> bool) \<Rightarrow> 'k handler" where
  "h_CreateMonitor x validate r e = (let reqID = rq_reqID r in
     case UserFromContext r of
       None \<Rightarrow> (e, WriteError 401 reqID Unauthorised ''user Unauthorised'')
     | Some reqClaims \<Rightarrow> (case decode_createMonitor (rq_body r) of
         None \<Rightarrow> (e, WriteError 400 reqID InvalidInput ''invalid request'')
       | Some req \<Rightarrow>
          (if \<not> validStruct validate (createMonitor_tags req)
           then (e, WriteError 400 reqID InvalidInput ''invalid request'')
           else (case CreateMonitor x \<lparr>cmc_UserID = au_UserID reqClaims, cmc_Url = cmr_Url req,
                   cmc_IntervalSec = cmr_IntervalSec req, cmc_TimeoutSec = cmr_TimeoutSec req,
                   cmc_LatencyThresholdMs = cmr_LatencyThresholdMs req,
                   cmc_ExpectedStatus = cmr_ExpectedStatus req, cmc_AlertEmail = cmr_AlertEmail req\<rparr> e of
               (e', Inl err) \<Rightarrow> (e', FromAppError reqID err)
             | (e', Inr mID) \<Rightarrow> (e', WriteJSON 201 reqID ''monitor created successfully''
                  (CreateMonitorResponse (uuid_string x mID)))))))"

definition monitor_response :: "'k services \<Rightarrow> monitor \<Rightarrow> getMonitorResponse" where
  "monitor_response x mon = \<lparr>gmr_ID = uuid_string x (mon_ID mon), gmr_Url = mon_Url mon,
     gmr_AlertEmail = mon_AlertEmail mon, gmr_IntervalSec = mon_IntervalSec mon,
     gmr_TimeoutSec = mon_TimeoutSec mon, gmr_LatencyThresholdMs = mon_LatencyThresholdMs mon,
     gmr_ExpectedStatus = mon_ExpectedStatus mon, gmr_Enabled = mon_Enabled mon\<rparr>"

definition h_GetMonitor :: "'k services \<Rightarrow> 'k handler" where
  "h_GetMonitor x r e = (let reqID = rq_reqID r in
     case UserFromContext r of
       None \<Rightarrow> (e, WriteError 401 reqID Unauthorised ''user Unauthorised'')
     | Some reqClaims \<Rightarrow> (case uuid_parse x (rq_monitorID r) of
         None \<Rightarrow> (e, WriteError 400 reqID InvalidInput ''invalid input'')
       | Some monitorID \<Rightarrow> (case GetMonitor x (au_UserID reqClaims) monitorID e of
           (e', Inl err) \<Rightarrow> (e', FromAppError reqID err)
         | (e', Inr mon) \<Rightarrow> (e', WriteJSON 200 reqID ''monitor retrieved successfully''
              (MonitorPayload (monitor_response x mon))))))"

definition h_GetAllMonitors :: "'k services \<Rightarrow> 'k handler" where
  "h_GetAllMonitors x r e = (let reqID = rq_reqID r in
     case UserFromContext r of
       None \<Rightarrow> (e, WriteError 401 reqID Unauthorised ''user Unauthorised'')
     | Some reqClaims \<Rightarrow> (case ParseInt32 (rq_limit r) of
         None \<Rightarrow> (e, WriteError 400 reqID InvalidInput ''invalid input'')
       | Some limit0 \<Rightarrow> (case ParseInt32 (rq_offset r) of
           None \<Rightarrow> (e, WriteError 400 reqID InvalidInput ''invalid input'')
         | Some offset0 \<Rightarrow>
            (let limit = (if limit0 \<le> 0 then 10 else limit0); offset = (if offset0 \<le> 0 then 0 else offset0) in
             case GetAllMonitors (au_UserID reqClaims) (word_of_int limit) (word_of_int offset) e of
               (e', Inl err) \<Rightarrow> (e', FromAppError reqID err)
             | (e', Inr mons) \<Rightarrow> (e', WriteJSON 200 reqID ''monitors retrieved successfully''
                  (MonitorsPayload \<lparr>gar_UserID = uuid_string x (au_UserID reqClaims),
                     gar_Limit = word_of_int limit, gar_Offset = word_of_int offset,
                     gar_Monitors = map (monitor_response x) mons\<rparr>))))))"

definition h_UpdateMonitorStatus :: "'k services \<Rightarrow> (tag \<Rightarrow> field \<Rightarrow> bool) \<Rightarrow> 'k handler" where
  "h_UpdateMonitorStatus x validate r e = (let reqID = rq_reqID r in
     case UserFromContext r of
       None \<Rightarrow> (e, WriteError 401 reqID Unauthorised ''user Unauthorised'')
     | Some reqClaims \<Rightarrow> (case uuid_parse x (rq_monitorID r) of
         None \<Rightarrow> (e, WriteError 400 reqID InvalidInput ''invalid input'')
       | Some monitorID \<Rightarrow> (case decode_updateStatus (rq_body r) of
           None \<Rightarrow> (e, WriteError 400 reqID InvalidInput ''invalid request'')
         | Some req \<Rightarrow>
            (if \<not> validStruct validate (updateStatus_tags req)
             then (e, WriteError 400 reqID InvalidInput ''invalid input'')
             else (case UpdateMonitorStatus x (au_UserID reqClaims) monitorID (umr_Enable req) e of
                 (e', Inl err) \<Rightarrow> (e', FromAppError reqID err)
               | (e', Inr _) \<Rightarrow> (e', WriteJSON 200 reqID ''monitor status updated successfully'' (OkPayload ''ok'')))))))"

section \<open>The user handlers (user/handler.go)\<close>

definition h_Register :: "'k services \<Rightarrow> security_libs \<Rightarrow> (tag \<Rightarrow> field \<Rightarrow> bool) \<Rightarrow> 'k handler" where
  "h_Register x sec validate r e = (let reqID = rq_reqID r in
     case decode_register (rq_body r) of
       None \<Rightarrow> (e, WriteError 400 reqID InvalidInput ''invalid request body'')
     | Some req \<Rightarrow>
        (if \<not> validStruct validate (register_tags req)
         then (e, WriteError 400 reqID InvalidInput ''invalid request body'')
         else (case Register sec \<lparr>cuc_Name = rr_Name req, cuc_Email = rr_Email req, cuc_PasswordHash = rr_Password req\<rparr> e of
             (e', Inl err) \<Rightarrow> (e', FromAppError reqID err)
           | (e', Inr i) \<Rightarrow> (e', WriteJSON 201 reqID ''user registered successfully''
                (RegisterResponse (uuid_string x i))))))"

definition h_LogIn :: "'k services \<Rightarrow> security_libs \<Rightarrow> tokenService \<Rightarrow> (tag \<Rightarrow> field \<Rightarrow> bool) \<Rightarrow> 'k handler" where
  "h_LogIn x sec ts validate r e = (let reqID = rq_reqID r in
     case decode_logIn (rq_body r) of
       None \<Rightarrow> (e, WriteError 400 reqID InvalidInput ''invalid request body'')
     | Some req \<Rightarrow>
        (if \<not> validStruct validate (logIn_tags req)
         then (e, WriteError 400 reqID InvalidInput ''invalid request body'')
         else (case LogIn x sec ts \<lparr>luc_Email = lr_Email req, luc_Password = lr_Password req\<rparr> e of
             (e', Inl err) \<Rightarrow> (e', FromAppError reqID err)
           | (e', Inr res) \<Rightarrow> (e', WriteJSON 200 reqID ''user logged in successfully''
                (LogInResponse (uuid_string x (lur_UserID res)) (lur_AccessToken res))))))"

definition h_GetProfile :: "'k services \<Rightarrow> 'k handler" where
  "h_GetProfile x r e = (let reqID = rq_reqID r in
     case UserFromContext r of
       None \<Rightarrow> (e, WriteError 401 reqID Unauthorised ''user unauthorised'')
     | Some reqClaims \<Rightarrow> (case GetProfile (au_UserID reqClaims) e of
         (e', Inl err) \<Rightarrow> (e', FromAppError reqID err)
       | (e', Inr u) \<Rightarrow> (e', WriteJSON 200 reqID ''profile retrieved successfully''
            (ProfilePayload \<lparr>gpr_ID = uuid_string x (usr_ID u), gpr_Name = usr_Name u, gpr_Email = usr_Email u,
               gpr_MonitorsCount = usr_MonitorsCount u, gpr_IsPaidUser = usr_IsPaidUser u\<rparr>))))"

section \<open>Routes\<close>

text \<open>Which route the method and path of a request select is left to the router.\<close>

datatype user_route = PostRegister | PostLogin | GetGetProfile

datatype monitor_route = PostMonitors | GetMonitors | GetMonitorsID | PatchMonitorsID

datatype route = Users user_route | Monitors monitor_route

definition user_Routes :: "'k services \<Rightarrow> security_libs \<Rightarrow> tokenService \<Rightarrow> (tag \<Rightarrow> field \<Rightarrow> bool) \<Rightarrow>
    user_route \<Rightarrow> 'k handler" where
  "user_Routes x sec ts validate rt = (case rt of
     PostRegister \<Rightarrow> h_Register x sec validate
   | PostLogin \<Rightarrow> h_LogIn x sec ts validate
   | GetGetProfile \<Rightarrow> Handle x sec ts (h_GetProfile x))"

definition monitor_Routes :: "'k services \<Rightarrow> (tag \<Rightarrow> field \<Rightarrow> bool) \<Rightarrow> monitor_route \<Rightarrow> 'k handler" where
  "monitor_Routes x validate rt = (case rt of
     PostMonitors \<Rightarrow> h_CreateMonitor x validate
   | GetMonitors \<Rightarrow> h_GetAllMonitors x
   | GetMonitorsID \<Rightarrow> h_GetMonitor x
   | PatchMonitorsID \<Rightarrow> h_UpdateMonitorStatus x validate)"

definition RegisterRoutes :: "'k services \<Rightarrow> security_libs \<Rightarrow> tokenService \<Rightarrow> (tag \<Rightarrow> field \<Rightarrow> bool) \<Rightarrow>
    route \<Rightarrow> 'k handler" where
  "RegisterRoutes x sec ts validate rt = (case rt of
     Users u \<Rightarrow> user_Routes x sec ts validate u
   | Monitors m \<Rightarrow> Handle x sec ts (monitor_Routes x validate m))"

end
