(* ===== verification/Monitor_Laws.thy ===== *)
theory Monitor_Laws
  imports Monitor_Service
begin

text \<open>
  What the monitor service does: the interval arithmetic, the round trip of a cached monitor,
  the effects of scheduling and disabling, and the agreement between cache and database that
  every operation keeps.
\<close>

section \<open>Intervals\<close>

lemma sint_int32_bounds: "- (2 ^ 31) \<le> sint (n :: int32)" "sint (n :: int32) < 2 ^ 31"
  using sint_greater_eq [of n] sint_less [of n] by simp_all

lemma seconds_eq: "seconds n = sint n * Second"
proof -
  have "sint (signed n :: int64) = sint n"
  proof -
    have "(signed n :: int64) = word_of_int (sint n)" by (rule of_int_sint [symmetric])
    then have "sint (signed n :: int64) = signed_take_bit 63 (sint n)" by (simp add: signed_of_int del: of_int_sint)
    also have "\<dots> = sint n"
      using sint_int32_bounds [of n] by (intro signed_take_bit_int_eq_self) simp_all
    finally show ?thesis .
  qed
  then have "seconds n = signed_take_bit 63 (sint n * 1000000000)"
    by (simp add: seconds_def sint_word_ariths(3))
  also have "\<dots> = sint n * 1000000000"
    using sint_int32_bounds [of n] by (intro signed_take_bit_int_eq_self) simp_all
  finally show ?thesis .
qed

section \<open>The cached form\<close>

lemma want_int32_sint [simp]: "want_int32 (JInt (sint n)) = Some n"
  using sint_int32_bounds [of n] by (simp add: want_int32_def)

lemma want_simps [simp]: "want_str (JStr s) = Some s" "want_bool (JBool b) = Some b"
  by (simp_all add: want_str_def want_bool_def)

lemma same_field_refl [simp]: "same_field s s"
  by (simp add: same_field_def)

lemma same_field_length: "same_field s t \<Longrightarrow> length s = length t"
  by (auto simp: same_field_def dest: map_eq_imp_length_eq)

lemma fields_differ [simp]:
  "\<not> same_field ''UserID'' ''ID''" "\<not> same_field ''Url'' ''ID''" "\<not> same_field ''Url'' ''UserID''"
  "\<not> same_field ''AlertEmail'' ''ID''" "\<not> same_field ''AlertEmail'' ''UserID''" "\<not> same_field ''AlertEmail'' ''Url''"
  "\<not> same_field ''IntervalSec'' ''ID''" "\<not> same_field ''IntervalSec'' ''UserID''"
  "\<not> same_field ''IntervalSec'' ''Url''" "\<not> same_field ''IntervalSec'' ''AlertEmail''"
  "\<not> same_field ''TimeoutSec'' ''ID''" "\<not> same_field ''TimeoutSec'' ''UserID''" "\<not> same_field ''TimeoutSec'' ''Url''"
  "\<not> same_field ''TimeoutSec'' ''AlertEmail''" "\<not> same_field ''TimeoutSec'' ''IntervalSec''"
  "\<not> same_field ''LatencyThresholdMs'' ''ID''" "\<not> same_field ''LatencyThresholdMs'' ''UserID''"
  "\<not> same_field ''LatencyThresholdMs'' ''Url''" "\<not> same_field ''LatencyThresholdMs'' ''AlertEmail''"
  "\<not> same_field ''LatencyThresholdMs'' ''IntervalSec''" "\<not> same_field ''LatencyThresholdMs'' ''TimeoutSec''"
  "\<not> same_field ''ExpectedStatus'' ''ID''" "\<not> same_field ''ExpectedStatus'' ''UserID''"
  "\<not> same_field ''ExpectedStatus'' ''Url''" "\<not> same_field ''ExpectedStatus'' ''AlertEmail''"
  "\<not> same_field ''ExpectedStatus'' ''IntervalSec''" "\<not> same_field ''ExpectedStatus'' ''TimeoutSec''"
  "\<not> same_field ''ExpectedStatus'' ''LatencyThresholdMs''"
  "\<not> same_field ''Enabled'' ''ID''" "\<not> same_field ''Enabled'' ''UserID''" "\<not> same_field ''Enabled'' ''Url''"
  "\<not> same_field ''Enabled'' ''AlertEmail''" "\<not> same_field ''Enabled'' ''IntervalSec''"
  "\<not> same_field ''Enabled'' ''TimeoutSec''" "\<not> same_field ''Enabled'' ''LatencyThresholdMs''"
  "\<not> same_field ''Enabled'' ''ExpectedStatus''"
  by (simp_all add: same_field_def lower_def Let_def)

definition ascii_monitor :: "monitor \<Rightarrow> bool" where
  "ascii_monitor m \<longleftrightarrow> ascii (mon_Url m) \<and> ascii (mon_AlertEmail m)"

context monit
begin

lemma want_uuid_string [simp]: "want_uuid x (JStr (uuid_string x u)) = Some u"
  by (simp add: want_uuid_def)

lemma assign_marshal: "assign_members x (marshal_monitor x m) m0 = Some m"
  by (simp add: marshal_monitor_def assign_member_def)

lemma unmarshal_marshal:
  assumes "ascii_monitor m"
  shows "unmarshal_monitor x (json_encode x (marshal_monitor x m)) = Inr m"
proof -
  have "ascii_doc (marshal_monitor x m)"
    using assms by (simp add: ascii_doc_def marshal_monitor_def ascii_monitor_def)
  then show ?thesis by (simp add: unmarshal_monitor_def js.decode_encode assign_marshal)
qed

end

section \<open>Scheduling and disabling\<close>

definition disabled_keys :: "'k services \<Rightarrow> uuid \<Rightarrow> string set" where
  "disabled_keys x u = {monitorKey (uuid_string x u), scheduleKey, incidentKey x u, statusKey x u}"

definition disable_effect :: "'k services \<Rightarrow> uuid \<Rightarrow> keyspace \<Rightarrow> keyspace" where
  "disable_effect x u ks = drop_key (statusKey x u) (drop_key (incidentKey x u)
     (unsched (uuid_string x u) (drop_key (monitorKey (uuid_string x u)) ks)))"

context monit
begin

lemma ScheduleMonitor_best_effort:
  "best_effort x {scheduleKey}
     (sched_at (uuid_string x u) (UnixMilli (clock e (ticks e) + sint n * Second))) e (ScheduleMonitor x u n e)"
proof -
  let ?e1 = "fst (time_now e)" and ?t = "clock e (ticks e) + sint n * Second"
  have "best_effort x {} id e ?e1" by (rule best_effort_time_now)
  from best_effort_trans [OF this Schedule_best_effort [of "uuid_string x u" ?t ?e1]]
  show ?thesis by (simp add: ScheduleMonitor_def case_prod_unfold seconds_eq Let_def)
qed

lemma disableMonitor_best_effort: "best_effort x (disabled_keys x u) (disable_effect x u) e (disableMonitor x u e)"
proof -
  let ?i = "uuid_string x u"
  let ?e1 = "fst (DelMonitor x ?i e)"
  let ?e2 = "fst (DelSchedule x ?i ?e1)"
  let ?e3 = "fst (ClearIncident x u ?e2)"
  note best_effort_trans [OF best_effort_trans [OF best_effort_trans [OF
      DelMonitor_best_effort [of ?i e] DelSchedule_best_effort [of ?i ?e1]]
      ClearIncident_best_effort [of u ?e2]] DelStatus_best_effort [of u ?e3]]
  then show ?thesis
    by (simp add: disableMonitor_def Let_def disabled_keys_def comp_def insert_commute
        disable_effect_def [abs_def])
qed

end

section \<open>Reading rows\<close>

lemma row_monitor_simps [simp]:
  "mon_ID (row_monitor r) = m_ID r" "mon_UserID (row_monitor r) = m_UserID r" "mon_Url (row_monitor r) = m_Url r"
  "mon_IntervalSec (row_monitor r) = m_IntervalSec r" "mon_Enabled (row_monitor r) = m_Enabled r"
  by (simp_all add: row_monitor_def)

lemma repo_Get_result:
  assumes "repo_Get user i e = (e', r)"
  shows "kv e' = kv e" and "db e' = db e" and "later e e'"
    and "\<And>m. r = Inr m \<Longrightarrow> \<exists>row \<in> set (monitors (db e)). m_ID row = i \<and> m_UserID row = user \<and> m = row_monitor row"
    and "reliable e \<Longrightarrow> r = (case one_row (filter (\<lambda>row. m_ID row = i \<and> m_UserID row = user) (monitors (db e))) of
       Inl err \<Rightarrow> Inl (WrapRepoError ''repo.monitor.get'' err True) | Inr row \<Rightarrow> Inr (row_monitor row))"
proof -
  obtain r0 where c: "dcall (getMonitor_sql i user) e = (e', r0)"
    and r: "r = (case r0 of Inl err \<Rightarrow> Inl (WrapRepoError ''repo.monitor.get'' err True)
      | Inr row \<Rightarrow> Inr (row_monitor row))"
    using assms by (auto simp: repo_Get_def split: prod.splits sum.splits)
  note res = dcall_result [OF c]
  show "kv e' = kv e" "db e' = db e" "later e e'"
    using res(1) by (auto simp: ran_def getMonitor_sql_def)
  show "\<exists>row \<in> set (monitors (db e)). m_ID row = i \<and> m_UserID row = user \<and> m = row_monitor row" if "r = Inr m" for m
    using that r res(2) by (auto simp: getMonitor_sql_def dest!: one_row_Inr split: sum.splits)
  show "r = (case one_row (filter (\<lambda>row. m_ID row = i \<and> m_UserID row = user) (monitors (db e))) of
       Inl err \<Rightarrow> Inl (WrapRepoError ''repo.monitor.get'' err True) | Inr row \<Rightarrow> Inr (row_monitor row))"
    if "reliable e"
    using res(3) [OF that] r by (auto simp: getMonitor_sql_def)
qed

lemma repo_GetByID_result:
  assumes "repo_GetByID i e = (e', r)"
  shows "kv e' = kv e" and "db e' = db e" and "later e e'"
    and "\<And>m. r = Inr m \<Longrightarrow> \<exists>row \<in> set (monitors (db e)). m_ID row = i \<and> m = row_monitor row"
    and "reliable e \<Longrightarrow> r = (case one_row (filter (\<lambda>row. m_ID row = i) (monitors (db e))) of
       Inl err \<Rightarrow> Inl (WrapRepoError ''repo.monitor.get_by_id'' err True) | Inr row \<Rightarrow> Inr (row_monitor row))"
proof -
  obtain r0 where c: "dcall (getMonitorByID_sql i) e = (e', r0)"
    and r: "r = (case r0 of Inl err \<Rightarrow> Inl (WrapRepoError ''repo.monitor.get_by_id'' err True)
      | Inr row \<Rightarrow> Inr (row_monitor row))"
    using assms by (auto simp: repo_GetByID_def split: prod.splits sum.splits)
  note res = dcall_result [OF c]
  show "kv e' = kv e" "db e' = db e" "later e e'"
    using res(1) by (auto simp: ran_def getMonitorByID_sql_def)
  show "\<exists>row \<in> set (monitors (db e)). m_ID row = i \<and> m = row_monitor row" if "r = Inr m" for m
    using that r res(2) by (auto simp: getMonitorByID_sql_def dest!: one_row_Inr split: sum.splits)
  show "r = (case one_row (filter (\<lambda>row. m_ID row = i) (monitors (db e))) of
       Inl err \<Rightarrow> Inl (WrapRepoError ''repo.monitor.get_by_id'' err True) | Inr row \<Rightarrow> Inr (row_monitor row))"
    if "reliable e"
    using res(3) [OF that] r by (auto simp: getMonitorByID_sql_def)
qed

lemma repo_SetEnabled_result:
  assumes "repo_SetEnabled user i b e = (e', r)"
  shows "ran (updateMonitorStatus_sql i b user) e e'"
    and "r = None \<Longrightarrow> db e' = fst (updateMonitorStatus_sql i b user (db e))"
    and "reliable e \<Longrightarrow> \<exists>row \<in> set (monitors (db e)). m_ID row = i \<and> m_UserID row = user \<Longrightarrow> r = None"
proof -
  obtain r0 where c: "dcall (updateMonitorStatus_sql i b user) e = (e', r0)"
    and r: "r = (case r0 of Inl err \<Rightarrow> Some (WrapRepoError ''repo.monitor.enable_disable_monitor'' err False)
      | Inr rows \<Rightarrow> if rows = 0 then Some (AppError NotFound ''repo.monitor.enable_disable_monitor'' None
          ''resource not found'' None) else None)"
    using assms by (auto simp: repo_SetEnabled_def Let_def split: prod.splits sum.splits)
  note res = dcall_result [OF c]
  show "ran (updateMonitorStatus_sql i b user) e e'" by (rule res(1))
  show "r = None \<Longrightarrow> db e' = fst (updateMonitorStatus_sql i b user (db e))"
    using r res(2) by (cases r0) auto
  show "r = None" if "reliable e" "\<exists>row \<in> set (monitors (db e)). m_ID row = i \<and> m_UserID row = user"
    using res(3) [OF that(1)] that(2) r
    by (auto simp: updateMonitorStatus_sql_def filter_empty_conv)
qed

lemma repo_Create_ran:
  assumes "repo_Create cmd e = (e', r)"
  shows "\<exists>p. ran (createMonitor_sql (gen e (ticks e)) (clock e (ticks e)) p) e e' \<and> p_Url p = cmc_Url cmd \<and>
      p_AlertEmail p = ToPgText (cmc_AlertEmail cmd) \<and> p_UserID p = cmc_UserID cmd \<and>
      p_IntervalSec p = cmc_IntervalSec cmd \<and>
      (\<forall>i. r = Inr i \<longrightarrow> createMonitor_sql (gen e (ticks e)) (clock e (ticks e)) p (db e) = (db e', Inr i))"
proof -
  let ?p = "\<lparr>p_UserID = cmc_UserID cmd, p_Url = cmc_Url cmd, p_IntervalSec = cmc_IntervalSec cmd,
        p_TimeoutSec = cmc_TimeoutSec cmd, p_LatencyThresholdMs = cmc_LatencyThresholdMs cmd,
        p_ExpectedStatus = cmc_ExpectedStatus cmd, p_AlertEmail = ToPgText (cmc_AlertEmail cmd)\<rparr>"
  obtain r0 where c: "dcall (createMonitor_sql (gen e (ticks e)) (clock e (ticks e)) ?p) e = (e', r0)"
    and r: "r = (case r0 of Inl err \<Rightarrow> Inl (WrapRepoError ''repo.monitor.create'' err False) | Inr i \<Rightarrow> Inr i)"
    using assms by (auto simp: repo_Create_def split: prod.splits sum.splits)
  have "r = Inr i \<Longrightarrow> createMonitor_sql (gen e (ticks e)) (clock e (ticks e)) ?p (db e) = (db e', Inr i)" for i
    using dcall_result(2) [OF c, of i] r by (cases r0) auto
  with dcall_result(1) [OF c] show ?thesis by (intro exI [of _ ?p]) simp
qed

section \<open>Cache and database agree\<close>

text \<open>
  A monitor is never changed after its creation except for its \<^verbatim>\<open>Enabled\<close> flag, so whatever
  the cache holds is the row of the database up to that flag.
\<close>

definition cache_agrees :: "'k services \<Rightarrow> tables \<Rightarrow> keyspace \<Rightarrow> bool" where
  "cache_agrees x T ks \<longleftrightarrow> (\<forall>u data. str ks (monitorKey (uuid_string x u)) = Some data \<longrightarrow>
     (\<exists>row \<in> set (monitors T). m_ID row = u \<and>
        (\<exists>b. unmarshal_monitor x data = Inr ((row_monitor row)\<lparr>mon_Enabled := b\<rparr>))))"

definition ascii_tables :: "tables \<Rightarrow> bool" where
  "ascii_tables T \<longleftrightarrow> (\<forall>row \<in> set (monitors T). ascii_monitor (row_monitor row))"

definition service_inv :: "'k services \<Rightarrow> 'k world \<Rightarrow> bool" where
  "service_inv x e \<longleftrightarrow> typed x (vw x e) \<and> wf_tables (db e) \<and> within_quota (db e) \<and>
     ascii_tables (db e) \<and> cache_agrees x (db e) (vw x e)"

lemma row_monitor_enabled:
  "row_monitor (set_enabled i b user r) = (row_monitor r)\<lparr>mon_Enabled := m_Enabled (set_enabled i b user r)\<rparr>"
  by (simp add: row_monitor_def set_enabled_def)

lemma ascii_monitor_enabled [simp]: "ascii_monitor (m\<lparr>mon_Enabled := b\<rparr>) = ascii_monitor m"
  by (simp add: ascii_monitor_def)

lemma ascii_set_enabled [simp]:
  "ascii_monitor (row_monitor (set_enabled i b user r)) = ascii_monitor (row_monitor r)"
  by (simp add: row_monitor_enabled)

lemma monitors_statements [simp]:
  "monitors (fst (incrementMonitorCount_sql i T)) = monitors T"
  "users (fst (updateMonitorStatus_sql i b user T)) = users T"
  "users (fst (createMonitor_sql i now p T)) = users T"
  by (simp_all add: incrementMonitorCount_sql_def updateMonitorStatus_sql_def createMonitor_sql_def Let_def)

lemma monitors_createMonitor: "set (monitors (fst (createMonitor_sql i now p T))) \<subseteq>
    insert (new_monitor_row i now p) (set (monitors T)) \<and>
  set (monitors T) \<subseteq> set (monitors (fst (createMonitor_sql i now p T)))"
  by (auto simp: createMonitor_sql_def Let_def)

lemma monitors_updateMonitorStatus:
  "set (monitors (fst (updateMonitorStatus_sql i b user T))) = set_enabled i b user ` set (monitors T)"
  by (simp add: updateMonitorStatus_sql_def)

lemma cache_agrees_mono:
  "cache_agrees x T ks \<Longrightarrow> set (monitors T) \<subseteq> set (monitors T') \<Longrightarrow> cache_agrees x T' ks"
  unfolding cache_agrees_def by blast

lemma cache_agrees_update:
  assumes "cache_agrees x T ks"
  shows "cache_agrees x (fst (updateMonitorStatus_sql i b user T)) ks"
  unfolding cache_agrees_def
proof (intro allI impI)
  fix u data assume "str ks (monitorKey (uuid_string x u)) = Some data"
  then obtain row b' where row: "row \<in> set (monitors T)" "m_ID row = u"
    "unmarshal_monitor x data = Inr ((row_monitor row)\<lparr>mon_Enabled := b'\<rparr>)"
    using assms unfolding cache_agrees_def by blast
  then show "\<exists>row' \<in> set (monitors (fst (updateMonitorStatus_sql i b user T))). m_ID row' = u \<and>
      (\<exists>b. unmarshal_monitor x data = Inr ((row_monitor row')\<lparr>mon_Enabled := b\<rparr>))"
    by (intro bexI [of _ "set_enabled i b user row"])
      (auto simp: monitors_updateMonitorStatus row_monitor_enabled)
qed

context monit
begin

lemma cache_agrees_touches:
  assumes "cache_agrees x T ks" and "touches K ks ks'" and "\<And>u. monitorKey (uuid_string x u) \<notin> K"
  shows "cache_agrees x T ks'"
  using assms touches_views(4) [OF assms(2)] by (simp add: cache_agrees_def)

lemma cache_agrees_drop:
  "cache_agrees x T ks \<Longrightarrow> cache_agrees x T (drop_key k ks)"
  by (simp add: cache_agrees_def)

lemma cache_agrees_put:
  assumes "cache_agrees x T ks" and "row \<in> set (monitors T)" and "ascii_monitor (row_monitor row)"
  shows "cache_agrees x T (put_ttl (monitorKey (uuid_string x (m_ID row))) d
     (put_str (monitorKey (uuid_string x (m_ID row))) (json_encode x (marshal_monitor x (row_monitor row))) ks))"
proof -
  have "row_monitor row = (row_monitor row)\<lparr>mon_Enabled := m_Enabled row\<rparr>"
    by (simp add: row_monitor_def)
  with unmarshal_marshal [OF assms(3)] have
    "unmarshal_monitor x (json_encode x (marshal_monitor x (row_monitor row))) =
      Inr ((row_monitor row)\<lparr>mon_Enabled := m_Enabled row\<rparr>)" by metis
  with assms(1,2) show ?thesis by (auto simp: cache_agrees_def)
qed

lemma cacheMonitor_result:
  assumes "service_inv x e" and "row \<in> set (monitors (db e))"
  shows "service_inv x (fst (cacheMonitor x (row_monitor row) e))"
    and "later e (fst (cacheMonitor x (row_monitor row) e))"
    and "db (fst (cacheMonitor x (row_monitor row) e)) = db e"
proof -
  let ?i = "uuid_string x (m_ID row)" and ?d = "json_encode x (marshal_monitor x (row_monitor row))"
  let ?e' = "fst (cacheMonitor x (row_monitor row) e)"
  note ap = SetMonitor_applied [of ?i "24 * Hour" ?d e]
  have e': "?e' = fst (SetMonitor x ?i ?d (24 * Hour) e)" by (simp add: cacheMonitor_def)
  show "later e ?e'" and db: "db ?e' = db e" using appliedD(3,4) [OF ap] e' by simp_all
  have "ascii_monitor (row_monitor row)" using assms by (auto simp: service_inv_def ascii_tables_def)
  with assms have "cache_agrees x (db e) (put_ttl (monitorKey ?i) (24 * Hour) (put_str (monitorKey ?i) ?d (vw x e)))"
    by (intro cache_agrees_put) (auto simp: service_inv_def)
  then show "service_inv x ?e'"
    using appliedD(2) [OF ap] assms(1) db e' by (auto simp: service_inv_def)
qed

lemma getCachedMonitor_result:
  assumes "getCachedMonitor x i e = (e', r)"
  shows "vw x e' = vw x e" and "db e' = db e" and "later e e'"
    and "\<And>m. cache_agrees x (db e) (vw x e) \<Longrightarrow> r = Inr m \<Longrightarrow>
      \<exists>row \<in> set (monitors (db e)). m_ID row = i \<and> (\<exists>b. m = (row_monitor row)\<lparr>mon_Enabled := b\<rparr>)"
    and "\<And>data. reliable e \<Longrightarrow> str (vw x e) (monitorKey (uuid_string x i)) = Some data \<Longrightarrow>
      r = unmarshal_monitor x data"
    and "reliable e \<Longrightarrow> vals (vw x e) (monitorKey (uuid_string x i)) = None \<Longrightarrow> \<exists>er. r = Inl er"
proof -
  obtain r0 where c: "GetMonitor_cache x (uuid_string x i) e = (e', r0)"
    and r: "r = (case r0 of Inl err \<Rightarrow> Inl err | Inr data \<Rightarrow> unmarshal_monitor x data)"
    using assms by (auto simp: getCachedMonitor_def split: prod.splits sum.splits)
  note res = GetMonitor_cache_result [OF c]
  show "vw x e' = vw x e" "db e' = db e" "later e e'" using res(1-3) by simp_all
  show "\<exists>row \<in> set (monitors (db e)). m_ID row = i \<and> (\<exists>b. m = (row_monitor row)\<lparr>mon_Enabled := b\<rparr>)"
    if ag: "cache_agrees x (db e) (vw x e)" and m: "r = Inr m" for m
  proof -
    obtain data where "r0 = Inr data" "unmarshal_monitor x data = Inr m"
      using r m by (auto split: sum.splits)
    with res(4) ag show ?thesis unfolding cache_agrees_def by fastforce
  qed
  show "r = unmarshal_monitor x data"
    if "reliable e" "str (vw x e) (monitorKey (uuid_string x i)) = Some data" for data
    using res(5) [OF that] r by simp
  show "\<exists>er. r = Inl er" if "reliable e" "vals (vw x e) (monitorKey (uuid_string x i)) = None"
    using res(6) [OF that] r by auto
qed

end

end
