(* ===== verification/Monitor_Ops.thy ===== *)
theory Monitor_Ops
  imports Monitor_Laws
begin

text \<open>
  The operations of the monitor service against the invariant \<open>service_inv\<close>: each keeps it in
  every environment, and each result is the row it should be.
\<close>

section \<open>Moving the invariant\<close>

lemma service_inv_same:
  "service_inv x e \<Longrightarrow> vw x e' = vw x e \<Longrightarrow> db e' = db e \<Longrightarrow> service_inv x e'"
  by (simp add: service_inv_def)

lemma kv_vw: "kv e' = kv e \<Longrightarrow> vw x e' = vw x e"
  by (simp add: vw_def)

lemma service_inv_ran:
  assumes "service_inv x e" and "ran stmt e e'" and "wf_tables (fst (stmt (db e)))"
    and "within_quota (fst (stmt (db e)))" and "ascii_tables (fst (stmt (db e)))"
    and "cache_agrees x (fst (stmt (db e))) (vw x e)"
  shows "service_inv x e'"
  using assms ran_vw [OF assms(2), of x] by (auto simp: service_inv_def ran_def)

lemma service_inv_update:
  assumes "service_inv x e" and "ran (updateMonitorStatus_sql i b user) e e'"
  shows "service_inv x e'"
proof (rule service_inv_ran [OF assms])
  show "wf_tables (fst (updateMonitorStatus_sql i b user (db e)))"
    using assms(1) by (simp add: service_inv_def wf_statements)
  show "within_quota (fst (updateMonitorStatus_sql i b user (db e)))"
    using assms(1) by (simp add: service_inv_def within_quota_def)
  show "ascii_tables (fst (updateMonitorStatus_sql i b user (db e)))"
    using assms(1) by (simp add: service_inv_def ascii_tables_def monitors_updateMonitorStatus)
  show "cache_agrees x (fst (updateMonitorStatus_sql i b user (db e))) (vw x e)"
    using assms(1) by (simp add: service_inv_def cache_agrees_update)
qed

lemma service_inv_increment:
  assumes "service_inv x e" and "ran (incrementMonitorCount_sql i) e e'"
  shows "service_inv x e'"
proof (rule service_inv_ran [OF assms])
  show "wf_tables (fst (incrementMonitorCount_sql i (db e)))"
    "within_quota (fst (incrementMonitorCount_sql i (db e)))"
    using assms(1) by (simp_all add: service_inv_def wf_statements within_quota_increment)
  show "ascii_tables (fst (incrementMonitorCount_sql i (db e)))"
    "cache_agrees x (fst (incrementMonitorCount_sql i (db e))) (vw x e)"
    using assms(1) by (simp_all add: service_inv_def ascii_tables_def cache_agrees_def)
qed

lemma service_inv_create:
  assumes "service_inv x e" and "ran (createMonitor_sql i now p) e e'"
    and "ascii (p_Url p)" and "ascii (FromPgText (p_AlertEmail p))"
  shows "service_inv x e'"
proof (rule service_inv_ran [OF assms(1,2)])
  note sub = monitors_createMonitor [of i now p "db e"]
  show "wf_tables (fst (createMonitor_sql i now p (db e)))"
    "within_quota (fst (createMonitor_sql i now p (db e)))"
    using assms(1) by (simp_all add: service_inv_def wf_statements within_quota_def)
  have "ascii_monitor (row_monitor (new_monitor_row i now p))"
    using assms(3,4) by (simp add: ascii_monitor_def new_monitor_row_def row_monitor_def)
  with assms(1) sub show "ascii_tables (fst (createMonitor_sql i now p (db e)))"
    by (auto simp: service_inv_def ascii_tables_def)
  show "cache_agrees x (fst (createMonitor_sql i now p (db e))) (vw x e)"
    using assms(1) sub by (auto simp: service_inv_def intro: cache_agrees_mono)
qed

context monit
begin

lemma service_inv_best_effort:
  assumes "service_inv x e" and "best_effort x K f e e'" and "\<And>u. monitorKey (uuid_string x u) \<notin> K"
  shows "service_inv x e'"
  using assms(1) best_effortD [OF assms(2)] cache_agrees_touches [OF _ _ assms(3)]
  by (auto simp: service_inv_def)

lemma ScheduleMonitor_inv: "service_inv x e \<Longrightarrow> service_inv x (ScheduleMonitor x u n e)"
  by (rule service_inv_best_effort [OF _ ScheduleMonitor_best_effort]) simp_all

lemma store_inv:
  assumes "service_inv x e"
  shows "service_inv x (fst (Schedule x m t e))" "service_inv x (fst (DelSchedule x m e))"
    "service_inv x (fst (AckJob x m e))" "service_inv x (fst (DelStatus x u e))"
    "service_inv x (fst (ClearIncident x u e))" "service_inv x (fst (ClearRetry x u e))"
    "service_inv x (fst (MarkDBIncidentCreated x u e))" "service_inv x (fst (StoreStatus x u c l t e))"
  using assms
  by (auto elim!: service_inv_best_effort [OF _ Schedule_best_effort]
      service_inv_best_effort [OF _ DelSchedule_best_effort] service_inv_best_effort [OF _ AckJob_best_effort]
      service_inv_best_effort [OF _ DelStatus_best_effort] service_inv_best_effort [OF _ ClearIncident_best_effort]
      service_inv_best_effort [OF _ ClearRetry_best_effort] service_inv_best_effort [OF _ StoreStatus_best_effort]
      service_inv_best_effort [OF _ MarkDBIncidentCreated_best_effort])

lemma disableMonitor_inv:
  assumes "service_inv x e"
  shows "service_inv x (disableMonitor x u e)"
proof -
  let ?i = "uuid_string x u"
  let ?e1 = "fst (DelMonitor x ?i e)"
  have "vw x ?e1 = vw x e \<or> vw x ?e1 = drop_key (monitorKey ?i) (vw x e)" "db ?e1 = db e"
    using appliedD(2,4) [OF DelMonitor_applied] by blast+
  then have "service_inv x ?e1"
    using assms by (auto simp: service_inv_def cache_agrees_drop)
  then show ?thesis
    by (simp add: disableMonitor_def Let_def store_inv)
qed

end

section \<open>Loading\<close>

definition is_row :: "tables \<Rightarrow> uuid \<Rightarrow> monitor \<Rightarrow> bool" where
  "is_row T i m \<longleftrightarrow> (\<exists>row \<in> set (monitors T). m_ID row = i \<and> (\<exists>b. m = (row_monitor row)\<lparr>mon_Enabled := b\<rparr>))"

lemma is_rowD: "is_row T i m \<Longrightarrow> mon_ID m = i \<and> i \<in> m_ID ` set (monitors T)"
  by (auto simp: is_row_def image_iff)

lemma is_row_row: "row \<in> set (monitors T) \<Longrightarrow> is_row T (m_ID row) (row_monitor row)"
  unfolding is_row_def by (rule bexI [of _ row], rule conjI, simp, rule exI [of _ "m_Enabled row"])
    (simp_all add: row_monitor_def)

context monit
begin

lemma cacheMonitor_touches:
  "touches {monitorKey (uuid_string x (mon_ID m))} (vw x e) (vw x (fst (cacheMonitor x m e)))"
  unfolding cacheMonitor_def by (rule applied_touches [OF SetMonitor_applied]) auto

lemma LoadMonitor_result:
  assumes inv: "service_inv x e" and run: "LoadMonitor x i e = (e', r)"
  shows "service_inv x e' \<and> later e e' \<and> db e' = db e \<and>
    touches {monitorKey (uuid_string x i)} (vw x e) (vw x e') \<and> (\<forall>m. r = Inr m \<longrightarrow> is_row (db e) i m)"
proof -
  obtain e1 r1 where c: "getCachedMonitor x i e = (e1, r1)" by (cases "getCachedMonitor x i e")
  note cr = getCachedMonitor_result [OF c]
  have inv1: "service_inv x e1" using inv cr(1,2) by (rule service_inv_same)
  show ?thesis
  proof (cases r1)
    case (Inr m)
    then have "e' = e1" "r = Inr m" using run c by (simp_all add: LoadMonitor_def)
    moreover have "is_row (db e) i m"
      using cr(4) [of m] inv Inr by (simp add: service_inv_def is_row_def)
    ultimately show ?thesis using inv1 cr(1-3) by simp
  next
    case (Inl er)
    obtain e2 r2 where g: "repo_GetByID i e1 = (e2, r2)" by (cases "repo_GetByID i e1")
    note gr = repo_GetByID_result [OF g]
    have e2: "service_inv x e2" "later e e2" "db e2 = db e" "vw x e2 = vw x e"
      using inv1 gr(1-3) cr(1-3) kv_vw [OF gr(1)] by (auto intro: service_inv_same later_trans)
    show ?thesis
    proof (cases r2)
      case (Inl err)
      then have "e' = e2" "r = Inl err" using run c g \<open>r1 = Inl er\<close> by (simp_all add: LoadMonitor_def)
      with e2 show ?thesis by simp
    next
      case (Inr mDB)
      then obtain row where row: "row \<in> set (monitors (db e2))" "m_ID row = i" "mDB = row_monitor row"
        using gr(2,4) by auto
      have e': "e' = fst (cacheMonitor x mDB e2)" "r = Inr mDB"
        using run c g \<open>r1 = Inl er\<close> Inr by (simp_all add: LoadMonitor_def)
      with cacheMonitor_result [OF e2(1) row(1)] cacheMonitor_touches [of mDB e2] e2 row is_row_row [OF row(1)]
      show ?thesis by (auto intro: later_trans)
    qed
  qed
qed

lemma GetMonitor_result:
  assumes inv: "service_inv x e" and run: "GetMonitor x user i e = (e', r)"
  shows "service_inv x e' \<and> later e e' \<and> db e' = db e \<and>
    touches {monitorKey (uuid_string x i)} (vw x e) (vw x e') \<and>
    (\<forall>m. r = Inr m \<longrightarrow> is_row (db e) i m \<and> mon_UserID m = user)"
proof -
  obtain e1 r1 where c: "getCachedMonitor x i e = (e1, r1)" by (cases "getCachedMonitor x i e")
  note cr = getCachedMonitor_result [OF c]
  have inv1: "service_inv x e1" using inv cr(1,2) by (rule service_inv_same)
  show ?thesis
  proof (cases "\<exists>m. r1 = Inr m \<and> mon_UserID m = user")
    case True
    then obtain m where m: "r1 = Inr m" "mon_UserID m = user" by blast
    then have "e' = e1" "r = Inr m" using run c by (simp_all add: GetMonitor_def Let_def)
    moreover have "is_row (db e) i m"
      using cr(4) [of m] inv m by (simp add: service_inv_def is_row_def)
    ultimately show ?thesis using inv1 cr(1-3) m by simp
  next
    case False
    then have miss: "(case repo_Get user i e1 of (e2, Inl err) \<Rightarrow> (e2, Inl err)
        | (e2, Inr mDB) \<Rightarrow> (fst (cacheMonitor x mDB e2), Inr mDB)) = (e', r)"
      using run c by (cases r1) (auto simp: GetMonitor_def Let_def)
    obtain e2 r2 where g: "repo_Get user i e1 = (e2, r2)" by (cases "repo_Get user i e1")
    note gr = repo_Get_result [OF g]
    have e2: "service_inv x e2" "later e e2" "db e2 = db e" "vw x e2 = vw x e"
      using inv1 gr(1-3) cr(1-3) kv_vw [OF gr(1)] by (auto intro: service_inv_same later_trans)
    show ?thesis
    proof (cases r2)
      case (Inl err)
      with miss g have "e' = e2" "r = Inl err" by simp_all
      with e2 show ?thesis by simp
    next
      case (Inr mDB)
      then obtain row where row: "row \<in> set (monitors (db e2))" "m_ID row = i" "m_UserID row = user"
          "mDB = row_monitor row"
        using gr(2,4) by auto
      from miss g Inr have "e' = fst (cacheMonitor x mDB e2)" "r = Inr mDB" by simp_all
      with cacheMonitor_result [OF e2(1) row(1)] cacheMonitor_touches [of mDB e2] e2 row is_row_row [OF row(1)]
      show ?thesis by (auto intro: later_trans)
    qed
  qed
qed

end

section \<open>Switching a monitor on and off\<close>

lemma map_set_enabled_same:
  assumes "\<And>row. row \<in> set ms \<Longrightarrow> m_ID row = i \<Longrightarrow> m_UserID row = user \<Longrightarrow> m_Enabled row = b"
  shows "map (set_enabled i b user) ms = ms"
  using assms by (intro map_idI) (auto simp: set_enabled_def)

lemma updateMonitorStatus_same:
  assumes "wf_tables T" and "row \<in> set (monitors T)" and "m_ID row = i" and "m_Enabled row = b"
  shows "fst (updateMonitorStatus_sql i b user T) = T"
proof -
  have "m_Enabled r = b" if "r \<in> set (monitors T)" "m_ID r = i" for r
  proof -
    have "r = row" using assms(1-3) that by (auto simp: wf_tables_def distinct_map dest: inj_onD)
    with assms(4) show ?thesis by simp
  qed
  then have "map (set_enabled i b user) (monitors T) = monitors T"
    by (intro map_set_enabled_same)
  then show ?thesis by (simp add: updateMonitorStatus_sql_def)
qed

context monit
begin

lemma UpdateMonitorStatus_cases:
  assumes "UpdateMonitorStatus x user i b e = (e', r)"
  obtains (refused) err where "repo_Get user i e = (e', Inl err)" "r = Inl err"
  | (same) m where "repo_Get user i e = (e', Inr m)" "mon_Enabled m = b" "r = Inr True"
  | (failed) e1 m err where "repo_Get user i e = (e1, Inr m)"
      "repo_SetEnabled user i b e1 = (e', Some err)" "r = Inl err"
  | (switched) e1 m e2 where "repo_Get user i e = (e1, Inr m)" "mon_Enabled m \<noteq> b"
      "repo_SetEnabled user i b e1 = (e2, None)" "r = Inr True"
      "e' = (if b then ScheduleMonitor x (mon_ID m) (mon_IntervalSec m) e2 else disableMonitor x i e2)"
proof (cases "repo_Get user i e")
  case (Pair e1 g)
  show thesis
  proof (cases g)
    case (Inl err)
    with Pair assms refused show ?thesis by (simp add: UpdateMonitorStatus_def)
  next
    case (Inr m)
    obtain e2 s where "repo_SetEnabled user i b e1 = (e2, s)" by (cases "repo_SetEnabled user i b e1")
    with Pair Inr assms same failed switched show ?thesis
      by (cases s) (auto simp: UpdateMonitorStatus_def split: if_splits)
  qed
qed

lemma switch_best_effort:
  "best_effort x (disabled_keys x i) (if b then sched_at (uuid_string x u)
      (UnixMilli (clock e (ticks e) + sint n * Second)) else disable_effect x i) e
    (if b then ScheduleMonitor x u n e else disableMonitor x i e)"
proof (cases b)
  case True
  then show ?thesis
    using best_effort_mono [OF ScheduleMonitor_best_effort, of "disabled_keys x i" u e n]
    by (simp add: disabled_keys_def)
qed (simp add: disableMonitor_best_effort)

lemma UpdateMonitorStatus_result:
  assumes inv: "service_inv x e" and run: "UpdateMonitorStatus x user i b e = (e', r)"
  shows "service_inv x e' \<and> later e e' \<and> touches (disabled_keys x i) (vw x e) (vw x e') \<and>
    (\<forall>c. r = Inr c \<longrightarrow> c \<and> db e' = fst (updateMonitorStatus_sql i b user (db e)) \<and>
      (\<exists>row \<in> set (monitors (db e)). m_ID row = i \<and> m_UserID row = user))"
  using run
proof (cases rule: UpdateMonitorStatus_cases)
  case (refused err)
  note gr = repo_Get_result [OF refused(1)]
  show ?thesis using inv gr(2,3) kv_vw [OF gr(1)] refused(2) by (auto intro: service_inv_same)
next
  case (same m)
  note gr = repo_Get_result [OF same(1)]
  obtain row where row: "row \<in> set (monitors (db e))" "m_ID row = i" "m_UserID row = user" "m = row_monitor row"
    using gr(4) by blast
  then have "fst (updateMonitorStatus_sql i b user (db e)) = db e"
    using inv same(2) by (intro updateMonitorStatus_same [of _ row]) (simp_all add: service_inv_def)
  then show ?thesis
    using inv gr(2,3) kv_vw [OF gr(1)] same(3) row by (auto intro: service_inv_same)
next
  case (failed e1 m err)
  note gr = repo_Get_result [OF failed(1)] and sr = repo_SetEnabled_result(1) [OF failed(2)]
  have "service_inv x e1" using inv kv_vw [OF gr(1)] gr(2) by (rule service_inv_same)
  then show ?thesis
    using service_inv_update [OF _ sr] ran_later [OF sr] ran_vw [OF sr] kv_vw [OF gr(1)] gr(3) failed(3)
    by (auto intro: later_trans)
next
  case (switched e1 m e2)
  note gr = repo_Get_result [OF switched(1)] and sr = repo_SetEnabled_result [OF switched(3)]
  have inv1: "service_inv x e1" using inv kv_vw [OF gr(1)] gr(2) by (rule service_inv_same)
  obtain row where row: "row \<in> set (monitors (db e))" "m_ID row = i" "m_UserID row = user"
    using gr(4) by blast
  have "service_inv x e'"
    using service_inv_update [OF inv1 sr(1)] switched(5) by (simp add: ScheduleMonitor_inv disableMonitor_inv)
  moreover note best_effortD [OF switch_best_effort [of i b "mon_ID m" e2 "mon_IntervalSec m",
        folded switched(5)]]
  moreover have "later e e2" using ran_later [OF sr(1)] gr(3) by (rule later_trans [rotated])
  moreover have "vw x e2 = vw x e" using ran_vw [OF sr(1)] kv_vw [OF gr(1)] by simp
  moreover have "db e2 = fst (updateMonitorStatus_sql i b user (db e))" using sr(2) gr(2) by simp
  ultimately show ?thesis using switched(4) row by (auto intro: later_trans)
qed

end

section \<open>When every call is delivered\<close>

lemma one_row_key:
  assumes "wf_tables T"
  shows "one_row (filter (\<lambda>row. m_ID row = i) (monitors T)) = Inr row \<longleftrightarrow> row \<in> set (monitors T) \<and> m_ID row = i"
proof
  assume "row \<in> set (monitors T) \<and> m_ID row = i"
  with assms filter_key_unique [of m_ID "monitors T" row]
  show "one_row (filter (\<lambda>row. m_ID row = i) (monitors T)) = Inr row" by (auto simp: wf_tables_def)
qed (auto dest: one_row_Inr)

lemma one_row_Inl: "one_row rs = Inl err \<Longrightarrow> rs = [] \<and> err = ErrNoRows"
  by (cases rs) simp_all

lemma errors_Is_ErrNoRows [simp]:
  "errors_Is ErrNoRows ErrNoRows" "\<not> errors_Is ErrNoRows Canceled" "\<not> errors_Is ErrNoRows DeadlineExceeded"
  by (simp_all add: errors_Is_def)

context monit
begin

lemma LoadMonitor_reliable:
  assumes inv: "service_inv x e" and rel: "reliable e" and run: "LoadMonitor x i e = (e', r)"
  shows "if i \<in> m_ID ` set (monitors (db e)) then \<exists>m. r = Inr m \<and> is_row (db e) i m
    else \<exists>err. r = Inl err \<and> IsKind err NotFound"
proof -
  obtain e1 r1 where c: "getCachedMonitor x i e = (e1, r1)" by (cases "getCachedMonitor x i e")
  note cr = getCachedMonitor_result [OF c]
  obtain e2 r2 where g: "repo_GetByID i e1 = (e2, r2)" by (cases "repo_GetByID i e1")
  note gr = repo_GetByID_result [OF g]
  have r2: "r2 = (case one_row (filter (\<lambda>row. m_ID row = i) (monitors (db e))) of
       Inl err \<Rightarrow> Inl (WrapRepoError ''repo.monitor.get_by_id'' err True) | Inr row \<Rightarrow> Inr (row_monitor row))"
    using gr(5) rel cr(2,3) by (simp add: reliable_later)
  have wf: "wf_tables (db e)" using inv by (simp add: service_inv_def)
  have row: "is_row (db e) i m" if "r = Inr m" for m
    using LoadMonitor_result [OF inv run] that by blast
  show ?thesis
  proof (cases r1)
    case (Inr m)
    then have r: "r = Inr m" using run c by (simp add: LoadMonitor_def)
    moreover have "i \<in> m_ID ` set (monitors (db e))" using row [OF r] by (auto simp: is_row_def)
    ultimately show ?thesis using row by simp
  next
    case (Inl er)
    then have r: "r = (case r2 of Inl err \<Rightarrow> Inl err | Inr mDB \<Rightarrow> Inr mDB)"
      using run c g by (auto simp: LoadMonitor_def split: sum.splits)
    show ?thesis
    proof (cases "i \<in> m_ID ` set (monitors (db e))")
      case True
      then obtain rw where "rw \<in> set (monitors (db e))" "m_ID rw = i" by auto
      then have "r = Inr (row_monitor rw)"
        using r r2 one_row_key [OF wf, of i rw] by simp
      with True row show ?thesis by simp
    next
      case False
      then have "filter (\<lambda>row. m_ID row = i) (monitors (db e)) = []" by (auto simp: filter_empty_conv)
      then show ?thesis using False r r2 by (simp add: WrapRepoError_not_NotFound)
    qed
  qed
qed

lemma UpdateMonitorStatus_reliable:
  assumes inv: "service_inv x e" and rel: "reliable e"
    and row: "row \<in> set (monitors (db e))" "m_Enabled row \<noteq> b"
    and run: "UpdateMonitorStatus x (m_UserID row) (m_ID row) b e = (e', r)"
  shows "r = Inr True \<and> (\<exists>now. vw x e' = (if b
      then sched_at (uuid_string x (m_ID row)) (UnixMilli (now + sint (m_IntervalSec row) * Second))
      else disable_effect x (m_ID row)) (vw x e))"
proof -
  have wf: "wf_tables (db e)" and ty: "typed x (vw x e)" using inv by (simp_all add: service_inv_def)
  obtain e1 r1 where g: "repo_Get (m_UserID row) (m_ID row) e = (e1, r1)"
    by (cases "repo_Get (m_UserID row) (m_ID row) e")
  note gr = repo_Get_result [OF g]
  have "filter (\<lambda>r. m_ID r = m_ID row \<and> m_UserID r = m_UserID row) (monitors (db e)) =
      filter (\<lambda>r. m_UserID r = m_UserID row) (filter (\<lambda>r. m_ID r = m_ID row) (monitors (db e)))"
    by (simp add: conj_commute)
  also have "\<dots> = [row]"
    using filter_key_unique [of m_ID "monitors (db e)" row] wf row(1) by (simp add: wf_tables_def)
  finally have r1: "r1 = Inr (row_monitor row)" using gr(5) [OF rel] by simp
  obtain e2 s where st: "repo_SetEnabled (m_UserID row) (m_ID row) b e1 = (e2, s)"
    by (cases "repo_SetEnabled (m_UserID row) (m_ID row) b e1")
  note sr = repo_SetEnabled_result [OF st]
  have rel1: "reliable e1" using rel gr(3) by (rule reliable_later)
  then have s: "s = None" using sr(3) row(1) gr(2) by auto
  have e2: "reliable e2" "vw x e2 = vw x e"
    using rel1 ran_later [OF sr(1)] ran_vw [OF sr(1)] kv_vw [OF gr(1)] by (auto intro: reliable_later)
  have "r = Inr True" "e' = (if b then ScheduleMonitor x (m_ID row) (m_IntervalSec row) e2
      else disableMonitor x (m_ID row) e2)"
    using run g r1 st s row(2) by (auto simp: UpdateMonitorStatus_def)
  with best_effortD(6) [OF switch_best_effort [of "m_ID row" b "m_ID row" e2 "m_IntervalSec row"]] e2 ty
  show ?thesis by (cases b) auto
qed

end

section \<open>Creating a monitor\<close>

definition ascii_cmd :: "createMonitorCmd \<Rightarrow> bool" where
  "ascii_cmd cmd \<longleftrightarrow> ascii (cmc_Url cmd) \<and> ascii (cmc_AlertEmail cmd)"

text \<open>The new row carries what was asked for, and is the user's.\<close>

definition created_row :: "createMonitorCmd \<Rightarrow> uuid \<Rightarrow> monitor_row \<Rightarrow> bool" where
  "created_row cmd i row \<longleftrightarrow> m_ID row = i \<and> m_UserID row = cmc_UserID cmd \<and> m_Url row = cmc_Url cmd \<and>
     FromPgText (m_AlertEmail row) = cmc_AlertEmail cmd \<and> m_IntervalSec row = cmc_IntervalSec cmd \<and> m_Enabled row"

lemma createMonitor_sql_Inr:
  assumes "createMonitor_sql i now p T = (T', Inr j)"
  shows "j = i \<and> monitors T' = monitors T @ [new_monitor_row i now p] \<and> users T' = users T \<and>
    i \<notin> m_ID ` set (monitors T)"
  using assms by (auto simp: createMonitor_sql_def Let_def split: if_splits)

context monit
begin

lemma CreateMonitor_result:
  assumes inv: "service_inv x e" and a: "ascii_cmd cmd" and run: "CreateMonitor x cmd e = (e', r)"
  shows "service_inv x e'" and "later e e'" and "touches {scheduleKey} (vw x e) (vw x e')"
    and "\<And>i. r = Inr i \<Longrightarrow> i \<notin> m_ID ` set (monitors (db e)) \<and>
      (\<exists>row. created_row cmd i row \<and> monitors (db e') = monitors (db e) @ [row]) \<and>
      (\<exists>u \<in> set (users (db e)). quota_row (cmc_UserID cmd) u) \<and>
      users (db e') = map (count_up (cmc_UserID cmd)) (users (db e))"
    and "\<And>i. r = Inr i \<Longrightarrow> reliable e \<Longrightarrow> \<exists>now. vw x e' =
      sched_at (uuid_string x i) (UnixMilli (now + sint (cmc_IntervalSec cmd) * Second)) (vw x e)"
proof -
  obtain e1 q where c1: "repo_IncrementMonitorCount (cmc_UserID cmd) e = (e1, q)"
    by (cases "repo_IncrementMonitorCount (cmc_UserID cmd) e")
  note q = IncrementMonitorCount_result [OF c1]
  have e1: "service_inv x e1" "later e e1" "vw x e1 = vw x e"
    using service_inv_increment [OF inv q(1)] ran_later [OF q(1)] ran_vw [OF q(1)] by simp_all
  obtain e2 r2 where c2: "repo_Create cmd e1 = (e2, r2)" by (cases "repo_Create cmd e1")
  obtain p where p: "ran (createMonitor_sql (gen e1 (ticks e1)) (clock e1 (ticks e1)) p) e1 e2"
      "p_Url p = cmc_Url cmd" "p_AlertEmail p = ToPgText (cmc_AlertEmail cmd)" "p_UserID p = cmc_UserID cmd"
      "p_IntervalSec p = cmc_IntervalSec cmd"
    and ok: "\<And>i. r2 = Inr i \<Longrightarrow> createMonitor_sql (gen e1 (ticks e1)) (clock e1 (ticks e1)) p (db e1) = (db e2, Inr i)"
    using repo_Create_ran [OF c2] by blast
  have e2: "service_inv x e2" "later e e2" "vw x e2 = vw x e"
    using service_inv_create [OF e1(1) p(1)] a p(2,3) e1 ran_later [OF p(1)] ran_vw [OF p(1)]
    by (auto simp: ascii_cmd_def intro: later_trans)
  have runs: "(e', r) = (case q of Some err \<Rightarrow> (e1, Inl err) | None \<Rightarrow> (case r2 of Inl err \<Rightarrow> (e2, Inl err)
      | Inr i \<Rightarrow> (ScheduleMonitor x i (cmc_IntervalSec cmd) e2, Inr i)))"
    using run c1 c2 by (auto simp: CreateMonitor_def split: option.splits sum.splits)
  note be = best_effortD [OF ScheduleMonitor_best_effort [of _ e2 "cmc_IntervalSec cmd"]]
  show "service_inv x e'" "later e e'" "touches {scheduleKey} (vw x e) (vw x e')"
    using runs e1 e2 ScheduleMonitor_inv [OF e2(1)] be(1,3)
    by (auto split: option.splits sum.splits intro: later_trans)
  show "i \<notin> m_ID ` set (monitors (db e)) \<and> (\<exists>row. created_row cmd i row \<and> monitors (db e') = monitors (db e) @ [row]) \<and>
      (\<exists>u \<in> set (users (db e)). quota_row (cmc_UserID cmd) u) \<and>
      users (db e') = map (count_up (cmc_UserID cmd)) (users (db e))" if i: "r = Inr i" for i
  proof -
    have qr: "q = None" "r2 = Inr i" "db e' = db e2"
      using runs i be(4) by (auto split: option.splits sum.splits)
    have "created_row cmd i (new_monitor_row i (clock e1 (ticks e1)) p)"
      using p by (simp add: created_row_def new_monitor_row_def)
    with createMonitor_sql_Inr [OF ok [OF qr(2)]] q(2) [OF qr(1)] qr(3) show ?thesis
      by (auto simp: incrementMonitorCount_sql_def)
  qed
  show "\<exists>now. vw x e' = sched_at (uuid_string x i) (UnixMilli (now + sint (cmc_IntervalSec cmd) * Second)) (vw x e)"
    if i: "r = Inr i" and rel: "reliable e" for i
  proof -
    have "e' = ScheduleMonitor x i (cmc_IntervalSec cmd) e2"
      using runs i by (auto split: option.splits sum.splits)
    moreover have "reliable e2" using rel e2(2) by (rule reliable_later)
    moreover have "typed x (vw x e2)" using e2(1) by (simp add: service_inv_def)
    ultimately show ?thesis using be(6) [of i] e2(3) by auto
  qed
qed

end

end
