(* ===== verification/Api_Laws.thy ===== *)
theory Api_Laws
  imports Api Monitor_Ops
begin

text \<open>
  What the HTTP interface guarantees: every request keeps the invariant of the service, a
  request on a monitor route is served only for the user its token was issued to, what it
  shows or changes is that user's, and the rows of other users stay as they are.
\<close>

section \<open>Rows of other users\<close>

text \<open>A request of \<open>user\<close> leaves the rows of others alone, and no monitor ever disappears.\<close>

definition others_kept :: "uuid \<Rightarrow> tables \<Rightarrow> tables \<Rightarrow> bool" where
  "others_kept user T T' \<longleftrightarrow>
     filter (\<lambda>m. m_UserID m \<noteq> user) (monitors T') = filter (\<lambda>m. m_UserID m \<noteq> user) (monitors T) \<and>
     filter (\<lambda>u. u_ID u \<noteq> user) (users T') = filter (\<lambda>u. u_ID u \<noteq> user) (users T) \<and>
     incidents T' = incidents T \<and> m_ID ` set (monitors T) \<subseteq> m_ID ` set (monitors T')"

lemma others_kept_refl [simp]: "others_kept user T T"
  by (simp add: others_kept_def)

lemma others_kept_trans: "others_kept user T T' \<Longrightarrow> others_kept user T' T'' \<Longrightarrow> others_kept user T T''"
  by (auto simp: others_kept_def)

lemma filter_map_kept:
  "(\<And>r. P (f r) = P r) \<Longrightarrow> (\<And>r. P r \<Longrightarrow> f r = r) \<Longrightarrow> filter P (map f rs) = filter P rs"
  by (induction rs) auto

lemma others_kept_increment: "others_kept user T (fst (incrementMonitorCount_sql user T))"
proof -
  have "filter (\<lambda>u. u_ID u \<noteq> user) (map (count_up user) (users T)) = filter (\<lambda>u. u_ID u \<noteq> user) (users T)"
    by (rule filter_map_kept) (auto simp: count_up_def quota_row_def)
  then show ?thesis by (simp add: others_kept_def incrementMonitorCount_sql_def)
qed

lemma others_kept_update: "others_kept user T (fst (updateMonitorStatus_sql i b user T))"
proof -
  have "filter (\<lambda>m. m_UserID m \<noteq> user) (map (set_enabled i b user) (monitors T)) =
      filter (\<lambda>m. m_UserID m \<noteq> user) (monitors T)"
    by (rule filter_map_kept) (auto simp: set_enabled_def)
  then show ?thesis by (auto simp: others_kept_def updateMonitorStatus_sql_def image_iff)
qed

lemma others_kept_create: "p_UserID p = user \<Longrightarrow> others_kept user T (fst (createMonitor_sql i now p T))"
  by (auto simp: others_kept_def createMonitor_sql_def Let_def new_monitor_row_def)

lemma others_kept_ran:
  "ran stmt e e' \<Longrightarrow> others_kept user (db e) (fst (stmt (db e))) \<Longrightarrow> others_kept user (db e) (db e')"
  by (auto simp: ran_def)

section \<open>Registering keeps the invariant\<close>

lemma service_inv_createUser:
  assumes inv: "service_inv x e" and v: "vw x e' = vw x e"
    and d: "db e' = db e \<or> db e' = fst (createUser_sql i now name email h (db e))"
  shows "service_inv x e'"
proof -
  have m: "monitors (fst (createUser_sql i now name email h T)) = monitors T" for T
    by (simp add: createUser_sql_def)
  have "within_quota (fst (createUser_sql i now name email h (db e)))"
    using inv by (auto simp: service_inv_def within_quota_def createUser_sql_def)
  with inv v d show ?thesis
    by (auto simp: service_inv_def wf_createUser ascii_tables_def cache_agrees_def m)
qed

section \<open>Decoding ASCII bodies\<close>

definition ascii_body :: "body \<Rightarrow> bool" where
  "ascii_body b \<longleftrightarrow> (case b of ObjectBody ms \<Rightarrow>
     list_all (\<lambda>m. case snd m of Plain v \<Rightarrow> ascii_json v | _ \<Rightarrow> True) ms | _ \<Rightarrow> True)"

lemma decode_members_inv:
  assumes "decode_members hf asg ms q = Some q'" and "P q"
    and "list_all (\<lambda>m. case snd m of Plain v \<Rightarrow> ok v | _ \<Rightarrow> True) ms"
    and "\<And>k v q q'. ok v \<Longrightarrow> P q \<Longrightarrow> asg k v q = Some q' \<Longrightarrow> P q'"
  shows "P q'"
  using assms(1-3)
proof (induction ms arbitrary: q)
  case (Cons m ms)
  show ?case
  proof (cases "snd m")
    case (Plain v)
    then obtain q1 where "asg (fst m) v q = Some q1" "decode_members hf asg ms q1 = Some q'"
      using Cons.prems(1) by (cases "asg (fst m) v q") auto
    with Cons Plain assms(4) show ?thesis by auto
  qed (use Cons in \<open>auto split: if_splits\<close>)
qed simp

lemma want_str_ascii: "want_str v = Some s \<Longrightarrow> ascii_json v \<Longrightarrow> ascii s"
  by (cases v) (auto simp: want_str_def)

lemma assign_createMonitor_ascii:
  assumes "ascii_json v" and "ascii (cmr_Url q) \<and> ascii (cmr_AlertEmail q)" and "assign_createMonitor k v q = Some q'"
  shows "ascii (cmr_Url q') \<and> ascii (cmr_AlertEmail q')"
  using assms by (auto simp: assign_createMonitor_def want_str_ascii split: if_splits)

lemma decode_createMonitor_ascii:
  assumes "decode_createMonitor b = Some q" and "ascii_body b"
  shows "ascii (cmr_Url q) \<and> ascii (cmr_AlertEmail q)"
proof (cases b)
  case (ObjectBody ms)
  have ms: "list_all (\<lambda>m. case snd m of Plain v \<Rightarrow> ascii_json v | _ \<Rightarrow> True) ms"
    using assms(2) ObjectBody by (simp add: ascii_body_def)
  obtain hf where run: "decode_members hf assign_createMonitor ms zero_createMonitor = Some q"
    using assms(1) by (auto simp: decode_createMonitor_def decode_def ObjectBody)
  show ?thesis
    by (rule decode_members_inv [where P = "\<lambda>q. ascii (cmr_Url q) \<and> ascii (cmr_AlertEmail q)",
          OF run _ ms assign_createMonitor_ascii])
      (simp_all add: zero_createMonitor_def)
qed (use assms in \<open>auto simp: decode_createMonitor_def decode_def zero_createMonitor_def\<close>)

section \<open>The service on behalf of a user\<close>

lemma repo_GetAll_result:
  assumes "GetAllMonitors user limit offset e = (e', r)"
  shows "kv e' = kv e" and "db e' = db e" and "later e e'"
    and "\<And>ms. r = Inr ms \<Longrightarrow> \<exists>rows. ms = map row_monitor rows \<and>
      (\<forall>row \<in> set rows. row \<in> set (monitors (db e)) \<and> m_UserID row = user)"
proof -
  obtain r0 where c: "dcall (getAllMonitorByUserID_sql user limit offset) e = (e', r0)"
    and ok: "\<And>ms. r = Inr ms \<Longrightarrow> \<exists>rows. r0 = Inr rows \<and> ms = map row_monitor rows"
    using assms by (cases "dcall (getAllMonitorByUserID_sql user limit offset) e")
      (auto simp: GetAllMonitors_def repo_GetAll_def split: sum.splits if_splits)
  note res = dcall_result [OF c]
  show "kv e' = kv e" "db e' = db e" "later e e'"
    using res(1) by (auto simp: ran_def getAllMonitorByUserID_sql_def Let_def split: if_splits)
  show "\<exists>rows. ms = map row_monitor rows \<and>
      (\<forall>row \<in> set rows. row \<in> set (monitors (db e)) \<and> m_UserID row = user)" if m: "r = Inr ms" for ms
  proof -
    obtain rows where rows: "r0 = Inr rows" "ms = map row_monitor rows" using ok [OF m] by blast
    have "\<forall>row \<in> set rows. row \<in> set (monitors (db e)) \<and> m_UserID row = user"
      using res(2) [OF rows(1)]
      by (auto simp: getAllMonitorByUserID_sql_def Let_def split: if_splits dest!: in_set_takeD in_set_dropD)
    with rows(2) show ?thesis by blast
  qed
qed


lemma CreateMonitor_others:
  assumes "CreateMonitor x cmd e = (e', r)" and mx: "monit x"
  shows "others_kept (cmc_UserID cmd) (db e) (db e')"
proof -
  obtain e1 q where c1: "repo_IncrementMonitorCount (cmc_UserID cmd) e = (e1, q)"
    by (cases "repo_IncrementMonitorCount (cmc_UserID cmd) e")
  obtain e2 r2 where c2: "repo_Create cmd e1 = (e2, r2)" by (cases "repo_Create cmd e1")
  obtain p where p: "ran (createMonitor_sql (gen e1 (ticks e1)) (clock e1 (ticks e1)) p) e1 e2" "p_UserID p = cmc_UserID cmd"
    using repo_Create_ran [OF c2] by blast
  have k1: "others_kept (cmc_UserID cmd) (db e) (db e1)"
    by (rule others_kept_ran [OF IncrementMonitorCount_result(1) [OF c1] others_kept_increment])
  moreover have "others_kept (cmc_UserID cmd) (db e1) (db e2)"
    by (rule others_kept_ran [OF p(1) others_kept_create [OF p(2)]])
  moreover have "db (ScheduleMonitor x i n e2) = db e2" for i n
    using best_effortD(4) [OF monit.ScheduleMonitor_best_effort [OF mx]] by blast
  then have "db e' = db e1 \<or> db e' = db e2"
    using assms(1) c1 c2 by (auto simp: CreateMonitor_def split: option.splits sum.splits)
  ultimately show ?thesis by (auto intro: others_kept_trans)
qed

lemma UpdateMonitorStatus_others:
  assumes "UpdateMonitorStatus x user i b e = (e', r)" and mx: "monit x"
  shows "others_kept user (db e) (db e')"
  using assms(1)
proof (cases rule: monit.UpdateMonitorStatus_cases [OF mx, consumes 1, case_names refused same failed switched])
  case (switched e1 m e2)
  note gr = repo_Get_result(2) [OF switched(1)]
  have "db e' = db e2"
    using best_effortD(4) [OF monit.switch_best_effort [OF mx, of i b "mon_ID m" e2 "mon_IntervalSec m", folded switched(5)]] .
  with others_kept_ran [OF repo_SetEnabled_result(1) [OF switched(3)] others_kept_update] gr show ?thesis by simp
next
  case (failed e1 m err)
  with others_kept_ran [OF repo_SetEnabled_result(1) [OF failed(2)] others_kept_update] repo_Get_result(2) [OF failed(1)]
  show ?thesis by simp
qed (auto simp: repo_Get_result(2))

section \<open>What a response shows\<close>

text \<open>
  The data of a response on a monitor route, served for \<open>user\<close> with the tables \<open>T\<close> before and
  \<open>T'\<close> after: the user's own monitors and nothing else.
\<close>

definition owned :: "'k services \<Rightarrow> uuid \<Rightarrow> request \<Rightarrow> tables \<Rightarrow> tables \<Rightarrow> payload \<Rightarrow> bool" where
  "owned x user r T T' p \<longleftrightarrow> (case p of
     MonitorPayload m \<Rightarrow> (\<exists>row \<in> set (monitors T). m_UserID row = user \<and>
       uuid_parse x (rq_monitorID r) = Some (m_ID row) \<and>
       m = (monitor_response x (row_monitor row))\<lparr>gmr_Enabled := gmr_Enabled m\<rparr>)
   | MonitorsPayload l \<Rightarrow> gar_UserID l = uuid_string x user \<and> (\<forall>m \<in> set (gar_Monitors l).
       \<exists>row \<in> set (monitors T). m_UserID row = user \<and> m = monitor_response x (row_monitor row))
   | CreateMonitorResponse s \<Rightarrow> (\<exists>row \<in> set (monitors T'). m_UserID row = user \<and>
       s = uuid_string x (m_ID row) \<and> m_ID row \<notin> m_ID ` set (monitors T))
   | OkPayload _ \<Rightarrow> (\<exists>row \<in> set (monitors T'). m_UserID row = user \<and> m_Enabled row \<and>
       uuid_parse x (rq_monitorID r) = Some (m_ID row))
   | _ \<Rightarrow> False)"

definition shows_owned :: "'k services \<Rightarrow> uuid \<Rightarrow> request \<Rightarrow> 'k world \<Rightarrow> 'k world \<Rightarrow> payload response \<Rightarrow> bool" where
  "shows_owned x user r e e' resp \<longleftrightarrow> service_inv x e' \<and> later e e' \<and> others_kept user (db e) (db e') \<and>
     (case rs_body resp of SuccessResponse _ _ p \<Rightarrow> owned x user r (db e) (db e') p | ErrorResponse _ _ _ \<Rightarrow> True)"

lemma shows_owned_refusal:
  "refusal resp \<Longrightarrow> service_inv x e' \<Longrightarrow> later e e' \<Longrightarrow> others_kept user (db e) (db e') \<Longrightarrow>
     shows_owned x user r e e' resp"
  by (auto simp: shows_owned_def refusal_def split: response_body.splits)

lemma shows_owned_early:
  "e' = e \<and> refusal resp \<Longrightarrow> service_inv x e \<Longrightarrow> shows_owned x user r e e' resp"
  by (simp add: shows_owned_refusal)

lemma shows_owned_success:
  "owned x user r (db e) (db e') p \<Longrightarrow> service_inv x e' \<Longrightarrow> later e e' \<Longrightarrow> others_kept user (db e) (db e') \<Longrightarrow>
     shows_owned x user r e e' (WriteJSON s i m p)"
  by (simp add: shows_owned_def WriteJSON_def)

locale api = monit x + security_ok sec + validator_tags validate
  for x :: "'k services" and sec and validate
begin

lemma h_GetMonitor_owned:
  assumes inv: "service_inv x e" and u: "rq_user r = Some u" and run: "h_GetMonitor x r e = (e', resp)"
  shows "shows_owned x (au_UserID u) r e e' resp"
proof (cases "uuid_parse x (rq_monitorID r)")
  case None
  then show ?thesis
    using run u by (intro shows_owned_early [OF _ inv]) (auto simp: h_GetMonitor_def UserFromContext_def)
next
  case (Some i)
  obtain g where g: "GetMonitor x (au_UserID u) i e = (e', g)"
    and resp: "resp = (case g of Inl err \<Rightarrow> FromAppError (rq_reqID r) err
       | Inr mon \<Rightarrow> WriteJSON 200 (rq_reqID r) ''monitor retrieved successfully'' (MonitorPayload (monitor_response x mon)))"
    using run u Some by (auto simp: h_GetMonitor_def UserFromContext_def Let_def split: prod.splits sum.splits)
  note gr = GetMonitor_result [OF inv g]
  show ?thesis
  proof (cases g)
    case (Inl err)
    then show ?thesis using gr resp by (simp add: shows_owned_refusal)
  next
    case (Inr mon)
    then obtain row b where row: "row \<in> set (monitors (db e))" "m_ID row = i" "mon = (row_monitor row)\<lparr>mon_Enabled := b\<rparr>"
        "mon_UserID mon = au_UserID u"
      using gr by (auto simp: is_row_def)
    then have "owned x (au_UserID u) r (db e) (db e') (MonitorPayload (monitor_response x mon))"
      using Some by (auto simp: owned_def monitor_response_def row_monitor_def intro!: bexI [of _ row])
    then show ?thesis using gr resp Inr by (simp add: shows_owned_success)
  qed
qed

lemma h_GetAllMonitors_owned:
  assumes inv: "service_inv x e" and u: "rq_user r = Some u" and run: "h_GetAllMonitors x r e = (e', resp)"
  shows "shows_owned x (au_UserID u) r e e' resp"
proof (cases "ParseInt32 (rq_limit r) = None \<or> ParseInt32 (rq_offset r) = None")
  case True
  then show ?thesis
    using run u by (intro shows_owned_early [OF _ inv])
      (cases "ParseInt32 (rq_limit r)"; auto simp: h_GetAllMonitors_def UserFromContext_def)
next
  case False
  then obtain l0 o0 where lo: "ParseInt32 (rq_limit r) = Some l0" "ParseInt32 (rq_offset r) = Some o0" by auto
  let ?l = "word_of_int (if l0 \<le> 0 then 10 else l0) :: int32" and ?o = "word_of_int (if o0 \<le> 0 then 0 else o0) :: int32"
  obtain g where g: "GetAllMonitors (au_UserID u) ?l ?o e = (e', g)"
    and resp: "resp = (case g of Inl err \<Rightarrow> FromAppError (rq_reqID r) err
       | Inr mons \<Rightarrow> WriteJSON 200 (rq_reqID r) ''monitors retrieved successfully''
           (MonitorsPayload \<lparr>gar_UserID = uuid_string x (au_UserID u), gar_Limit = ?l, gar_Offset = ?o,
              gar_Monitors = map (monitor_response x) mons\<rparr>))"
    using run u lo
    by (cases "GetAllMonitors (au_UserID u) ?l ?o e") (auto simp: h_GetAllMonitors_def UserFromContext_def Let_def split: sum.splits)
  note gr = repo_GetAll_result [OF g]
  have e': "service_inv x e'" "others_kept (au_UserID u) (db e) (db e')"
    using inv gr(2) kv_vw [OF gr(1)] by (auto intro: service_inv_same)
  show ?thesis
  proof (cases g)
    case (Inl err)
    then show ?thesis using gr(3) e' resp by (simp add: shows_owned_refusal)
  next
    case (Inr mons)
    with gr(4) obtain rows where "mons = map row_monitor rows"
      "\<forall>row \<in> set rows. row \<in> set (monitors (db e)) \<and> m_UserID row = au_UserID u" by blast
    then have "owned x (au_UserID u) r (db e) (db e') (MonitorsPayload \<lparr>gar_UserID = uuid_string x (au_UserID u),
        gar_Limit = ?l, gar_Offset = ?o, gar_Monitors = map (monitor_response x) mons\<rparr>)"
      by (auto simp: owned_def simp del: word_of_int_numeral)
    then show ?thesis using gr(3) e' resp Inr by (simp add: shows_owned_success)
  qed
qed

lemma h_CreateMonitor_owned:
  assumes inv: "service_inv x e" and u: "rq_user r = Some u" and a: "ascii_body (rq_body r)"
    and run: "h_CreateMonitor x validate r e = (e', resp)"
  shows "shows_owned x (au_UserID u) r e e' resp"
proof (cases "\<exists>q. decode_createMonitor (rq_body r) = Some q \<and> validStruct validate (createMonitor_tags q)")
  case False
  then show ?thesis
    using run u by (intro shows_owned_early [OF _ inv])
      (cases "decode_createMonitor (rq_body r)"; auto simp: h_CreateMonitor_def UserFromContext_def)
next
  case True
  then obtain q where q: "decode_createMonitor (rq_body r) = Some q" "validStruct validate (createMonitor_tags q)" by blast
  let ?cmd = "\<lparr>cmc_UserID = au_UserID u, cmc_Url = cmr_Url q, cmc_IntervalSec = cmr_IntervalSec q,
     cmc_TimeoutSec = cmr_TimeoutSec q, cmc_LatencyThresholdMs = cmr_LatencyThresholdMs q,
     cmc_ExpectedStatus = cmr_ExpectedStatus q, cmc_AlertEmail = cmr_AlertEmail q\<rparr>"
  obtain g where g: "CreateMonitor x ?cmd e = (e', g)"
    and resp: "resp = (case g of Inl err \<Rightarrow> FromAppError (rq_reqID r) err
       | Inr i \<Rightarrow> WriteJSON 201 (rq_reqID r) ''monitor created successfully'' (CreateMonitorResponse (uuid_string x i)))"
    using run u q by (cases "CreateMonitor x ?cmd e") (auto simp: h_CreateMonitor_def UserFromContext_def Let_def split: sum.splits)
  have ac: "ascii_cmd ?cmd" using decode_createMonitor_ascii [OF q(1) a] by (simp add: ascii_cmd_def)
  note gr = CreateMonitor_result [OF inv ac g]
  have k: "others_kept (au_UserID u) (db e) (db e')" using CreateMonitor_others [OF g monit_axioms] by simp
  show ?thesis
  proof (cases g)
    case (Inl err)
    then show ?thesis using gr(1,2) k resp by (simp add: shows_owned_refusal)
  next
    case (Inr i)
    then have "owned x (au_UserID u) r (db e) (db e') (CreateMonitorResponse (uuid_string x i))"
      using gr(4) by (auto simp: owned_def created_row_def)
    then show ?thesis using gr(1,2) k resp Inr by (simp add: shows_owned_success)
  qed
qed

lemma h_UpdateMonitorStatus_owned:
  assumes inv: "service_inv x e" and u: "rq_user r = Some u" and run: "h_UpdateMonitorStatus x validate r e = (e', resp)"
  shows "shows_owned x (au_UserID u) r e e' resp"
proof (cases "\<exists>i q. uuid_parse x (rq_monitorID r) = Some i \<and> decode_updateStatus (rq_body r) = Some q \<and>
    validStruct validate (updateStatus_tags q)")
  case False
  then show ?thesis
    using run u by (intro shows_owned_early [OF _ inv])
      (cases "uuid_parse x (rq_monitorID r)"; cases "decode_updateStatus (rq_body r)";
       auto simp: h_UpdateMonitorStatus_def UserFromContext_def)
next
  case True
  then obtain i q where q: "uuid_parse x (rq_monitorID r) = Some i" "decode_updateStatus (rq_body r) = Some q"
    "validStruct validate (updateStatus_tags q)" by blast
  have en: "umr_Enable q" using q(3) by (simp add: validStruct_def updateStatus_tags_def required_bool)
  obtain g where g: "UpdateMonitorStatus x (au_UserID u) i (umr_Enable q) e = (e', g)"
    and resp: "resp = (case g of Inl err \<Rightarrow> FromAppError (rq_reqID r) err
       | Inr _ \<Rightarrow> WriteJSON 200 (rq_reqID r) ''monitor status updated successfully'' (OkPayload ''ok''))"
    using run u q by (cases "UpdateMonitorStatus x (au_UserID u) i (umr_Enable q) e")
      (auto simp: h_UpdateMonitorStatus_def UserFromContext_def Let_def split: sum.splits)
  note gr = UpdateMonitorStatus_result [OF inv g]
  have k: "others_kept (au_UserID u) (db e) (db e')" using UpdateMonitorStatus_others [OF g monit_axioms] by simp
  show ?thesis
  proof (cases g)
    case (Inl err)
    then show ?thesis using gr k resp by (simp add: shows_owned_refusal)
  next
    case (Inr c)
    with gr obtain row where row: "row \<in> set (monitors (db e))" "m_ID row = i" "m_UserID row = au_UserID u"
      and d: "db e' = fst (updateMonitorStatus_sql i (umr_Enable q) (au_UserID u) (db e))" by blast
    have "set_enabled i (umr_Enable q) (au_UserID u) row \<in> set (monitors (db e'))"
      using row(1) d by (simp add: monitors_updateMonitorStatus)
    moreover have "m_Enabled (set_enabled i (umr_Enable q) (au_UserID u) row)"
      using row en by (simp add: set_enabled_def)
    ultimately have "owned x (au_UserID u) r (db e) (db e') (OkPayload ''ok'')"
      unfolding owned_def payload.case using q(1) row by (intro bexI) simp_all
    then show ?thesis using gr k resp Inr by (simp add: shows_owned_success)
  qed
qed

lemma monitor_Routes_owned:
  assumes "service_inv x e" and "rq_user r = Some u" and "ascii_body (rq_body r)"
    and "monitor_Routes x validate rt r e = (e', resp)"
  shows "shows_owned x (au_UserID u) r e e' resp"
  using assms h_GetMonitor_owned h_GetAllMonitors_owned h_CreateMonitor_owned h_UpdateMonitorStatus_owned
  by (cases rt) (auto simp: monitor_Routes_def)

lemma authenticated_request [simp]:
  "rq_user (as_user u r) = Some u" "rq_body (as_user u r) = rq_body r" "rq_monitorID (as_user u r) = rq_monitorID r"
  by (simp_all add: as_user_def)

lemma service_inv_tick: "service_inv x e \<Longrightarrow> service_inv x (tick e)"
  by (rule service_inv_same) (simp_all add: tick_def vw_def)

lemma shows_owned_as_user: "shows_owned x i (as_user u r) (tick e) e' resp \<Longrightarrow> shows_owned x i r e e' resp"
  by (auto simp: shows_owned_def owned_def tick_frame intro: later_trans [OF tick_frame(3)] split: payload.splits response_body.splits)

lemma monitor_request:
  assumes inv: "service_inv x e" and a: "ascii_body (rq_body r)"
    and run: "RegisterRoutes x sec ts validate (Monitors rt) r e = (e', resp)"
  shows "(\<exists>user. authenticated x sec ts r e user \<and> shows_owned x user r e e' resp) \<or>
    rs_status resp = 401 \<and> refusal resp \<and> kv e' = kv e \<and> db e' = db e \<and> service_inv x e' \<and> later e e'"
proof -
  have "Handle x sec ts (monitor_Routes x validate rt) r e = (e', resp)" using run by (simp add: RegisterRoutes_def)
  then show ?thesis
  proof (cases rule: Handle_cases)
    case refused
    then show ?thesis using inv service_inv_tick [OF inv] tick_frame [of e] by auto
  next
    case (passed u)
    have "shows_owned x (au_UserID u) (as_user u r) (tick e) e' resp"
      using monitor_Routes_owned [OF service_inv_tick [OF inv] _ _ passed(2)] a by simp
    then show ?thesis using passed(1) shows_owned_as_user by blast
  qed
qed

section \<open>The user routes\<close>

lemma h_Register_inv:
  assumes inv: "service_inv x e" and run: "h_Register x sec validate r e = (e', resp)"
  shows "service_inv x e' \<and> later e e' \<and> monitors (db e') = monitors (db e)"
proof (cases "\<exists>q. decode_register (rq_body r) = Some q \<and> validStruct validate (register_tags q)")
  case False
  then have "e' = e" using run by (cases "decode_register (rq_body r)") (auto simp: h_Register_def)
  then show ?thesis using inv by simp
next
  case True
  then obtain q where q: "decode_register (rq_body r) = Some q" "validStruct validate (register_tags q)" by blast
  obtain g where g: "Register sec \<lparr>cuc_Name = rr_Name q, cuc_Email = rr_Email q, cuc_PasswordHash = rr_Password q\<rparr> e = (e', g)"
    using run q by (auto simp: h_Register_def Let_def split: prod.splits sum.splits)
  note gr = Register_result [OF g]
  obtain i now h where "db e' = db e \<or> db e' = fst (createUser_sql i now (rr_Name q) (rr_Email q) h (db e))"
    using gr(4) by auto
  with service_inv_createUser [OF inv gr(1)] gr(2) show ?thesis by (auto simp: createUser_sql_def)
qed

lemma h_LogIn_frame:
  assumes run: "h_LogIn x sec ts validate r e = (e', resp)"
  shows "kv e' = kv e \<and> db e' = db e \<and> later e e'"
proof (cases "\<exists>q. decode_logIn (rq_body r) = Some q \<and> validStruct validate (logIn_tags q)")
  case False
  then have "e' = e" using run by (cases "decode_logIn (rq_body r)") (auto simp: h_LogIn_def)
  then show ?thesis by simp
next
  case True
  then obtain q where q: "decode_logIn (rq_body r) = Some q" "validStruct validate (logIn_tags q)" by blast
  obtain g where "LogIn x sec ts \<lparr>luc_Email = lr_Email q, luc_Password = lr_Password q\<rparr> e = (e', g)"
    using run q by (auto simp: h_LogIn_def Let_def split: prod.splits sum.splits)
  then show ?thesis by (rule LogIn_frame)
qed

lemma h_GetProfile_frame:
  assumes run: "h_GetProfile x r e = (e', resp)"
  shows "kv e' = kv e \<and> db e' = db e \<and> later e e'"
proof (cases "rq_user r")
  case (Some u)
  then obtain g where "GetProfile (au_UserID u) e = (e', g)"
    using run by (auto simp: h_GetProfile_def UserFromContext_def Let_def split: prod.splits sum.splits)
  from GetProfile_result [OF this] show ?thesis by simp
qed (use run in \<open>auto simp: h_GetProfile_def UserFromContext_def\<close>)

lemma request_inv:
  assumes inv: "service_inv x e" and a: "ascii_body (rq_body r)" and run: "RegisterRoutes x sec ts validate rt r e = (e', resp)"
  shows "service_inv x e' \<and> later e e' \<and> m_ID ` set (monitors (db e)) \<subseteq> m_ID ` set (monitors (db e'))"
proof (cases rt)
  case (Monitors m)
  have "(\<exists>user. shows_owned x user r e e' resp) \<or> db e' = db e \<and> service_inv x e' \<and> later e e'"
    using monitor_request [OF inv a run [unfolded Monitors]] by blast
  then show ?thesis unfolding shows_owned_def others_kept_def by auto
next
  case (Users u)
  have same: "service_inv x e' \<and> monitors (db e') = monitors (db e)" if "kv e' = kv e \<and> db e' = db e \<and> later e e'"
    using that service_inv_same [OF inv kv_vw] by simp
  show ?thesis
  proof (cases u)
    case PostRegister
    then have "h_Register x sec validate r e = (e', resp)" using run Users by (simp add: RegisterRoutes_def user_Routes_def)
    from h_Register_inv [OF inv this] show ?thesis by simp
  next
    case PostLogin
    then have "h_LogIn x sec ts validate r e = (e', resp)" using run Users by (simp add: RegisterRoutes_def user_Routes_def)
    from h_LogIn_frame [OF this] same show ?thesis by simp
  next
    case GetGetProfile
    then have "Handle x sec ts (h_GetProfile x) r e = (e', resp)" using run Users by (simp add: RegisterRoutes_def user_Routes_def)
    then show ?thesis
    proof (cases rule: Handle_cases)
      case refused
      then show ?thesis using inv service_inv_tick [OF inv] tick_frame(3) [of e] by auto
    next
      case (passed v)
      note f = h_GetProfile_frame [OF passed(2)]
      then have "later e e'" using later_trans [OF tick_frame(3)] by blast
      with f same tick_frame [of e] show ?thesis by simp
    qed
  qed
qed

end

interpretation ref_api: api ref_services ref_security ref_validate
  by unfold_locales

end
