(* ===== verification/Middleware.thy ===== *)
theory Middleware
  imports Api_Laws
begin

text \<open>
  The middleware around the routes: the access log (\<^verbatim>\<open>logging.go\<close>), the request ids
  (\<^verbatim>\<open>request_id.go\<close>), the metrics (\<^verbatim>\<open>metrics.go\<close>), and the chain that \<^verbatim>\<open>internals/app/router.go\<close> puts in front of
  every route. \<^verbatim>\<open>RequestID\<close> of the \<^verbatim>\<open>chi\<close> package is a parameter: the id it puts into the context.
  Its \<^verbatim>\<open>Recoverer\<close> and \<^verbatim>\<open>Timeout\<close> have no part here: no handler panics, each writes its response before
  it returns, and a deadline that passes shows as the fate of a call.
\<close>

section \<open>Requests with their context, and what is recorded of them\<close>

text \<open>
  \<open>hq_XRequestID\<close> is the header, empty if missing; \<open>hq_request_id\<close> is the value of the context
  under the string \<^verbatim>\<open>request_id\<close>, which is another key than the one \<^verbatim>\<open>chi\<close> uses (\<open>rq_reqID\<close>).
\<close>

record http_request =
  hq_Method :: string
  hq_Path :: string
  hq_XRequestID :: string
  hq_request_id :: "string option"
  hq_request :: request

record access_log =
  lo_request_id :: string
  lo_method :: string
  lo_path :: string
  lo_status :: int
  lo_bytes :: nat
  lo_duration :: duration

datatype trace = Logged access_log | Observed string string duration

type_synonym 'k http_handler = "http_request \<Rightarrow> 'k world \<Rightarrow> 'k world \<times> payload response \<times> trace list"

type_synonym 'k middleware = "'k http_handler \<Rightarrow> 'k http_handler"

section \<open>The middleware\<close>

text \<open>
  The deferred function of \<^verbatim>\<open>Logger\<close> reads the request it was called with, not the one that the
  handlers behind it see. \<open>written\<close> is the number of bytes of an encoded response.
\<close>

definition Logger :: "(payload response \<Rightarrow> nat) \<Rightarrow> 'k middleware" where
  "Logger written nxt q e = (let (e1, start) = time_now e; (e2, resp, evs) = nxt q e1;
       reqID = rq_reqID (hq_request q); (e3, now) = time_now e2
     in (e3, resp, evs @ [Logged \<lparr>lo_request_id = reqID, lo_method = hq_Method q, lo_path = hq_Path q,
           lo_status = rs_status resp, lo_bytes = written resp, lo_duration = now - start\<rparr>]))"

definition Metrics :: "'k middleware" where
  "Metrics nxt q e = (let (e1, start) = time_now e; (e2, resp, evs) = nxt q e1; (e3, now) = time_now e2
     in (e3, resp, evs @ [Observed (hq_Method q) (hq_Path q) (now - start)]))"

definition RequestID :: "'k services \<Rightarrow> 'k middleware" where
  "RequestID x nxt q e = (let requestID0 = hq_XRequestID q;
       (requestID, e1) = (if requestID0 = '''' then (uuid_string x (gen e (ticks e)), tick e) else (requestID0, e))
     in nxt (q\<lparr>hq_request_id := Some requestID\<rparr>) e1)"

text \<open>\<^verbatim>\<open>chi\<close>'s own, with the id it gives to a request.\<close>

definition with_reqid :: "(http_request \<Rightarrow> nat \<Rightarrow> string) \<Rightarrow> 'k middleware" where
  "with_reqid reqid nxt q e = nxt (q\<lparr>hq_request := (hq_request q)\<lparr>rq_reqID := reqid q (ticks e)\<rparr>\<rparr>) e"

definition routed :: "'k handler \<Rightarrow> 'k http_handler" where
  "routed h q e = (let (e', resp) = h (hq_request q) e in (e', resp, []))"

text \<open>The chain of \<^verbatim>\<open>r.Use\<close>: the first is the outermost.\<close>

definition served :: "'k services \<Rightarrow> security_libs \<Rightarrow> tokenService \<Rightarrow> (tag \<Rightarrow> field \<Rightarrow> bool) \<Rightarrow>
    (http_request \<Rightarrow> nat \<Rightarrow> string) \<Rightarrow> (payload response \<Rightarrow> nat) \<Rightarrow> route \<Rightarrow> 'k http_handler" where
  "served x sec ts validate reqid written rt =
     Logger written (with_reqid reqid (routed (RegisterRoutes x sec ts validate rt)))"

section \<open>Facts\<close>

text \<open>A request that was served has run its route in between, with the id in its context.\<close>

lemma served_route:
  assumes "served x sec ts validate reqid written rt q e = (e', resp, evs)"
  obtains e2 d where "RegisterRoutes x sec ts validate rt ((hq_request q)\<lparr>rq_reqID := reqid q (Suc (ticks e))\<rparr>) (tick e) = (e2, resp)"
    and "e' = tick e2"
    and "evs = [Logged \<lparr>lo_request_id = rq_reqID (hq_request q), lo_method = hq_Method q, lo_path = hq_Path q,
       lo_status = rs_status resp, lo_bytes = written resp, lo_duration = d\<rparr>]"
  using assms by (auto simp: served_def Logger_def with_reqid_def routed_def time_now_def tick_def Let_def split: prod.splits)

definition response_id :: "'a response \<Rightarrow> string" where
  "response_id resp = (case rs_body resp of SuccessResponse i _ _ \<Rightarrow> i | ErrorResponse i _ _ \<Rightarrow> i)"

lemma response_id_simps [simp]:
  "response_id (WriteJSON s i m d) = i" "response_id (WriteError s i k m) = i" "response_id (FromAppError i err) = i"
  by (simp_all add: response_id_def WriteJSON_def WriteError_def FromAppError_def Let_def)

lemma handler_ids:
  "response_id (snd (h_CreateMonitor x validate r e)) = rq_reqID r"
  "response_id (snd (h_GetMonitor x r e)) = rq_reqID r"
  "response_id (snd (h_GetAllMonitors x r e)) = rq_reqID r"
  "response_id (snd (h_UpdateMonitorStatus x validate r e)) = rq_reqID r"
  "response_id (snd (h_Register x sec validate r e)) = rq_reqID r"
  "response_id (snd (h_LogIn x sec ts validate r e)) = rq_reqID r"
  "response_id (snd (h_GetProfile x r e)) = rq_reqID r"
  by (simp_all add: h_CreateMonitor_def h_GetMonitor_def h_GetAllMonitors_def h_UpdateMonitorStatus_def
      h_Register_def h_LogIn_def h_GetProfile_def Let_def split: option.split sum.split prod.split)

lemma Handle_id: "(\<And>r e. response_id (snd (nxt r e)) = rq_reqID r) \<Longrightarrow> response_id (snd (Handle x sec ts nxt r e)) = rq_reqID r"
  by (simp add: Handle_def Let_def split: sum.split prod.split option.split)

text \<open>Whatever the route, the response carries the id of the request.\<close>

lemma RegisterRoutes_id: "response_id (snd (RegisterRoutes x sec ts validate rt r e)) = rq_reqID r"
proof (cases rt)
  case (Users u)
  then show ?thesis by (cases u) (simp_all add: RegisterRoutes_def user_Routes_def handler_ids Handle_id)
next
  case (Monitors m)
  have "response_id (snd (monitor_Routes x validate m r e)) = rq_reqID r" for r e
    by (cases m) (simp_all add: monitor_Routes_def handler_ids)
  then show ?thesis by (simp add: Monitors RegisterRoutes_def Handle_id)
qed

context api
begin

lemma served_inv:
  assumes inv: "service_inv x e" and a: "ascii_body (rq_body (hq_request q))"
    and run: "served x sec ts validate reqid written rt q e = (e', resp, evs)"
  shows "service_inv x e' \<and> later e e' \<and> m_ID ` set (monitors (db e)) \<subseteq> m_ID ` set (monitors (db e'))"
  using run
proof (rule served_route)
  fix e2 d
  assume route: "RegisterRoutes x sec ts validate rt ((hq_request q)\<lparr>rq_reqID := reqid q (Suc (ticks e))\<rparr>) (tick e) = (e2, resp)"
    and e': "e' = tick e2"
  have "service_inv x e2 \<and> later (tick e) e2 \<and> m_ID ` set (monitors (db (tick e))) \<subseteq> m_ID ` set (monitors (db e2))"
    using request_inv [OF service_inv_tick [OF inv] _ route] a by simp
  then show ?thesis using service_inv_tick [of e2] later_trans [OF later_trans [OF tick_frame(3) [of e]] tick_frame(3) [of e2]]
    by (simp add: e' tick_frame)
qed

end

end
