(* ===== verification/Scheduler.thy ===== *)
theory Scheduler
  imports Incident_Laws
begin

text \<open>
  The scheduler and the reclaimer (\<^verbatim>\<open>internals/modules/scheduler\<close>). The scheduler fetches due
  monitors from Redis and offers each to the bounded job channel without blocking; the
  reclaimer moves expired jobs back to the schedule. The job channel is shared with the
  executor's workers, which receive from it at any moment: an oracle says how many jobs they
  have taken by the time the scheduler looks.
\<close>

section \<open>Configuration and channel\<close>

record schedulerConfig =
  cfg_Interval :: duration
  cfg_BatchSize :: int
  cfg_VisibilityTimeout :: duration

record reclaimerConfig =
  rcfg_Interval :: duration
  rcfg_Limit :: int

record scheduler =
  sc_interval :: duration
  sc_batchSize :: int
  sc_visibilityTimeout :: duration

record reclaimer =
  rc_interval :: duration
  rc_limit :: int

definition NewScheduler :: "schedulerConfig \<Rightarrow> scheduler" where
  "NewScheduler cfg = \<lparr>sc_interval = cfg_Interval cfg, sc_batchSize = cfg_BatchSize cfg,
     sc_visibilityTimeout = cfg_VisibilityTimeout cfg\<rparr>"

definition NewReclaimer :: "reclaimerConfig \<Rightarrow> reclaimer" where
  "NewReclaimer cfg = \<lparr>rc_interval = rcfg_Interval cfg, rc_limit = rcfg_Limit cfg\<rparr>"

datatype jobPayload = JobPayload (job_MonitorID: uuid)

record job_chan =
  cap :: nat
  buf :: "jobPayload list"

text \<open>
  At the \<open>n\<close>-th interaction the workers have taken \<open>taken n\<close> more jobs from the channel,
  \<open>closed n\<close> tells whether the channel has been closed, \<open>pick_done n\<close> which of two ready cases
  the select chooses, and \<open>raw_rand n\<close> what the random source yields.
\<close>

record sched_oracle =
  taken :: "nat \<Rightarrow> nat"
  closed :: "nat \<Rightarrow> bool"
  pick_done :: "nat \<Rightarrow> bool"
  raw_rand :: "nat \<Rightarrow> nat"

datatype selected = Sent | CtxDone | ChanFull | SendOnClosed

text \<open>
  \<^verbatim>\<open>select { case jobChan <- job: case <-ctx.Done(): default: }\<close>: a send is ready when the
  buffer has room, and also when the channel is closed (it then panics); the default is taken
  only when nothing is ready.
\<close>

definition select_send :: "sched_oracle \<Rightarrow> jobPayload \<Rightarrow> job_chan \<Rightarrow> ('k, 'd) env \<Rightarrow>
    ('k, 'd) env \<times> job_chan \<times> selected" where
  "select_send orc job ch e =
     (let n = ticks e; b = drop (taken orc n) (buf ch); ch' = ch\<lparr>buf := b\<rparr>;
          can_send = (closed orc n \<or> length b < cap ch); is_done = (ctx_done e n \<noteq> None) in
      if is_done \<and> (pick_done orc n \<or> \<not> can_send) then (tick e, ch', CtxDone)
      else if closed orc n then (tick e, ch', SendOnClosed)
      else if can_send then (tick e, ch'\<lparr>buf := b @ [job]\<rparr>, Sent)
      else (tick e, ch', ChanFull))"

text \<open>\<^verbatim>\<open>rand.Int63n(n)\<close> panics unless \<open>n\<close> is positive, and is below \<open>n\<close> otherwise.\<close>

definition Int63n :: "nat \<Rightarrow> int \<Rightarrow> int option" where
  "Int63n raw n = (if n \<le> 0 then None else Some (int raw mod n))"

definition addJitter :: "nat \<Rightarrow> duration \<Rightarrow> duration option" where
  "addJitter raw d = map_option (\<lambda>jitter. d + jitter) (Int63n raw (go_div d 10))"

section \<open>Dispatching a batch (scheduler.go)\<close>

text \<open>How the loop over the batch ends.\<close>

datatype ending = Completed | Returned | Panicked

text \<open>
  The loop of \<^verbatim>\<open>doWorkWithReliability\<close> and \<^verbatim>\<open>doWork\<close>. Besides the state it yields the jobs that
  were sent, in order.
\<close>

primrec dispatch :: "'k services \<Rightarrow> sched_oracle \<Rightarrow> string list \<Rightarrow> job_chan \<Rightarrow> ('k, 'd) env \<Rightarrow>
    ('k, 'd) env \<times> job_chan \<times> jobPayload list \<times> ending" where
  "dispatch x orc [] ch e = (e, ch, [], Completed)"
| "dispatch x orc (monitor # ms) ch e = (case uuid_parse x monitor of
     None \<Rightarrow> dispatch x orc ms ch e
   | Some i \<Rightarrow> (case select_send orc (JobPayload i) ch e of
       (e1, ch1, Sent) \<Rightarrow> (let (e2, ch2, sent, en) = dispatch x orc ms ch1 e1
          in (e2, ch2, JobPayload i # sent, en))
     | (e1, ch1, CtxDone) \<Rightarrow> (e1, ch1, [], Returned)
     | (e1, ch1, SendOnClosed) \<Rightarrow> (e1, ch1, [], Panicked)
     | (e1, ch1, ChanFull) \<Rightarrow>
        (let (e2, now) = time_now e1 in
         case addJitter (raw_rand orc (ticks e1)) (2 * Second) of
           None \<Rightarrow> (e2, ch1, [], Panicked)
         | Some d \<Rightarrow> dispatch x orc ms ch1 (fst (Schedule x monitor (now + d) e2)))))"

definition doWorkWithReliability :: "'k services \<Rightarrow> sched_oracle \<Rightarrow> scheduler \<Rightarrow> job_chan \<Rightarrow> ('k, 'd) env \<Rightarrow>
    ('k, 'd) env \<times> job_chan \<times> jobPayload list \<times> ending" where
  "doWorkWithReliability x orc sc ch e =
     (let (e0, now) = time_now e in
      case FetchAndMoveToInflight x now (sc_batchSize sc) (sc_visibilityTimeout sc) e0 of
        (e1, Inl err) \<Rightarrow> (e1, ch, [], Completed)
      | (e1, Inr ms) \<Rightarrow> if ms = [] then (e1, ch, [], Completed) else dispatch x orc ms ch e1)"

definition Scheduler_doWork :: "'k services \<Rightarrow> sched_oracle \<Rightarrow> scheduler \<Rightarrow> job_chan \<Rightarrow> ('k, 'd) env \<Rightarrow>
    ('k, 'd) env \<times> job_chan \<times> jobPayload list \<times> ending" where
  "Scheduler_doWork x orc sc ch e =
     (let (e0, now) = time_now e in
      case FetchDueMonitors x now (sc_batchSize sc) e0 of
        (e1, Inl err) \<Rightarrow> (e1, ch, [], Completed)
      | (e1, Inr ms) \<Rightarrow> if ms = [] then (e1, ch, [], Completed) else dispatch x orc ms ch e1)"

text \<open>
  The first version, kept in the code for comparison: it pops members with their scores,
  compares the scores with the time in seconds, and puts back what is not due.
\<close>

primrec dispatchOld :: "'k services \<Rightarrow> sched_oracle \<Rightarrow> int \<Rightarrow> (string \<times> int) list \<Rightarrow> job_chan \<Rightarrow> ('k, 'd) env \<Rightarrow>
    ('k, 'd) env \<times> job_chan \<times> jobPayload list \<times> ending" where
  "dispatchOld x orc now [] ch e = (e, ch, [], Completed)"
| "dispatchOld x orc now (item # items) ch e =
     (if snd item > now then (fst (ScheduleBatch x (item # items) e), ch, [], Completed)
      else (case uuid_parse x (fst item) of
        None \<Rightarrow> dispatchOld x orc now items ch e
      | Some i \<Rightarrow> (case select_send orc (JobPayload i) ch e of
          (e1, ch1, Sent) \<Rightarrow> (let (e2, ch2, sent, en) = dispatchOld x orc now items ch1 e1
             in (e2, ch2, JobPayload i # sent, en))
        | (e1, ch1, CtxDone) \<Rightarrow> (e1, ch1, [], Returned)
        | (e1, ch1, SendOnClosed) \<Rightarrow> (e1, ch1, [], Panicked)
        | (e1, ch1, ChanFull) \<Rightarrow> dispatchOld x orc now items ch1
            (fst (Schedule x (fst item) (snd item * Second + 2 * Second) e1)))))"

definition doWorkOld :: "'k services \<Rightarrow> sched_oracle \<Rightarrow> scheduler \<Rightarrow> job_chan \<Rightarrow> ('k, 'd) env \<Rightarrow>
    ('k, 'd) env \<times> job_chan \<times> jobPayload list \<times> ending" where
  "doWorkOld x orc sc ch e =
     (let (e0, t) = time_now e; now = Unix t in
      case PopDue x (sc_batchSize sc) e0 of
        (e1, items, Some err) \<Rightarrow> (e1, ch, [], Completed)
      | (e1, items, None) \<Rightarrow> if items = [] then (e1, ch, [], Completed) else dispatchOld x orc now items ch e1)"

section \<open>The loops\<close>

text \<open>
  \<^verbatim>\<open>Run\<close>: \<open>evs\<close> is what the select of each round picks, a tick of the ticker or the end of the
  context. A non-positive interval panics at once.
\<close>

datatype wakeup = Ticked | Stopped

primrec sched_loop :: "'k services \<Rightarrow> sched_oracle \<Rightarrow> scheduler \<Rightarrow> wakeup list \<Rightarrow> job_chan \<Rightarrow> ('k, 'd) env \<Rightarrow>
    ('k, 'd) env \<times> job_chan \<times> jobPayload list \<times> ending" where
  "sched_loop x orc sc [] ch e = (e, ch, [], Completed)"
| "sched_loop x orc sc (ev # evs) ch e = (case ev of
     Stopped \<Rightarrow> (e, ch, [], Returned)
   | Ticked \<Rightarrow> (case doWorkWithReliability x orc sc ch e of
       (e1, ch1, sent, Panicked) \<Rightarrow> (e1, ch1, sent, Panicked)
     | (e1, ch1, sent, _) \<Rightarrow> (let (e2, ch2, sent', en) = sched_loop x orc sc evs ch1 e1
          in (e2, ch2, sent @ sent', en))))"

definition Scheduler_Run :: "'k services \<Rightarrow> sched_oracle \<Rightarrow> scheduler \<Rightarrow> wakeup list \<Rightarrow> job_chan \<Rightarrow> ('k, 'd) env \<Rightarrow>
    ('k, 'd) env \<times> job_chan \<times> jobPayload list \<times> ending" where
  "Scheduler_Run x orc sc evs ch e =
     (if sc_interval sc \<le> 0 then (e, ch, [], Panicked) else sched_loop x orc sc evs ch e)"

definition Reclaimer_doWork :: "'k services \<Rightarrow> reclaimer \<Rightarrow> ('k, 'd) env \<Rightarrow> ('k, 'd) env" where
  "Reclaimer_doWork x rc e = (let (e0, now) = time_now e in fst (ReclaimMonitors x now (rc_limit rc) e0))"

primrec reclaim_loop :: "'k services \<Rightarrow> reclaimer \<Rightarrow> wakeup list \<Rightarrow> ('k, 'd) env \<Rightarrow> ('k, 'd) env \<times> ending" where
  "reclaim_loop x rc [] e = (e, Completed)"
| "reclaim_loop x rc (ev # evs) e = (case ev of
     Stopped \<Rightarrow> (e, Returned) | Ticked \<Rightarrow> reclaim_loop x rc evs (Reclaimer_doWork x rc e))"

definition Reclaimer_Run :: "'k services \<Rightarrow> reclaimer \<Rightarrow> wakeup list \<Rightarrow> ('k, 'd) env \<Rightarrow> ('k, 'd) env \<times> ending" where
  "Reclaimer_Run x rc evs e = (if rc_interval rc \<le> 0 then (e, Panicked) else reclaim_loop x rc evs e)"

end
