(* ===== verification/Scheduler_Laws.thy ===== *)
theory Scheduler_Laws
  imports Scheduler
begin

text \<open>
  The scheduler and the reclaimer against the two sorted sets: what a tick does to the
  schedule, to the jobs in flight and to the channel, for every environment.
\<close>

section \<open>Jitter and select\<close>

lemma addJitter_bounds:
  assumes "addJitter raw d = Some j" and "0 \<le> d"
  shows "d \<le> j" and "j < d + d div 10"
proof -
  have pos: "0 < d div 10" and j: "j = d + int raw mod (d div 10)"
    using assms by (auto simp: addJitter_def Int63n_def go_div_nonneg split: if_splits)
  then show "d \<le> j" "j < d + d div 10" by simp_all
qed

lemma addJitter_2s: "\<exists>j. addJitter raw (2 * Second) = Some j \<and> 2 * Second \<le> j \<and> j < 2200 * Millisecond"
proof -
  obtain j where j: "addJitter raw (2 * Second) = Some j"
    by (auto simp: addJitter_def Int63n_def go_div_def)
  with addJitter_bounds [OF j] show ?thesis by simp
qed

lemma select_send_result:
  assumes "select_send orc job ch e = (e', ch', s)"
  shows "e' = tick e" and "cap ch' = cap ch" and "length (buf ch) \<le> cap ch \<Longrightarrow> length (buf ch') \<le> cap ch'"
    and "s = ChanFull \<Longrightarrow> length (buf ch') \<ge> cap ch' \<and> ctx_done e (ticks e) = None \<and> \<not> closed orc (ticks e)"
    and "s = SendOnClosed \<Longrightarrow> closed orc (ticks e)"
    and "s = CtxDone \<Longrightarrow> ctx_done e (ticks e) \<noteq> None"
    and "s = Sent \<Longrightarrow> buf ch' = drop (taken orc (ticks e)) (buf ch) @ [job]"
  using assms by (auto simp: select_send_def Let_def split: if_splits)

section \<open>Rescheduling part of a batch\<close>

text \<open>Only the schedule changes, only for the given members, and none of it is lost.\<close>

definition resched :: "string set \<Rightarrow> keyspace \<Rightarrow> keyspace \<Rightarrow> bool" where
  "resched M ks ks' \<longleftrightarrow> touches {scheduleKey} ks ks' \<and>
     (\<forall>m. m \<notin> M \<longrightarrow> zset ks' scheduleKey m = zset ks scheduleKey m) \<and>
     dom (zset ks scheduleKey) \<subseteq> dom (zset ks' scheduleKey)"

lemma resched_refl [simp]: "resched M ks ks"
  by (simp add: resched_def)

lemma resched_trans: "resched M ks ks' \<Longrightarrow> resched M ks' ks'' \<Longrightarrow> resched M ks ks''"
  unfolding resched_def using touches_trans by (metis subset_trans)

lemma resched_mono: "resched M ks ks' \<Longrightarrow> M \<subseteq> M' \<Longrightarrow> resched M' ks ks'"
  by (auto simp: resched_def)

lemma resched_sched_at: "m \<in> M \<Longrightarrow> resched M ks (sched_at m sc ks)"
  by (auto simp: resched_def touches_effects) (auto simp: sched_at_def)

definition sched_frame :: "'k services \<Rightarrow> string set \<Rightarrow> ('k, 'd) env \<Rightarrow> ('k, 'd) env \<Rightarrow> bool" where
  "sched_frame x M e e' \<longleftrightarrow> resched M (vw x e) (vw x e') \<and> later e e' \<and> db e' = db e \<and>
     (typed x (vw x e) \<longrightarrow> typed x (vw x e'))"

lemma sched_frame_refl [simp]: "sched_frame x M e e"
  by (simp add: sched_frame_def)

lemma sched_frame_tick: "sched_frame x M (tick e) e' \<Longrightarrow> sched_frame x M e e'"
  by (auto simp: sched_frame_def intro: later_trans [OF later_tick])

lemma sched_frame_ticked [simp]: "sched_frame x M e (tick e)"
  by (rule sched_frame_tick) simp

lemma sched_frame_trans: "sched_frame x M e e' \<Longrightarrow> sched_frame x M e' e'' \<Longrightarrow> sched_frame x M e e''"
  by (auto simp: sched_frame_def intro: resched_trans later_trans)

lemma sched_frame_mono: "sched_frame x M e e' \<Longrightarrow> M \<subseteq> M' \<Longrightarrow> sched_frame x M' e e'"
  by (auto simp: sched_frame_def intro: resched_mono)

definition within_cap :: "job_chan \<Rightarrow> bool" where
  "within_cap ch \<longleftrightarrow> length (buf ch) \<le> cap ch"

context monit
begin

lemma Schedule_resched:
  "resched {m} (vw x e) (vw x (fst (Schedule x m t e)))"
  using appliedD(2) [OF Schedule_applied [of m t e]] resched_sched_at [of m "{m}"] by auto

lemma Schedule_sched_frame: "sched_frame x {m} e (fst (Schedule x m t e))"
  using best_effortD(2-4) [OF Schedule_best_effort [of m t e]] Schedule_resched
  by (simp add: sched_frame_def)

text \<open>The four ways a batch goes on from a member with a valid id.\<close>

lemma dispatch_Cons_cases:
  assumes "dispatch x orc (m # ms) ch e = (e', ch', sent, en)" and "uuid_parse x m = Some i"
  obtains (stopped) "e' = tick e" "sent = []" "en \<noteq> Completed"
      "select_send orc (JobPayload i) ch e = (e', ch', if en = Returned then CtxDone else SendOnClosed)"
  | (sent) ch1 sent' where "select_send orc (JobPayload i) ch e = (tick e, ch1, Sent)"
      "dispatch x orc ms ch1 (tick e) = (e', ch', sent', en)" "sent = JobPayload i # sent'"
  | (full) ch1 d where "select_send orc (JobPayload i) ch e = (tick e, ch1, ChanFull)"
      "2 * Second \<le> d" "d < 2200 * Millisecond"
      "dispatch x orc ms ch1 (fst (Schedule x m (clock e (Suc (ticks e)) + d) (tick (tick e)))) = (e', ch', sent, en)"
proof -
  obtain e1 ch1 s where sel: "select_send orc (JobPayload i) ch e = (e1, ch1, s)"
    by (cases "select_send orc (JobPayload i) ch e") auto
  have e1: "e1 = tick e" by (rule select_send_result(1) [OF sel])
  obtain d where d: "addJitter (raw_rand orc (ticks e1)) (2 * Second) = Some d" "2 * Second \<le> d"
      "d < 2200 * Millisecond"
    using addJitter_2s by blast
  show thesis
  proof (cases s)
    case Sent
    with assms sel e1 sent show ?thesis by (auto split: prod.splits)
  next
    case ChanFull
    with assms sel e1 d full show ?thesis by (simp add: time_now_def Let_def)
  qed (use assms sel e1 stopped in auto)
qed

lemma dispatch_frame:
  assumes "dispatch x orc ms ch e = (e', ch', sent, en)"
  shows "sched_frame x (set ms) e e' \<and> cap ch' = cap ch \<and> (within_cap ch \<longrightarrow> within_cap ch') \<and>
    (\<forall>j \<in> set sent. \<exists>m \<in> set ms. uuid_parse x m = Some (job_MonitorID j))"
  using assms
proof (induction ms arbitrary: ch e sent)
  case Nil
  then show ?case by auto
next
  case (Cons m ms)
  show ?case
  proof (cases "uuid_parse x m")
    case None
    with Cons.prems have "dispatch x orc ms ch e = (e', ch', sent, en)" by simp
    from Cons.IH [OF this] show ?thesis by (auto intro: sched_frame_mono)
  next
    case (Some i)
    from Cons.prems Some show ?thesis
    proof (cases rule: dispatch_Cons_cases)
      case stopped
      with select_send_result(2,3) [OF stopped(4)] show ?thesis by (simp add: within_cap_def)
    next
      case (sent ch1 sent')
      with Cons.IH [OF sent(2)] select_send_result(2,3) [OF sent(1)] Some show ?thesis
        by (auto simp: within_cap_def intro: sched_frame_tick [OF sched_frame_mono])
    next
      case (full ch1 d)
      note fr = sched_frame_tick [OF sched_frame_tick [OF
          Schedule_sched_frame [of m "tick (tick e)" "clock e (Suc (ticks e)) + d"]]]
      from Cons.IH [OF full(4)] select_send_result(2,3) [OF full(1)] show ?thesis
        by (auto simp: within_cap_def intro: sched_frame_trans [OF sched_frame_mono [OF fr] sched_frame_mono])
    qed
  qed
qed

text \<open>A member whose job was sent is not rescheduled as well.\<close>

lemma dispatch_sent:
  assumes "dispatch x orc ms ch e = (e', ch', sent, en)" and "distinct ms" and "j \<in> set sent"
  shows "\<exists>m \<in> set ms. uuid_parse x m = Some (job_MonitorID j) \<and>
    zset (vw x e') scheduleKey m = zset (vw x e) scheduleKey m"
  using assms
proof (induction ms arbitrary: ch e sent)
  case (Cons m ms)
  show ?case
  proof (cases "uuid_parse x m")
    case None
    with Cons show ?thesis by auto
  next
    case (Some i)
    from Cons.prems(1) Some show ?thesis
    proof (cases rule: dispatch_Cons_cases)
      case stopped
      with Cons.prems(3) show ?thesis by simp
    next
      case (sent ch1 sent')
      show ?thesis
      proof (cases "j = JobPayload i")
        case True
        have "zset (vw x e') scheduleKey m = zset (vw x (tick e)) scheduleKey m"
          using dispatch_frame [OF sent(2)] Cons.prems(2) by (auto simp: sched_frame_def resched_def)
        with True Some show ?thesis by simp
      next
        case False
        with Cons.IH [OF sent(2)] Cons.prems(2,3) sent(3) show ?thesis by auto
      qed
    next
      case (full ch1 d)
      let ?e3 = "fst (Schedule x m (clock e (Suc (ticks e)) + d) (tick (tick e)))"
      from Cons.IH [OF full(4)] Cons.prems(2,3) obtain m' where
        m': "m' \<in> set ms" "uuid_parse x m' = Some (job_MonitorID j)"
          "zset (vw x e') scheduleKey m' = zset (vw x ?e3) scheduleKey m'" by auto
      moreover have "zset (vw x ?e3) scheduleKey m' = zset (vw x e) scheduleKey m'"
        using Schedule_resched [of m "tick (tick e)" "clock e (Suc (ticks e)) + d"] m'(1) Cons.prems(2) by (auto simp: resched_def)
      ultimately show ?thesis by auto
    qed
  qed
qed simp

text \<open>When every call is delivered, a batch leaves no valid member behind.\<close>

lemma dispatch_complete:
  assumes "dispatch x orc ms ch e = (e', ch', sent, Completed)"
    and "reliable e" and "typed x (vw x e)" and "distinct ms"
    and "m \<in> set ms" and "uuid_parse x m = Some i"
  shows "JobPayload i \<in> set sent \<or> (\<exists>n d. 2 * Second \<le> d \<and> d < 2200 * Millisecond \<and>
    zset (vw x e') scheduleKey m = Some (UnixMilli (clock e n + d)))"
  using assms
proof (induction ms arbitrary: ch e sent)
  case (Cons m0 ms)
  show ?case
  proof (cases "uuid_parse x m0")
    case None
    with Cons show ?thesis by auto
  next
    case (Some i0)
    from Cons.prems(1) Some show ?thesis
    proof (cases rule: dispatch_Cons_cases)
      case stopped
      then show ?thesis by simp
    next
      case (sent ch1 sent')
      show ?thesis
      proof (cases "m = m0")
        case True
        with sent Some Cons.prems(6) show ?thesis by simp
      next
        case False
        with Cons.IH [OF sent(2)] Cons.prems(2-6) sent(3) show ?thesis by auto
      qed
    next
      case (full ch1 d)
      let ?t = "clock e (Suc (ticks e)) + d"
      let ?e3 = "fst (Schedule x m0 ?t (tick (tick e)))"
      have be: "best_effort x {scheduleKey} (sched_at m0 (UnixMilli ?t)) (tick (tick e)) ?e3"
        by (rule Schedule_best_effort)
      have rel: "reliable (tick (tick e))" using Cons.prems(2) by simp
      have e3: "reliable ?e3" "typed x (vw x ?e3)" "vw x ?e3 = sched_at m0 (UnixMilli ?t) (vw x e)" "clock ?e3 = clock e"
        using best_effortD [OF be] rel Cons.prems(3) by (auto simp: later_def)
      show ?thesis
      proof (cases "m = m0")
        case True
        have "zset (vw x e') scheduleKey m0 = zset (vw x ?e3) scheduleKey m0"
          using dispatch_frame [OF full(4)] Cons.prems(4) by (auto simp: sched_frame_def resched_def)
        with True e3(3) full(2,3) show ?thesis by (auto simp: sched_at_def)
      next
        case False
        with Cons.IH [OF full(4) e3(1,2)] Cons.prems(2-6) e3(4) show ?thesis by auto
      qed
    qed
  qed
qed simp

end

section \<open>A tick of the scheduler\<close>

text \<open>The members the program still has to run: waiting in the schedule or in flight.\<close>

definition queued :: "keyspace \<Rightarrow> string set" where
  "queued ks = dom (zset ks scheduleKey) \<union> dom (zset ks inflightKey)"

lemma fetchedD:
  assumes "fetched now lim vt items ks ks'" and "scheduleKey \<noteq> inflightKey"
  shows "distinct items" and "set items \<subseteq> due (zset ks scheduleKey) (UnixMilli now)"
    and "zset ks' scheduleKey = zset ks scheduleKey |` (- set items)"
    and "zset ks' inflightKey = (\<lambda>m. if m \<in> set items then Some (UnixMilli now + Milliseconds vt)
       else zset ks inflightKey m)"
    and "touches {scheduleKey, inflightKey} ks ks'"
    and "queued ks' = queued ks"
proof -
  have z: "zrange_ok (zset ks scheduleKey) (UnixMilli now) lim items"
    and ks': "ks' = moved scheduleKey inflightKey (UnixMilli now + Milliseconds vt) items ks"
    using assms(1) by (simp_all add: fetched_def)
  show "distinct items" and sub: "set items \<subseteq> due (zset ks scheduleKey) (UnixMilli now)"
    using zrange_okD [OF z] by simp_all
  show s: "zset ks' scheduleKey = zset ks scheduleKey |` (- set items)"
    and i: "zset ks' inflightKey = (\<lambda>m. if m \<in> set items then Some (UnixMilli now + Milliseconds vt)
       else zset ks inflightKey m)"
    using assms(2) by (simp_all add: ks' zset_moved)
  show "touches {scheduleKey, inflightKey} ks ks'" by (simp add: ks' touches_moved)
  have "set items \<subseteq> dom (zset ks scheduleKey)" using sub by (auto simp: due_def)
  then show "queued ks' = queued ks" by (auto simp: queued_def s i dom_def restrict_map_def split: if_splits)
qed

lemma reclaimedD:
  assumes "reclaimed now lim items ks ks'" and "inflightKey \<noteq> scheduleKey"
  shows "distinct items" and "set items \<subseteq> due (zset ks inflightKey) (UnixMilli now)"
    and "zset ks' inflightKey = zset ks inflightKey |` (- set items)"
    and "zset ks' scheduleKey = (\<lambda>m. if m \<in> set items then Some (UnixMilli now) else zset ks scheduleKey m)"
    and "touches {scheduleKey, inflightKey} ks ks'"
    and "queued ks' = queued ks"
proof -
  have z: "zrange_ok (zset ks inflightKey) (UnixMilli now) lim items"
    and ks': "ks' = moved inflightKey scheduleKey (UnixMilli now) items ks"
    using assms(1) by (simp_all add: reclaimed_def)
  show "distinct items" and sub: "set items \<subseteq> due (zset ks inflightKey) (UnixMilli now)"
    using zrange_okD [OF z] by simp_all
  show i: "zset ks' inflightKey = zset ks inflightKey |` (- set items)"
    and s: "zset ks' scheduleKey = (\<lambda>m. if m \<in> set items then Some (UnixMilli now) else zset ks scheduleKey m)"
    using assms(2) by (simp_all add: ks' zset_moved)
  show "touches {scheduleKey, inflightKey} ks ks'"
    using touches_moved [of inflightKey scheduleKey] by (simp add: ks' insert_commute)
  have "set items \<subseteq> dom (zset ks inflightKey)" using sub by (auto simp: due_def)
  then show "queued ks' = queued ks" by (auto simp: queued_def s i dom_def restrict_map_def split: if_splits)
qed

lemma resched_queued:
  assumes "resched M ks ks'" and "M \<subseteq> queued ks" and "scheduleKey \<noteq> inflightKey"
  shows "queued ks' = queued ks"
proof -
  have "zset ks' inflightKey = zset ks inflightKey"
    using assms(1,3) touches_views(2) [of "{scheduleKey}" ks ks' inflightKey] by (simp add: resched_def)
  moreover have "dom (zset ks' scheduleKey) \<subseteq> dom (zset ks scheduleKey) \<union> M"
    using assms(1) by (auto simp: resched_def dom_def)
  ultimately show ?thesis using assms(1,2) by (auto simp: queued_def resched_def)
qed

text \<open>What an operation of the scheduler or the reclaimer does to the queues, whatever happens.\<close>

definition queue_frame :: "'k services \<Rightarrow> ('k, 'd) env \<Rightarrow> ('k, 'd) env \<Rightarrow> bool" where
  "queue_frame x e e' \<longleftrightarrow> queued (vw x e') = queued (vw x e) \<and> typed x (vw x e') \<and>
     touches {scheduleKey, inflightKey} (vw x e) (vw x e') \<and> later e e' \<and> db e' = db e"

lemma queue_frame_trans: "queue_frame x e e' \<Longrightarrow> queue_frame x e' e'' \<Longrightarrow> queue_frame x e e''"
  by (auto simp: queue_frame_def intro: later_trans touches_trans)

lemma queue_frame_idle:
  "typed x (vw x e) \<Longrightarrow> vw x e' = vw x e \<Longrightarrow> later e e' \<Longrightarrow> db e' = db e \<Longrightarrow> queue_frame x e e'"
  by (simp add: queue_frame_def)

context monit
begin

lemma typed_fetched: "typed x ks \<Longrightarrow> fetched now lim vt items ks ks' \<Longrightarrow> typed x ks'"
  by (simp add: fetched_def typed_moved)

lemma typed_reclaimed: "typed x ks \<Longrightarrow> reclaimed now lim items ks ks' \<Longrightarrow> typed x ks'"
  by (simp add: reclaimed_def typed_moved)

lemma Fetch_queue_frame:
  assumes t: "typed x (vw x e)" and run: "FetchAndMoveToInflight x now lim vt e = (e', r)"
  shows "queue_frame x e e'"
proof -
  note res = FetchAndMoveToInflight_result [OF t run]
  have "vw x e' = vw x e \<or> (\<exists>items. fetched now lim vt items (vw x e) (vw x e'))"
    using res(1,2) by (cases r) blast+
  then show ?thesis
  proof
    assume "vw x e' = vw x e"
    with t res(4,5) show ?thesis by (simp add: queue_frame_idle)
  next
    assume "\<exists>items. fetched now lim vt items (vw x e) (vw x e')"
    then obtain items where f: "fetched now lim vt items (vw x e) (vw x e')" ..
    with t res(4,5) fetchedD(5,6) [OF f] typed_fetched [OF t f] show ?thesis
      by (simp add: queue_frame_def)
  qed
qed

lemma Reclaimer_queue_frame:
  assumes t: "typed x (vw x e)"
  shows "queue_frame x e (Reclaimer_doWork x rc e)"
proof -
  let ?e0 = "fst (time_now e)" and ?now = "clock e (ticks e)"
  obtain e' r where run: "ReclaimMonitors x ?now (rc_limit rc) ?e0 = (e', r)"
    by (cases "ReclaimMonitors x ?now (rc_limit rc) ?e0")
  then have e': "Reclaimer_doWork x rc e = e'" by (simp add: Reclaimer_doWork_def case_prod_unfold Let_def)
  note res = ReclaimMonitors_result [OF _ run, simplified vw_simps, OF t]
  have l: "later e e'" "db e' = db e" using res(4,5) by (auto intro: later_after_now)
  have "vw x e' = vw x e \<or> (\<exists>items. reclaimed ?now (rc_limit rc) items (vw x e) (vw x e'))"
    using res(1,2) by (cases r) blast+
  then show ?thesis
  proof
    assume "vw x e' = vw x e"
    with t l e' show ?thesis by (simp add: queue_frame_idle)
  next
    assume "\<exists>items. reclaimed ?now (rc_limit rc) items (vw x e) (vw x e')"
    then obtain items where f: "reclaimed ?now (rc_limit rc) items (vw x e) (vw x e')" ..
    with t l e' reclaimedD(5,6) [OF f] typed_reclaimed [OF t f] show ?thesis
      by (simp add: queue_frame_def)
  qed
qed

lemma doWork_cases:
  assumes t: "typed x (vw x e)" and run: "doWorkWithReliability x orc sc ch e = (e', ch', sent, en)"
  obtains (idle) "queue_frame x e e'" "ch' = ch" "sent = []" "en = Completed"
      "reliable e \<Longrightarrow> fetched (clock e (ticks e)) (sc_batchSize sc) (sc_visibilityTimeout sc) [] (vw x e) (vw x e')"
  | (batch) items e1 where "later e e1" "db e1 = db e" "typed x (vw x e1)"
      "fetched (clock e (ticks e)) (sc_batchSize sc) (sc_visibilityTimeout sc) items (vw x e) (vw x e1)"
      "dispatch x orc items ch e1 = (e', ch', sent, en)"
proof -
  let ?e0 = "fst (time_now e)" and ?now = "clock e (ticks e)"
  obtain e1 r where f: "FetchAndMoveToInflight x ?now (sc_batchSize sc) (sc_visibilityTimeout sc) ?e0 = (e1, r)"
    by (cases "FetchAndMoveToInflight x ?now (sc_batchSize sc) (sc_visibilityTimeout sc) ?e0")
  note res = FetchAndMoveToInflight_result [OF _ f, simplified vw_simps, OF t]
  have fr: "queue_frame x e e1"
    using Fetch_queue_frame [OF _ f] t by (auto simp: queue_frame_def intro: later_after_now)
  have d: "(e', ch', sent, en) = (case r of Inl _ \<Rightarrow> (e1, ch, [], Completed)
      | Inr ms \<Rightarrow> if ms = [] then (e1, ch, [], Completed) else dispatch x orc ms ch e1)"
    using run f by (cases r) (simp_all add: doWorkWithReliability_def time_now_def Let_def)
  show thesis
  proof (cases r)
    case (Inl err)
    have "\<not> reliable e" using res(3) Inl by (auto dest: reliable_later [OF _ later_ops(1)])
    with d fr Inl idle show ?thesis by simp
  next
    case (Inr items)
    from res(1) [OF this] have fe: "fetched ?now (sc_batchSize sc) (sc_visibilityTimeout sc) items (vw x e) (vw x e1)" .
    show ?thesis
    proof (cases "items = []")
      case True
      with d fr fe Inr idle show ?thesis by simp
    next
      case False
      with d Inr have "dispatch x orc items ch e1 = (e', ch', sent, en)" by simp
      with fr fe show ?thesis by (intro batch) (simp_all add: queue_frame_def)
    qed
  qed
qed

lemma dispatch_queue_frame:
  assumes "dispatch x orc items ch e1 = (e', ch', sent, en)" and "typed x (vw x e1)"
    and "set items \<subseteq> queued (vw x e1)"
  shows "queue_frame x e1 e'"
proof -
  have "resched (set items) (vw x e1) (vw x e')" and l: "later e1 e'" "db e' = db e1" "typed x (vw x e')"
    using dispatch_frame [OF assms(1)] assms(2) by (simp_all add: sched_frame_def)
  with resched_queued [OF this(1) assms(3)] show ?thesis
    by (auto simp: queue_frame_def resched_def intro: touches_mono)
qed

lemma fetched_items_queued:
  "fetched now lim vt items ks ks' \<Longrightarrow> set items \<subseteq> queued ks'"
  using fetchedD(4) [of now lim vt items ks ks'] by (auto simp: queued_def split: if_splits)

lemma doWork_queue_frame:
  assumes t: "typed x (vw x e)" and run: "doWorkWithReliability x orc sc ch e = (e', ch', sent, en)"
  shows "queue_frame x e e' \<and> cap ch' = cap ch \<and> (within_cap ch \<longrightarrow> within_cap ch')"
  using t run
proof (cases rule: doWork_cases)
  case (batch items e1)
  have "queue_frame x e e1"
    using batch(1-4) fetchedD(5,6) [OF batch(4)] by (simp add: queue_frame_def)
  moreover have "queue_frame x e1 e'"
    using batch(5,3) fetched_items_queued [OF batch(4)] by (rule dispatch_queue_frame)
  ultimately show ?thesis using dispatch_frame [OF batch(5)] by (blast intro: queue_frame_trans)
qed simp

lemma doWork_sent:
  assumes t: "typed x (vw x e)" and run: "doWorkWithReliability x orc sc ch e = (e', ch', sent, en)"
    and j: "j \<in> set sent"
  shows "\<exists>m. uuid_parse x m = Some (job_MonitorID j) \<and>
    m \<in> due (zset (vw x e) scheduleKey) (UnixMilli (clock e (ticks e))) \<and>
    zset (vw x e') scheduleKey m = None \<and>
    zset (vw x e') inflightKey m = Some (UnixMilli (clock e (ticks e)) + Milliseconds (sc_visibilityTimeout sc))"
  using t run
proof (cases rule: doWork_cases)
  case (batch items e1)
  note f = fetchedD [OF batch(4) keys_differ(1)]
  obtain m where m: "m \<in> set items" "uuid_parse x m = Some (job_MonitorID j)"
      "zset (vw x e') scheduleKey m = zset (vw x e1) scheduleKey m"
    using dispatch_sent [OF batch(5) f(1) j] by blast
  have "zset (vw x e') inflightKey = zset (vw x e1) inflightKey"
    using dispatch_frame [OF batch(5)] touches_views(2) [of "{scheduleKey}" "vw x e1" "vw x e'" inflightKey]
    by (simp add: sched_frame_def resched_def)
  with m f(2-4) show ?thesis by auto
qed (use j in simp)

lemma doWork_complete:
  assumes t: "typed x (vw x e)" and rel: "reliable e"
    and run: "doWorkWithReliability x orc sc ch e = (e', ch', sent, Completed)"
  obtains items where
    "zrange_ok (zset (vw x e) scheduleKey) (UnixMilli (clock e (ticks e))) (sc_batchSize sc) items"
    "\<And>m i. m \<in> set items \<Longrightarrow> uuid_parse x m = Some i \<Longrightarrow> JobPayload i \<in> set sent \<or>
       (\<exists>n d. 2 * Second \<le> d \<and> d < 2200 * Millisecond \<and>
          zset (vw x e') scheduleKey m = Some (UnixMilli (clock e n + d)))"
    "\<And>m. m \<in> set items \<Longrightarrow> zset (vw x e') inflightKey m =
       Some (UnixMilli (clock e (ticks e)) + Milliseconds (sc_visibilityTimeout sc))"
  using t run
proof (cases rule: doWork_cases)
  case idle
  then show thesis using that [of "[]"] rel by (simp add: fetched_def)
next
  case (batch items e1)
  have "reliable e1" "clock e1 = clock e" using rel batch(1) by (auto intro: reliable_later simp: later_def)
  note disp = dispatch_complete [OF batch(5) this(1) batch(3) fetchedD(1) [OF batch(4) keys_differ(1)],
      unfolded this(2)]
  have "zset (vw x e') inflightKey = zset (vw x e1) inflightKey"
    using dispatch_frame [OF batch(5)] touches_views(2) [of "{scheduleKey}" "vw x e1" "vw x e'" inflightKey]
    by (simp add: sched_frame_def resched_def)
  then have "m \<in> set items \<Longrightarrow> zset (vw x e') inflightKey m =
      Some (UnixMilli (clock e (ticks e)) + Milliseconds (sc_visibilityTimeout sc))" for m
    using fetchedD(4) [OF batch(4)] by simp
  then show thesis using disp batch(4) by (intro that [of items]) (auto simp: fetched_def)
qed

lemma sched_loop_queue_frame:
  "typed x (vw x e) \<Longrightarrow> sched_loop x orc sc evs ch e = (e', ch', sent, en) \<Longrightarrow>
    queue_frame x e e' \<and> (within_cap ch \<longrightarrow> within_cap ch')"
proof (induction evs arbitrary: ch e e' ch' sent en)
  case Nil
  then show ?case by (simp add: queue_frame_idle)
next
  case (Cons ev evs)
  show ?case
  proof (cases ev)
    case Stopped
    with Cons.prems show ?thesis by (simp add: queue_frame_idle)
  next
    case Ticked
    obtain e1 ch1 s1 en1 where w: "doWorkWithReliability x orc sc ch e = (e1, ch1, s1, en1)"
      by (cases "doWorkWithReliability x orc sc ch e") auto
    note fr = doWork_queue_frame [OF Cons.prems(1) w]
    then have t1: "typed x (vw x e1)" by (simp add: queue_frame_def)
    obtain e2 ch2 s2 en2 where l: "sched_loop x orc sc evs ch1 e1 = (e2, ch2, s2, en2)"
      by (cases "sched_loop x orc sc evs ch1 e1") auto
    have "(e', ch') = (e1, ch1) \<or> (e', ch') = (e2, ch2)"
      using Cons.prems(2) Ticked w l by (cases en1) auto
    with fr Cons.IH [OF t1 l] show ?thesis by (auto intro: queue_frame_trans)
  qed
qed

lemma reclaim_loop_queue_frame:
  "typed x (vw x e) \<Longrightarrow> queue_frame x e (fst (reclaim_loop x rc evs e))"
proof (induction evs arbitrary: e)
  case Nil
  then show ?case by (simp add: queue_frame_idle)
next
  case (Cons ev evs)
  show ?case
  proof (cases ev)
    case Stopped
    with Cons.prems show ?thesis by (simp add: queue_frame_idle)
  next
    case Ticked
    note fr = Reclaimer_queue_frame [OF Cons.prems, of rc]
    then have "typed x (vw x (Reclaimer_doWork x rc e))" by (simp add: queue_frame_def)
    from Cons.IH [OF this] Ticked queue_frame_trans [OF fr] show ?thesis by simp
  qed
qed

end

section \<open>The first version of the scheduler\<close>

lemma zadds_conv: "zadds items z = z ++ map_of (map (\<lambda>(sc, m). (m, sc)) (rev items))"
  by (induction items arbitrary: z) (auto simp: map_add_assoc [symmetric])

lemma zadds_idem: "zadds items (zadds items z) = zadds items z"
  by (simp add: zadds_conv map_add_assoc [symmetric] map_add_subsumed1)

lemma zpopmin_ok_scores:
  assumes "zpopmin_ok z n items"
  shows "distinct (map fst items)" and "\<And>m sc. (m, sc) \<in> set items \<Longrightarrow> z m = Some sc"
proof -
  obtain ms where ms: "by_score z ms" "set ms = dom z" "items = map (\<lambda>m. (m, the (z m))) (take (nat n) ms)"
    using assms by (auto simp: zpopmin_ok_def)
  then show "distinct (map fst items)" by (simp add: by_score_def comp_def)
  show "z m = Some sc" if "(m, sc) \<in> set items" for m sc
  proof -
    have "m \<in> set (take (nat n) ms)" "sc = the (z m)" using that ms(3) by auto
    then have "m \<in> dom z" using ms(2) by (auto dest: in_set_takeD)
    with \<open>sc = the (z m)\<close> show ?thesis by auto
  qed
qed

lemma zadds_put_back:
  assumes "\<And>m sc. (m, sc) \<in> set items \<Longrightarrow> z m = Some sc"
  shows "zadds (map (\<lambda>(m, sc). (sc, m)) items) (z |` (- set (map fst items))) = z"
proof
  fix k
  let ?r = "z |` (- set (map fst items))"
  have z: "zadds (map (\<lambda>(m, sc). (sc, m)) items) ?r = ?r ++ map_of (rev items)"
    by (simp add: zadds_conv rev_map comp_def case_prod_unfold)
  have "(?r ++ map_of (rev items)) k = z k"
  proof (cases "k \<in> set (map fst items)")
    case True
    then obtain sc where "map_of (rev items) k = Some sc"
      by (metis list.set_map map_of_eq_None_iff not_None_eq set_rev)
    moreover from map_of_SomeD [OF this] have "z k = Some sc" using assms by simp
    ultimately show ?thesis by (simp add: map_add_def)
  next
    case False
    then have "map_of (rev items) k = None" by (simp add: map_of_eq_None_iff)
    with False show ?thesis by (simp add: map_add_def)
  qed
  then show "zadds (map (\<lambda>(m, sc). (sc, m)) items) ?r k = z k" by (simp only: z)
qed

context monit
begin

lemma PopDue_reliable:
  assumes "reliable e" and "typed x (vw x e)"
  shows "\<exists>e' items. PopDue x n e = (e', items, None) \<and> zpopmin_ok (zset (vw x e) scheduleKey) n items \<and>
    vw x e' = put_zset scheduleKey (zset (vw x e) scheduleKey |` (- set (map fst items))) (vw x e) \<and> later e e'"
proof -
  let ?cmd = "ZPOPMIN (rds x) scheduleKey n"
  obtain items where i: "snd (rcall ?cmd e) = Inr items" "zpopmin_ok (zset (vw x e) scheduleKey) n items"
      "vw x (fst (rcall ?cmd e)) = put_zset scheduleKey (zset (vw x e) scheduleKey |` (- set (map fst items))) (vw x e)"
    using rcall_meets_reliable [OF srv.ZPOPMIN_meets assms(1) typedD(1) [OF assms(2)]] by blast
  have "later e (fst (rcall ?cmd e))" by simp
  moreover have "PopDue x n e = (fst (rcall ?cmd e), items, None)"
    unfolding PopDue_def using i(1) by (intro retry_first) (simp_all add: case_prod_unfold)
  ultimately show ?thesis using i(2,3) by blast
qed

lemma ScheduleBatch_reliable:
  assumes "reliable e" and "typed x (vw x e)" and "items \<noteq> []"
  shows "vw x (fst (ScheduleBatch x items e)) =
    put_zset scheduleKey (zadds (map (\<lambda>(m, sc). (sc, m)) items) (zset (vw x e) scheduleKey)) (vw x e)"
  using retry_once_reliable [OF srv.ZADD_meets assms(1) typedD(1) [OF assms(2)], of 3 "map (\<lambda>(m, sc). (sc, m)) items" "()"]
    assms(3) by (simp add: ScheduleBatch_def case_prod_unfold)

text \<open>
  Scores are milliseconds but the first version compares them with seconds: as long as every
  score exceeds the time in seconds it puts the whole batch back and sends nothing.
\<close>

lemma doWorkOld_never_sends:
  assumes "reliable e" and "typed x (vw x e)"
    and late: "\<And>m sc. zset (vw x e) scheduleKey m = Some sc \<Longrightarrow> Unix (clock e (ticks e)) < sc"
    and run: "doWorkOld x orc sc ch e = (e', ch', sent, en)"
  shows "sent = [] \<and> ch' = ch \<and> zset (vw x e') scheduleKey = zset (vw x e) scheduleKey"
proof -
  let ?e0 = "fst (time_now e)" and ?z = "zset (vw x e) scheduleKey"
  have e0: "reliable ?e0" "typed x (vw x ?e0)" using assms(1,2) by (simp_all add: reliable_later)
  obtain e1 items where p: "PopDue x (sc_batchSize sc) ?e0 = (e1, items, None)"
      "zpopmin_ok ?z (sc_batchSize sc) items" "vw x e1 = put_zset scheduleKey (?z |` (- set (map fst items))) (vw x e)"
      "later ?e0 e1"
    using PopDue_reliable [OF e0, of "sc_batchSize sc", unfolded vw_simps] by blast
  note sc = zpopmin_ok_scores(2) [OF p(2)]
  show ?thesis
  proof (cases items)
    case Nil
    with run p show ?thesis by (simp add: doWorkOld_def case_prod_unfold Let_def restrict_map_def)
  next
    case (Cons item rest)
    have "Unix (clock e (ticks e)) < snd item" using late sc [of "fst item" "snd item"] Cons by simp
    with run p Cons have r: "e' = fst (ScheduleBatch x items e1)" "ch' = ch" "sent = []"
      by (simp_all add: doWorkOld_def case_prod_unfold Let_def)
    have "reliable e1" "typed x (vw x e1)"
      using e0(1) p(4) assms(2) by (auto simp: p(3) typed_def intro: reliable_later)
    then have "zset (vw x e') scheduleKey = zadds (map (\<lambda>(m, sc). (sc, m)) items) (?z |` (- set (map fst items)))"
      using r(1) p(3) Cons by (subst r(1), subst ScheduleBatch_reliable) simp_all
    also have "\<dots> = ?z" by (rule zadds_put_back) (rule sc)
    finally have "zset (vw x e') scheduleKey = ?z" .
    with r show ?thesis by simp
  qed
qed

end

end
