(* ===== verification/Executor.thy ===== *)
theory Executor
  imports Monitor_Ops Scheduler
begin

text \<open>
  The executor (\<^verbatim>\<open>internals/modules/executor\<close>): a worker loads the monitor of each job and runs
  one HTTP check for it. The exchange with the checked server is an oracle. Here a worker runs
  its checks in the order of its jobs; the goroutine of each check and the semaphore are steps
  of the running system in \<open>Pipeline\<close>.
\<close>

section \<open>Results and exchanges (models.go)\<close>

record hTTPResult =
  hr_MonitorID :: uuid
  hr_Success :: bool
  hr_Status :: int
  hr_LatencyMs :: int
  hr_Reason :: string
  hr_Retryable :: bool
  hr_CheckedAt :: time
  hr_IntervalSec :: int32
  hr_AlertEmail :: string

text \<open>
  Building the request may fail (a malformed URL); \<^verbatim>\<open>Client.Do\<close> may fail, always with a
  \<^verbatim>\<open>*url.Error\<close> around the cause; otherwise there is a response with a status code.
\<close>

datatype exchange = BadRequest go_error | DoFailed go_error | Response int

section \<open>Classifying a failed exchange (executor.go)\<close>

fun is_DNSError :: "go_error \<Rightarrow> bool" where
  "is_DNSError (DNSError _) = True" | "is_DNSError _ = False"

text \<open>The errors that implement \<^verbatim>\<open>net.Error\<close>.\<close>

fun is_netError :: "go_error \<Rightarrow> bool" where
  "is_netError DeadlineExceeded = True"
| "is_netError (DNSError _) = True"
| "is_netError (TimeoutErr _) = True"
| "is_netError (OpError _) = True"
| "is_netError (URLError _) = True"
| "is_netError _ = False"

text \<open>\<^verbatim>\<open>Timeout()\<close>: the wrappers ask the error they hold directly.\<close>

fun Timeout :: "go_error \<Rightarrow> bool" where
  "Timeout DeadlineExceeded = True"
| "Timeout (DNSError b) = b"
| "Timeout (TimeoutErr _) = True"
| "Timeout (OpError e) = Timeout e"
| "Timeout (URLError e) = Timeout e"
| "Timeout _ = False"

definition classifyError :: "go_error \<Rightarrow> string \<times> bool" where
  "classifyError err =
     (if errors_Is err DeadlineExceeded then (''TIMEOUT'', True)
      else if errors_As is_DNSError err \<noteq> None then (''DNS_FAILURE'', False)
      else (case errors_As is_netError err of
          Some netErr \<Rightarrow> if Timeout netErr then (''NETWORK_TIMEOUT'', True) else (''NETWORK_ERROR'', True)
        | None \<Rightarrow> (''UNKNOWN_ERROR'', True)))"

section \<open>One check (executor.go)\<close>

text \<open>
  The literals leave out \<^verbatim>\<open>IntervalSec\<close> and \<^verbatim>\<open>AlertEmail\<close> everywhere, and \<^verbatim>\<open>Status\<close> and
  \<^verbatim>\<open>LatencyMs\<close> when there is no response: those fields are zero.
\<close>

definition executeHTTPCheck :: "(string \<Rightarrow> nat \<Rightarrow> exchange) \<Rightarrow> monitor \<Rightarrow> ('k, 'd) env \<Rightarrow> ('k, 'd) env \<times> hTTPResult" where
  "executeHTTPCheck http m e =
     (let (e1, start) = time_now e in
      case http (mon_Url m) (ticks e1) of
        BadRequest err \<Rightarrow> (let (e2, now) = time_now e1 in
          (e2, \<lparr>hr_MonitorID = mon_ID m, hr_Success = False, hr_Status = 0, hr_LatencyMs = 0,
                hr_Reason = ''INVALID_REQUEST'', hr_Retryable = False, hr_CheckedAt = now,
                hr_IntervalSec = 0, hr_AlertEmail = ''''\<rparr>))
      | DoFailed cause \<Rightarrow> (let (e2, t) = time_now e1; (reason, isRetryable) = classifyError (URLError cause);
                               (e3, now) = time_now e2 in
          (e3, \<lparr>hr_MonitorID = mon_ID m, hr_Success = False, hr_Status = 0, hr_LatencyMs = 0,
                hr_Reason = reason, hr_Retryable = isRetryable, hr_CheckedAt = now,
                hr_IntervalSec = 0, hr_AlertEmail = ''''\<rparr>))
      | Response status \<Rightarrow> (let (e2, t) = time_now e1; latency = Milliseconds (t - start);
                                success = (status = sint (mon_ExpectedStatus m) \<and>
                                  latency \<le> sint (mon_LatencyThresholdMs m));
                                (e3, now) = time_now e2 in
          (e3, \<lparr>hr_MonitorID = mon_ID m, hr_Success = success, hr_Status = status, hr_LatencyMs = latency,
                hr_Reason = '''', hr_Retryable = False, hr_CheckedAt = now,
                hr_IntervalSec = 0, hr_AlertEmail = ''''\<rparr>)))"

section \<open>The worker loop (executor.go)\<close>

text \<open>
  The body of the loop for one job: nothing, or the result that the check's goroutine sends on
  the result channel.
\<close>

definition work_job :: "'k services \<Rightarrow> (string \<Rightarrow> nat \<Rightarrow> exchange) \<Rightarrow> jobPayload \<Rightarrow> 'k world \<Rightarrow>
    'k world \<times> hTTPResult option" where
  "work_job x http job e = (case LoadMonitor x (job_MonitorID job) e of
     (e1, Inl err) \<Rightarrow>
       (if IsKind err NotFound then (e1, None)
        else (ScheduleMonitor x (job_MonitorID job) 5 e1, None))
   | (e1, Inr m) \<Rightarrow>
       (if \<not> mon_Enabled m then (e1, None)
        else (case executeHTTPCheck http m e1 of (e2, r) \<Rightarrow> (e2, Some r))))"

text \<open>The part of the body that a worker runs itself: the monitor to check, if any.\<close>

definition load_job :: "'k services \<Rightarrow> jobPayload \<Rightarrow> 'k world \<Rightarrow> 'k world \<times> monitor option" where
  "load_job x job e = (case LoadMonitor x (job_MonitorID job) e of
     (e1, Inl err) \<Rightarrow>
       (if IsKind err NotFound then (e1, None)
        else (ScheduleMonitor x (job_MonitorID job) 5 e1, None))
   | (e1, Inr m) \<Rightarrow> (if \<not> mon_Enabled m then (e1, None) else (e1, Some m)))"

text \<open>
  \<^verbatim>\<open>startWork\<close> over the jobs one worker receives, with each check run to its end before the
  next job is taken; the semaphore and the wait groups only bound how many checks overlap.
\<close>

primrec startWork :: "'k services \<Rightarrow> (string \<Rightarrow> nat \<Rightarrow> exchange) \<Rightarrow> jobPayload list \<Rightarrow> 'k world \<Rightarrow>
    'k world \<times> hTTPResult list" where
  "startWork x http [] e = (e, [])"
| "startWork x http (job # jobs) e = (let (e1, r) = work_job x http job e; (e2, rs) = startWork x http jobs e1
     in (e2, (case r of None \<Rightarrow> rs | Some res \<Rightarrow> res # rs)))"

section \<open>Facts\<close>

lemma work_job_load: "work_job x http job e = (case load_job x job e of
    (e1, None) \<Rightarrow> (e1, None) | (e1, Some m) \<Rightarrow> (case executeHTTPCheck http m e1 of (e2, r) \<Rightarrow> (e2, Some r)))"
  by (simp add: work_job_def load_job_def split: prod.splits sum.splits if_splits)

lemma classifyError_reason:
  "classifyError err \<in> {(''TIMEOUT'', True), (''DNS_FAILURE'', False), (''NETWORK_TIMEOUT'', True),
     (''NETWORK_ERROR'', True), (''UNKNOWN_ERROR'', True)}"
  by (auto simp: classifyError_def split: option.splits)

lemma errors_As_URLError: "errors_As is_netError (URLError e) = Some (URLError e)"
  by (simp add: errors_As_def)

lemma classifyError_Do:
  "classifyError (URLError cause) =
     (if errors_Is cause DeadlineExceeded then (''TIMEOUT'', True)
      else if \<exists>e \<in> set (error_chain cause). is_DNSError e then (''DNS_FAILURE'', False)
      else if Timeout cause then (''NETWORK_TIMEOUT'', True) else (''NETWORK_ERROR'', True))"
proof -
  have "errors_Is (URLError cause) DeadlineExceeded \<longleftrightarrow> errors_Is cause DeadlineExceeded"
    by (simp add: errors_Is_def)
  moreover have "errors_As is_DNSError (URLError cause) \<noteq> None \<longleftrightarrow> (\<exists>e \<in> set (error_chain cause). is_DNSError e)"
    using errors_As_None_iff [of is_DNSError "URLError cause"] by simp
  ultimately show ?thesis by (simp add: classifyError_def errors_As_URLError)
qed

lemma executeHTTPCheck_result:
  assumes "executeHTTPCheck http m e = (e', r)"
  shows "kv e' = kv e" and "db e' = db e" and "later e e'"
    and "hr_MonitorID r = mon_ID m" and "hr_IntervalSec r = 0"
    and "hr_Success r \<longleftrightarrow> (\<exists>st. http (mon_Url m) (Suc (ticks e)) = Response st \<and> st = sint (mon_ExpectedStatus m) \<and>
      Milliseconds (clock e (Suc (ticks e)) - clock e (ticks e)) \<le> sint (mon_LatencyThresholdMs m))"
    and "hr_Success r \<Longrightarrow> hr_Status r = sint (mon_ExpectedStatus m) \<and> \<not> hr_Retryable r"
  using assms
  by (auto simp: executeHTTPCheck_def time_now_def Let_def later_def case_prod_unfold split: exchange.splits)

lemma work_job_cases:
  assumes "work_job x http job e = (e', r)"
  obtains (gone) err where "LoadMonitor x (job_MonitorID job) e = (e', Inl err)" "IsKind err NotFound" "r = None"
  | (failed) e1 err where "LoadMonitor x (job_MonitorID job) e = (e1, Inl err)" "\<not> IsKind err NotFound"
      "e' = ScheduleMonitor x (job_MonitorID job) 5 e1" "r = None"
  | (off) m where "LoadMonitor x (job_MonitorID job) e = (e', Inr m)" "\<not> mon_Enabled m" "r = None"
  | (checked) e1 m res where "LoadMonitor x (job_MonitorID job) e = (e1, Inr m)" "mon_Enabled m"
      "executeHTTPCheck http m e1 = (e', res)" "r = Some res"
proof (cases "LoadMonitor x (job_MonitorID job) e")
  case (Pair e1 l)
  show thesis
  proof (cases l)
    case (Inl err)
    with Pair assms gone failed show ?thesis by (auto simp: work_job_def split: if_splits)
  next
    case (Inr m)
    with Pair assms off checked show ?thesis by (auto simp: work_job_def split: if_splits prod.splits)
  qed
qed

context monit
begin

lemma work_job_inv:
  assumes inv: "service_inv x e" and run: "work_job x http job e = (e', r)"
  shows "service_inv x e' \<and> later e e' \<and> db e' = db e \<and>
    touches {monitorKey (uuid_string x (job_MonitorID job)), scheduleKey} (vw x e) (vw x e') \<and>
    (\<forall>res. r = Some res \<longrightarrow> hr_MonitorID res = job_MonitorID job \<and>
       job_MonitorID job \<in> m_ID ` set (monitors (db e)))"
  using run
proof (cases rule: work_job_cases)
  case (gone err)
  from LoadMonitor_result [OF inv gone(1)] gone(3) show ?thesis by (auto intro: touches_mono)
next
  case (failed e1 err)
  note l = LoadMonitor_result [OF inv failed(1)]
  note be = best_effortD [OF ScheduleMonitor_best_effort [of "job_MonitorID job" e1 5], folded failed(3)]
  have "touches {monitorKey (uuid_string x (job_MonitorID job)), scheduleKey} (vw x e) (vw x e1)"
    "touches {monitorKey (uuid_string x (job_MonitorID job)), scheduleKey} (vw x e1) (vw x e')"
    using l be(1) by (auto elim: touches_mono)
  with l be ScheduleMonitor_inv [of e1 "job_MonitorID job" 5] failed(3,4) show ?thesis
    by (auto intro: later_trans touches_trans)
next
  case (off m)
  from LoadMonitor_result [OF inv off(1)] off(3) show ?thesis by (auto intro: touches_mono)
next
  case (checked e1 m res)
  note l = LoadMonitor_result [OF inv checked(1)]
  note c = executeHTTPCheck_result [OF checked(3)]
  have "mon_ID m = job_MonitorID job" "job_MonitorID job \<in> m_ID ` set (monitors (db e))"
    using l is_rowD by blast+
  moreover have "service_inv x e'" using l kv_vw [OF c(1)] c(2) by (auto intro: service_inv_same)
  ultimately show ?thesis using l c(2-4) kv_vw [OF c(1)] checked(4)
    by (auto intro: later_trans touches_mono)
qed

lemma load_job_inv:
  assumes inv: "service_inv x e" and run: "load_job x job e = (e', r)"
  shows "service_inv x e' \<and> later e e' \<and> db e' = db e \<and> (\<forall>m. r = Some m \<longrightarrow> mon_ID m \<in> m_ID ` set (monitors (db e)))"
proof -
  obtain e1 l where l: "LoadMonitor x (job_MonitorID job) e = (e1, l)" by (cases "LoadMonitor x (job_MonitorID job) e")
  note lr = LoadMonitor_result [OF inv l]
  note be = best_effortD [OF ScheduleMonitor_best_effort [of "job_MonitorID job" e1 5]]
  have "e' = e1 \<or> e' = ScheduleMonitor x (job_MonitorID job) 5 e1" and "\<And>m. r = Some m \<Longrightarrow> l = Inr m"
    using run l by (auto simp: load_job_def split: sum.splits if_splits)
  with lr be(3,4) ScheduleMonitor_inv [of e1 "job_MonitorID job" 5] is_rowD show ?thesis
    by (auto intro: later_trans)
qed

end

end
