(* ===== verification/Result.thy ===== *)
theory Result
  imports Executor
begin

text \<open>
  The result processor (\<^verbatim>\<open>internals/modules/result\<close>): the incident repository, the router, the
  success worker and the failure worker, and the alert service that consumes what the failure
  worker sends (\<^verbatim>\<open>internals/modules/alert\<close>).
\<close>

section \<open>The incident repository (types.go, repository.go)\<close>

record monitorIncident =
  mi_ID :: uuid
  mi_MonitorID :: uuid
  mi_StartTime :: time
  mi_EndTime :: time
  mi_Alerted :: bool
  mi_HttpStatus :: int32
  mi_LatencyMs :: int32
  mi_CreatedAt :: time

text \<open>\<^verbatim>\<open>int32(e.Status)\<close> and \<^verbatim>\<open>int32(e.LatencyMs)\<close> keep the low 32 bits.\<close>

definition incident_Create :: "time \<Rightarrow> hTTPResult \<Rightarrow> 'k world \<Rightarrow> 'k world \<times> go_error option" where
  "incident_Create startTime r e = (case dcall (createMonitorIncident_sql (gen e (ticks e)) (clock e (ticks e))
       (hr_MonitorID r) startTime True (word_of_int (hr_Status r)) (word_of_int (hr_LatencyMs r))) e of
     (e', Inr _) \<Rightarrow> (e', None)
   | (e', Inl err) \<Rightarrow> (e', Some (WrapRepoError ''repo.monitor_incident.create'' err False)))"

definition incident_GetByID :: "uuid \<Rightarrow> 'k world \<Rightarrow> 'k world \<times> monitorIncident result" where
  "incident_GetByID incidentID e = (case dcall (getMonitorIncidentByID_sql incidentID) e of
     (e', Inr r) \<Rightarrow> (e', Inr \<lparr>mi_ID = FromPgUUID (ToPgUUID (i_ID r)), mi_MonitorID = FromPgUUID (ToPgUUID (i_MonitorID r)),
        mi_StartTime = FromPgTimestamptz (Some (Finite (i_StartTime r))),
        mi_EndTime = FromPgTimestamptz (map_option Finite (i_EndTime r)), mi_Alerted = i_Alerted r,
        mi_HttpStatus = i_HttpStatus r, mi_LatencyMs = i_LatencyMs r,
        mi_CreatedAt = FromPgTimestamptz (Some (Finite (i_CreatedAt r)))\<rparr>)
   | (e', Inl err) \<Rightarrow> (e', Inl (WrapRepoError ''repo.monitor_incident.get'' err True)))"

definition CloseIncident :: "uuid \<Rightarrow> time \<Rightarrow> 'k world \<Rightarrow> 'k world \<times> go_error option" where
  "CloseIncident monitorID endTime e = (let op = ''repo.monitor_incident.close_incident'' in
     case dcall (closeMonitorIncident_sql monitorID endTime) e of
       (e', Inr rows) \<Rightarrow> (e', if rows = 0
          then Some (AppError NotFound op None ''resource not found'' None) else None)
     | (e', Inl err) \<Rightarrow> (e', Some (WrapRepoError op err False)))"

section \<open>The router (processor.go)\<close>

text \<open>\<^verbatim>\<open>router\<close>: what goes to the success channel and what to the failure channel, in order.\<close>

primrec router :: "hTTPResult list \<Rightarrow> hTTPResult list \<times> hTTPResult list" where
  "router [] = ([], [])"
| "router (r # rs) = (let (successChan, failureChan) = router rs in
     if hr_Success r then (r # successChan, failureChan) else (successChan, r # failureChan))"

section \<open>The success worker (success\_worker.go)\<close>

definition success_deferred :: "'k services \<Rightarrow> hTTPResult \<Rightarrow> 'k world \<Rightarrow> 'k world" where
  "success_deferred x r e = (let e1 = fst (AckJob x (uuid_string x (hr_MonitorID r)) e)
     in ScheduleMonitor x (hr_MonitorID r) (hr_IntervalSec r) e1)"

definition success_body :: "'k services \<Rightarrow> hTTPResult \<Rightarrow> 'k world \<Rightarrow> 'k world" where
  "success_body x r e =
     (let e1 = fst (StoreStatus x (hr_MonitorID r) (hr_Status r) (hr_LatencyMs r) (hr_CheckedAt r) e) in
      case GetIncident x (hr_MonitorID r) e1 of
        (e2, Inl err) \<Rightarrow> e2
      | (e2, Inr None) \<Rightarrow> e2
      | (e2, Inr (Some incident)) \<Rightarrow>
         (let dbIncident = (incident ''db_incident'' = Some ''true'');
              e3 = (if dbIncident
                    then (let (e', now) = time_now e2 in fst (CloseIncident (hr_MonitorID r) now e')) else e2);
              e4 = fst (ClearIncident x (hr_MonitorID r) e3)
          in fst (ClearRetry x (hr_MonitorID r) e4)))"

definition handleSuccess :: "'k services \<Rightarrow> hTTPResult \<Rightarrow> 'k world \<Rightarrow> 'k world" where
  "handleSuccess x r e = success_deferred x r (success_body x r e)"

section \<open>The failure worker (failure\_worker.go)\<close>

datatype alertEvent = AlertEvent (ae_MonitorID: uuid)

definition failure_deferred :: "'k services \<Rightarrow> hTTPResult \<Rightarrow> bool \<Rightarrow> 'k world \<Rightarrow> 'k world" where
  "failure_deferred x r reschedule e = (let e1 = fst (AckJob x (uuid_string x (hr_MonitorID r)) e) in
     if reschedule then ScheduleMonitor x (hr_MonitorID r) (hr_IntervalSec r) e1 else e1)"

text \<open>Case 3: count the failure, and alert once when the third in a row is counted.\<close>

definition failure_incident :: "'k services \<Rightarrow> hTTPResult \<Rightarrow> 'k world \<Rightarrow> 'k world \<times> alertEvent list" where
  "failure_incident x r e = (case IncrementIncident x (hr_MonitorID r) e of
     (e1, _, Some err) \<Rightarrow> (e1, [])
   | (e1, (failCount, _), None) \<Rightarrow>
      (if failCount < 3 then (e1, [])
       else (case MarkIncidentAlertedIfNotSet x (hr_MonitorID r) e1 of
           (e2, Inl err) \<Rightarrow> (e2, [])
         | (e2, Inr shouldAlert) \<Rightarrow>
            (if \<not> shouldAlert then (e2, [])
             else (let e3 = fst (MarkDBIncidentCreated x (hr_MonitorID r) e2); (e4, now) = time_now e3;
                       e5 = fst (incident_Create now r e4)
                   in (e5, [AlertEvent (hr_MonitorID r)]))))))"

text \<open>The body, with the value of \<^verbatim>\<open>reschedule\<close> when it returns and the alerts it has sent.\<close>

definition failure_body :: "'k services \<Rightarrow> hTTPResult \<Rightarrow> 'k world \<Rightarrow> 'k world \<times> bool \<times> alertEvent list" where
  "failure_body x r e =
     (if hr_Reason r = ''INVALID_REQUEST'' \<or> hr_Reason r = ''DNS_FAILURE''
      then (fst (StoreStatus x (hr_MonitorID r) (hr_Status r) (hr_LatencyMs r) (hr_CheckedAt r) e), False, [])
      else if hr_Retryable r
      then (case IncrementRetry x (hr_MonitorID r) e of
          (e1, _, Some err) \<Rightarrow> (ScheduleMonitor x (hr_MonitorID r) (hr_IntervalSec r) e1, False, [])
        | (e1, retryCount, None) \<Rightarrow>
           (if retryCount \<le> 2 then (ScheduleMonitor x (hr_MonitorID r) 5 e1, False, [])
            else (let e2 = fst (ClearRetry x (hr_MonitorID r) e1); (e3, alerts) = failure_incident x r e2
                  in (e3, True, alerts))))
      else (let (e3, alerts) = failure_incident x r e in (e3, True, alerts)))"

definition handleFailure :: "'k services \<Rightarrow> hTTPResult \<Rightarrow> 'k world \<Rightarrow> 'k world \<times> alertEvent list" where
  "handleFailure x r e = (let (e1, reschedule, alerts) = failure_body x r e
     in (failure_deferred x r reschedule e1, alerts))"

section \<open>Workers and alerts\<close>

primrec successWorker :: "'k services \<Rightarrow> hTTPResult list \<Rightarrow> 'k world \<Rightarrow> 'k world" where
  "successWorker x [] e = e"
| "successWorker x (r # rs) e = successWorker x rs (handleSuccess x r e)"

primrec failureWorker :: "'k services \<Rightarrow> hTTPResult list \<Rightarrow> 'k world \<Rightarrow> 'k world \<times> alertEvent list" where
  "failureWorker x [] e = (e, [])"
| "failureWorker x (r # rs) e = (let (e1, a) = handleFailure x r e; (e2, as) = failureWorker x rs e1 in (e2, a @ as))"

text \<open>An alert is printed to the log: nothing else is done with it yet.\<close>

definition handleAlerts :: "alertEvent list \<Rightarrow> uuid list" where
  "handleAlerts alerts = map ae_MonitorID alerts"

definition cleanupRedis :: "'k services \<Rightarrow> uuid \<Rightarrow> 'k world \<Rightarrow> 'k world" where
  "cleanupRedis x monitorID e = fst (ClearIncident x monitorID e)"

end
