(* ===== verification/Result_Laws.thy ===== *)
theory Result_Laws
  imports Result
begin

text \<open>
  The result processor in every environment: which keys its handlers may touch and that they
  keep the invariant of the monitor service.
\<close>

section \<open>Steps that keep the invariant\<close>

definition keeps :: "'k services \<Rightarrow> string set \<Rightarrow> 'k world \<Rightarrow> 'k world \<Rightarrow> bool" where
  "keeps x K e e' \<longleftrightarrow> touches K (vw x e) (vw x e') \<and> later e e' \<and> (service_inv x e \<longrightarrow> service_inv x e') \<and>
     monitors (db e') = monitors (db e)"

lemma keepsD:
  assumes "keeps x K e e'"
  shows "touches K (vw x e) (vw x e')" and "later e e'" and "service_inv x e \<Longrightarrow> service_inv x e'"
    and "reliable e \<Longrightarrow> reliable e'" and "monitors (db e') = monitors (db e)"
  using assms by (auto simp: keeps_def intro: reliable_later)

lemma keeps_refl [simp]: "keeps x K e e"
  by (simp add: keeps_def)

lemma keeps_trans: "keeps x K e e' \<Longrightarrow> keeps x K e' e'' \<Longrightarrow> keeps x K e e''"
  by (auto simp: keeps_def intro: touches_trans later_trans)

lemma keeps_mono: "keeps x K e e' \<Longrightarrow> K \<subseteq> K' \<Longrightarrow> keeps x K' e e'"
  by (auto simp: keeps_def intro: touches_mono)

lemma keeps_same: "vw x e' = vw x e \<Longrightarrow> later e e' \<Longrightarrow> db e' = db e \<Longrightarrow> keeps x K e e'"
  by (auto simp: keeps_def intro: service_inv_same)

lemma keeps_time_now [simp]: "keeps x K e (fst (time_now e))"
  by (rule keeps_same) simp_all

lemma service_inv_incidents:
  assumes "service_inv x e" and "ran stmt e e'" and "wf_tables (fst (stmt (db e)))"
    and "users (fst (stmt (db e))) = users (db e)" and "monitors (fst (stmt (db e))) = monitors (db e)"
  shows "service_inv x e'"
  using assms(1) by (intro service_inv_ran [OF assms(1-3)])
    (simp_all add: service_inv_def within_quota_def ascii_tables_def cache_agrees_def assms(4,5))

lemma tables_incidents [simp]:
  "users (fst (createMonitorIncident_sql i now mid st a c l T)) = users T"
  "monitors (fst (createMonitorIncident_sql i now mid st a c l T)) = monitors T"
  "users (fst (closeMonitorIncident_sql mid t T)) = users T"
  "monitors (fst (closeMonitorIncident_sql mid t T)) = monitors T"
  by (simp_all add: createMonitorIncident_sql_def closeMonitorIncident_sql_def Let_def)

lemma keeps_ran_incidents:
  assumes "ran stmt e e'" and "\<And>T. wf_tables T \<Longrightarrow> wf_tables (fst (stmt T))"
    and "\<And>T. users (fst (stmt T)) = users T" and "\<And>T. monitors (fst (stmt T)) = monitors T"
  shows "keeps x K e e'"
  using assms service_inv_incidents [OF _ assms(1)] ran_later [OF assms(1)] ran_vw [OF assms(1)]
  by (auto simp: keeps_def service_inv_def ran_def)

lemma incident_Create_ran:
  "ran (createMonitorIncident_sql (gen e (ticks e)) (clock e (ticks e)) (hr_MonitorID r) t True
     (word_of_int (hr_Status r)) (word_of_int (hr_LatencyMs r))) e (fst (incident_Create t r e))"
proof -
  let ?s = "createMonitorIncident_sql (gen e (ticks e)) (clock e (ticks e)) (hr_MonitorID r) t True
     (word_of_int (hr_Status r)) (word_of_int (hr_LatencyMs r))"
  obtain e' q where c: "dcall ?s e = (e', q)" by (cases "dcall ?s e")
  then have "fst (incident_Create t r e) = e'" by (cases q) (simp_all add: incident_Create_def)
  with dcall_result(1) [OF c] show ?thesis by simp
qed

lemma CloseIncident_ran: "ran (closeMonitorIncident_sql u t) e (fst (CloseIncident u t e))"
proof -
  obtain e' q where c: "dcall (closeMonitorIncident_sql u t) e = (e', q)"
    by (cases "dcall (closeMonitorIncident_sql u t) e")
  then have "fst (CloseIncident u t e) = e'" by (cases q) (simp_all add: CloseIncident_def Let_def)
  with dcall_result(1) [OF c] show ?thesis by simp
qed

lemma incident_Create_keeps: "keeps x K e (fst (incident_Create t r e))"
  by (rule keeps_ran_incidents [OF incident_Create_ran]) (simp_all add: wf_statements)

lemma CloseIncident_keeps: "keeps x K e (fst (CloseIncident u t e))"
  by (rule keeps_ran_incidents [OF CloseIncident_ran]) (simp_all add: wf_statements)

context monit
begin

lemma keeps_best_effort:
  assumes "best_effort x K f e e'" and "\<And>u. monitorKey (uuid_string x u) \<notin> K"
  shows "keeps x K e e'"
  using best_effortD(1,3,4) [OF assms(1)] service_inv_best_effort [OF _ assms] by (simp add: keeps_def)

lemma keeps_touches:
  assumes "touches K (vw x e) (vw x e')" and "typed x (vw x e) \<Longrightarrow> typed x (vw x e')"
    and "later e e'" and "db e' = db e" and "\<And>u. monitorKey (uuid_string x u) \<notin> K"
  shows "keeps x K e e'"
  using assms cache_agrees_touches [OF _ assms(1,5)] by (auto simp: keeps_def service_inv_def)

lemma store_keeps:
  "keeps x {scheduleKey} e (ScheduleMonitor x u n e)"
  "keeps x {inflightKey} e (fst (AckJob x m e))"
  "keeps x {incidentKey x u} e (fst (ClearIncident x u e))"
  "keeps x {retryKey x u} e (fst (ClearRetry x u e))"
  "keeps x {incidentKey x u} e (fst (MarkDBIncidentCreated x u e))"
  "keeps x {statusKey x u} e (fst (StoreStatus x u c l t e))"
  by (rule keeps_best_effort [OF ScheduleMonitor_best_effort], simp)
    (rule keeps_best_effort [OF AckJob_best_effort], simp,
     rule keeps_best_effort [OF ClearIncident_best_effort], simp,
     rule keeps_best_effort [OF ClearRetry_best_effort], simp,
     rule keeps_best_effort [OF MarkDBIncidentCreated_best_effort], simp,
     rule keeps_best_effort [OF StoreStatus_best_effort], simp)

lemma IncrementRetry_keeps:
  assumes "IncrementRetry x u e = (e', c, r)"
  shows "keeps x {retryKey x u} e e'"
  using IncrementRetry_frame [OF assms] IncrementRetry_later [where e = e and u = u] assms by (intro keeps_touches) simp_all

lemma IncrementIncident_keeps:
  assumes "IncrementIncident x u e = (e', c, r)"
  shows "keeps x {incidentKey x u} e e'"
  using IncrementIncident_frame [OF assms] IncrementIncident_later [where e = e and u = u] assms
  by (intro keeps_touches) (simp_all add: incident_frame_def)

lemma MarkAlerted_keeps:
  assumes "MarkIncidentAlertedIfNotSet x u e = (e', r)"
  shows "keeps x {incidentKey x u} e e'"
proof -
  note res = MarkIncidentAlertedIfNotSet_result [OF assms]
  have "vw x e' = vw x e \<or> vw x e' = mark_alerted x u (vw x e)"
    using res(1,2) by (cases r) blast+
  with res(3,4) show ?thesis
    by (intro keeps_touches) (auto simp: touches_mark_alerted)
qed

end

section \<open>The handlers\<close>

text \<open>What is kept in Redis about the results of a monitor, and that with the queues.\<close>

definition track_keys :: "'k services \<Rightarrow> uuid \<Rightarrow> string set" where
  "track_keys x u = {incidentKey x u, retryKey x u, statusKey x u}"

definition result_keys :: "'k services \<Rightarrow> uuid \<Rightarrow> string set" where
  "result_keys x u = {scheduleKey, inflightKey} \<union> track_keys x u"

lemma keeps_result: "keeps x (track_keys x u) e e' \<Longrightarrow> keeps x (result_keys x u) e e'"
  by (erule keeps_mono) (auto simp: result_keys_def)

context monit
begin

lemma store_tracks:
  "keeps x (track_keys x u) e (fst (ClearIncident x u e))"
  "keeps x (track_keys x u) e (fst (ClearRetry x u e))"
  "keeps x (track_keys x u) e (fst (MarkDBIncidentCreated x u e))"
  "keeps x (track_keys x u) e (fst (StoreStatus x u c l t e))"
  "IncrementRetry x u e = (e', rc, er) \<Longrightarrow> keeps x (track_keys x u) e e'"
  "IncrementIncident x u e = (e', ic, er) \<Longrightarrow> keeps x (track_keys x u) e e'"
  "MarkIncidentAlertedIfNotSet x u e = (e', mr) \<Longrightarrow> keeps x (track_keys x u) e e'"
  by (auto simp: track_keys_def intro: keeps_mono [OF store_keeps(3)] keeps_mono [OF store_keeps(4)]
      keeps_mono [OF store_keeps(5)] keeps_mono [OF store_keeps(6)] keeps_mono [OF IncrementRetry_keeps]
      keeps_mono [OF IncrementIncident_keeps] keeps_mono [OF MarkAlerted_keeps])

lemma queue_keeps:
  "keeps x (result_keys x u) e (ScheduleMonitor x u n e)"
  "keeps x (result_keys x u) e (fst (AckJob x m e))"
  by (auto simp: result_keys_def intro: keeps_mono [OF store_keeps(1)] keeps_mono [OF store_keeps(2)])

lemma success_deferred_keeps: "keeps x (result_keys x (hr_MonitorID r)) e (success_deferred x r e)"
  by (simp add: success_deferred_def Let_def keeps_trans [OF queue_keeps(2) queue_keeps(1)])

lemma failure_deferred_keeps: "keeps x (result_keys x (hr_MonitorID r)) e (failure_deferred x r b e)"
  by (simp add: failure_deferred_def Let_def queue_keeps keeps_trans [OF queue_keeps(2) queue_keeps(1)])

lemma success_body_tracks: "keeps x (track_keys x (hr_MonitorID r)) e (success_body x r e)"
proof -
  let ?u = "hr_MonitorID r"
  let ?e1 = "fst (StoreStatus x ?u (hr_Status r) (hr_LatencyMs r) (hr_CheckedAt r) e)"
  obtain e2 g where g: "GetIncident x ?u ?e1 = (e2, g)" by (cases "GetIncident x ?u ?e1")
  have k1: "keeps x (track_keys x ?u) e ?e1" by (rule store_tracks)
  have k2: "keeps x (track_keys x ?u) ?e1 e2"
    using GetIncident_result(1-3) [OF g] by (rule keeps_same)
  have k12: "keeps x (track_keys x ?u) e e2" using k1 k2 by (rule keeps_trans)
  have fin: "keeps x (track_keys x ?u) e3 (fst (ClearRetry x ?u (fst (ClearIncident x ?u e3))))" for e3
    by (rule keeps_trans [OF store_tracks(1) store_tracks(2)])
  have close: "keeps x (track_keys x ?u) e2 (fst (CloseIncident ?u (snd (time_now e2)) (fst (time_now e2))))"
    by (rule keeps_trans [OF keeps_time_now CloseIncident_keeps])
  show ?thesis
  proof (cases "\<exists>incident. g = Inr (Some incident)")
    case True
    then show ?thesis using g keeps_trans [OF k12 fin] keeps_trans [OF k12 keeps_trans [OF close fin]]
      by (auto simp: success_body_def Let_def case_prod_unfold)
  next
    case False
    then have "success_body x r e = e2"
      using g by (auto simp: success_body_def Let_def split: sum.splits option.splits)
    with k12 show ?thesis by simp
  qed
qed

lemma handleSuccess_keeps: "keeps x (result_keys x (hr_MonitorID r)) e (handleSuccess x r e)"
  unfolding handleSuccess_def by (rule keeps_trans [OF keeps_result [OF success_body_tracks] success_deferred_keeps])

lemma failure_incident_tracks: "keeps x (track_keys x (hr_MonitorID r)) e (fst (failure_incident x r e))"
proof -
  let ?u = "hr_MonitorID r"
  obtain e1 n b q where i: "IncrementIncident x ?u e = (e1, (n, b), q)" by (cases "IncrementIncident x ?u e") auto
  obtain e2 m where m: "MarkIncidentAlertedIfNotSet x ?u e1 = (e2, m)"
    by (cases "MarkIncidentAlertedIfNotSet x ?u e1")
  let ?e3 = "fst (MarkDBIncidentCreated x ?u e2)"
  let ?e4 = "fst (time_now ?e3)"
  have k1: "keeps x (track_keys x ?u) e e1" by (rule store_tracks(6) [OF i])
  have k2: "keeps x (track_keys x ?u) e e2" by (rule keeps_trans [OF k1 store_tracks(7) [OF m]])
  have k5: "keeps x (track_keys x ?u) e (fst (incident_Create (snd (time_now ?e3)) r ?e4))"
    by (rule keeps_trans [OF k2 keeps_trans [OF store_tracks(3) keeps_trans [OF keeps_time_now incident_Create_keeps]]])
  show ?thesis
    using i m k1 k2 k5
    by (auto simp: failure_incident_def Let_def case_prod_unfold split: option.splits sum.splits)
qed

lemma failure_body_keeps: "keeps x (result_keys x (hr_MonitorID r)) e (fst (failure_body x r e))"
proof -
  let ?u = "hr_MonitorID r"
  obtain e1 n q where i: "IncrementRetry x ?u e = (e1, n, q)" by (cases "IncrementRetry x ?u e") auto
  have k1: "keeps x (result_keys x ?u) e e1" by (rule keeps_result [OF store_tracks(5) [OF i]])
  have s: "keeps x (result_keys x ?u) e (ScheduleMonitor x ?u k e1)" for k
    by (rule keeps_trans [OF k1 queue_keeps(1)])
  have f: "keeps x (result_keys x ?u) e (fst (failure_incident x r (fst (ClearRetry x ?u e1))))"
    by (rule keeps_trans [OF k1 keeps_result [OF keeps_trans [OF store_tracks(2) failure_incident_tracks]]])
  show ?thesis
    using i s f
    by (auto simp: failure_body_def Let_def case_prod_unfold keeps_result store_tracks failure_incident_tracks split: option.splits)
qed

lemma handleFailure_keeps: "keeps x (result_keys x (hr_MonitorID r)) e (fst (handleFailure x r e))"
  using keeps_trans [OF failure_body_keeps failure_deferred_keeps]
  by (simp add: handleFailure_def case_prod_unfold Let_def)

end

end
