(* ===== verification/Failure_Policy.thy ===== *)
theory Failure_Policy
  imports Result_Laws
begin

text \<open>
  What the failure worker promises, as a state machine on three values per monitor: how often
  the current failure has been retried, how many failures have been counted since the last
  success, and whether an alert has gone out. The handlers of the result processor implement
  it when their calls are delivered.
\<close>

section \<open>The policy\<close>

record track =
  tr_retry :: int
  tr_fails :: int
  tr_alerted :: bool

datatype verdict = Terminal | Transient | Definite

datatype next_run = Never | Soon | Regular

definition verdict_of :: "hTTPResult \<Rightarrow> verdict" where
  "verdict_of r = (if hr_Reason r = ''INVALID_REQUEST'' \<or> hr_Reason r = ''DNS_FAILURE'' then Terminal
     else if hr_Retryable r then Transient else Definite)"

definition count_failure :: "track \<Rightarrow> track \<times> bool" where
  "count_failure t = (let n = tr_fails t + 1 in
     (t\<lparr>tr_fails := n, tr_alerted := tr_alerted t \<or> 3 \<le> n\<rparr>, 3 \<le> n \<and> \<not> tr_alerted t))"

text \<open>The new state, when to run next, and whether to alert.\<close>

definition policy :: "verdict \<Rightarrow> track \<Rightarrow> track \<times> next_run \<times> bool" where
  "policy v t = (case v of
     Terminal \<Rightarrow> (t, Never, False)
   | Transient \<Rightarrow> (if tr_retry t + 1 \<le> 2 then (t\<lparr>tr_retry := tr_retry t + 1\<rparr>, Soon, False)
       else (let (t', a) = count_failure (t\<lparr>tr_retry := 0\<rparr>) in (t', Regular, a)))
   | Definite \<Rightarrow> (let (t', a) = count_failure t in (t', Regular, a)))"

definition fresh :: track where
  "fresh = \<lparr>tr_retry = 0, tr_fails = 0, tr_alerted = False\<rparr>"

primrec policy_run :: "verdict list \<Rightarrow> track \<Rightarrow> track \<times> nat" where
  "policy_run [] t = (t, 0)"
| "policy_run (v # vs) t = (let (t1, _, a) = policy v t; (t2, n) = policy_run vs t1 in (t2, (if a then 1 else 0) + n))"

text \<open>Three transient failures in a row count as one.\<close>

definition counted :: "verdict list \<Rightarrow> nat" where
  "counted vs = length (filter ((=) Definite) vs) + length (filter ((=) Transient) vs) div 3"

definition sane :: "track \<Rightarrow> bool" where
  "sane t \<longleftrightarrow> 0 \<le> tr_retry t \<and> tr_retry t \<le> 2 \<and> 0 \<le> tr_fails t \<and> (tr_alerted t \<longleftrightarrow> 3 \<le> tr_fails t)"

text \<open>All failures there have been, with the retries not yet counted.\<close>

definition weight :: "track \<Rightarrow> int" where
  "weight t = 3 * tr_fails t + tr_retry t"

definition load :: "verdict \<Rightarrow> int" where
  "load v = (case v of Terminal \<Rightarrow> 0 | Transient \<Rightarrow> 1 | Definite \<Rightarrow> 3)"

lemma policy_step:
  assumes "sane t" and "policy v t = (t', nr, a)"
  shows "sane t'" and "weight t' = weight t + load v" and "a \<longleftrightarrow> tr_alerted t' \<and> \<not> tr_alerted t"
    and "tr_alerted t \<Longrightarrow> tr_alerted t'"
  using assms
  by (auto simp: sane_def policy_def count_failure_def weight_def load_def Let_def split: verdict.splits if_splits)

lemma policy_run_sane:
  assumes "sane t" and "policy_run vs t = (t', n)"
  shows "sane t' \<and> weight t' = weight t + sum_list (map load vs) \<and>
    n = (if tr_alerted t' \<and> \<not> tr_alerted t then 1 else 0) \<and> (tr_alerted t \<longrightarrow> tr_alerted t')"
  using assms
proof (induction vs arbitrary: t t' n)
  case (Cons v vs)
  obtain t1 nr a where p: "policy v t = (t1, nr, a)" by (cases "policy v t")
  obtain t2 n2 where q: "policy_run vs t1 = (t2, n2)" by (cases "policy_run vs t1")
  note s = policy_step [OF Cons.prems(1) p]
  note ih = Cons.IH [OF s(1) q]
  from Cons.prems(2) p q have t': "t' = t2" "n = (if a then 1 else 0) + n2" by simp_all
  have "weight t' = weight t + sum_list (map load (v # vs))" using ih s(2) t'(1) by simp
  moreover have "n = (if tr_alerted t' \<and> \<not> tr_alerted t then 1 else 0)"
    using ih s(3,4) t' by (cases "tr_alerted t"; cases "tr_alerted t1"; cases "tr_alerted t2") simp_all
  moreover have "tr_alerted t \<longrightarrow> tr_alerted t'" using ih s(4) t'(1) by blast
  ultimately show ?case using ih t'(1) by blast
qed auto

lemma weight_counted: "sum_list (map load vs) =
    3 * int (length (filter ((=) Definite) vs)) + int (length (filter ((=) Transient) vs))"
  by (induction vs) (auto simp: load_def split: verdict.split)

lemma carry: "0 \<le> (R :: int) \<Longrightarrow> R \<le> 2 \<Longrightarrow> 3 * F + R = 3 * D + T \<Longrightarrow> F = D + T div 3 \<and> R = T mod 3"
  by presburger

lemma policy_run_fresh:
  assumes "policy_run vs fresh = (t, n)"
  shows "n = (if 3 \<le> counted vs then 1 else 0)" and "tr_fails t = int (counted vs)"
    and "tr_retry t = int (length (filter ((=) Transient) vs)) mod 3"
proof -
  let ?D = "length (filter ((=) Definite) vs)" and ?T = "length (filter ((=) Transient) vs)"
  have "sane fresh" by (simp add: sane_def fresh_def)
  from policy_run_sane [OF this assms] have t: "sane t" "3 * tr_fails t + tr_retry t = 3 * int ?D + int ?T"
      "n = (if tr_alerted t then 1 else 0)"
    by (simp_all add: fresh_def weight_def weight_counted)
  then have "tr_fails t = int ?D + int ?T div 3 \<and> tr_retry t = int ?T mod 3"
    by (intro carry) (simp_all add: sane_def)
  then show "tr_fails t = int (counted vs)" "tr_retry t = int ?T mod 3"
    by (simp_all add: counted_def zdiv_int)
  with t(1,3) show "n = (if 3 \<le> counted vs then 1 else 0)" by (auto simp: sane_def)
qed

section \<open>The abstraction\<close>

text \<open>
  \<open>tracks x u ks t\<close>: the two counters of the monitor read as the numbers of \<open>t\<close> (an absent
  counter is 0), and its incident carries an alert mark or not, as \<open>t\<close> says.
\<close>

definition tracks :: "'k services \<Rightarrow> uuid \<Rightarrow> keyspace \<Rightarrow> track \<Rightarrow> bool" where
  "tracks x u ks t \<longleftrightarrow> counter (str ks (retryKey x u)) = Some (tr_retry t) \<and>
     counter (hash ks (incidentKey x u) ''failure_count'') = Some (tr_fails t) \<and>
     tr_alerted t = (hash ks (incidentKey x u) ''alerted'' \<noteq> None)"

text \<open>Both counters can still be incremented.\<close>

definition countable :: "track \<Rightarrow> bool" where
  "countable t \<longleftrightarrow> in_int64 (tr_retry t + 1) \<and> in_int64 (tr_fails t + 1)"

lemma counter_simps [simp]: "counter None = Some 0" "in_int64 n \<Longrightarrow> counter (Some (decimal n)) = Some n"
  by (simp_all add: counter_def)

lemma in_int64_1 [simp]: "in_int64 1"
  by (simp add: in_int64_def)

lemma tracks_cong:
  assumes "str ks' (retryKey x u) = str ks (retryKey x u)"
    and "hash ks' (incidentKey x u) = hash ks (incidentKey x u)"
  shows "tracks x u ks' t = tracks x u ks t"
  using assms by (simp add: tracks_def)

section \<open>The handlers implement the policy\<close>

text \<open>\<open>live x e\<close>: every call is delivered and the keys hold values of their types.\<close>

definition live :: "'k services \<Rightarrow> ('k, 'd) env \<Rightarrow> bool" where
  "live x e \<longleftrightarrow> reliable e \<and> typed x (vw x e)"

lemma live_best_effort:
  assumes "best_effort x K f e e'" and "live x e"
  shows "live x e' \<and> vw x e' = f (vw x e) \<and> clock e' = clock e"
  using best_effortD [OF assms(1)] assms(2) by (simp add: live_def later_def)

lemma live_same:
  "live x e \<Longrightarrow> later e e' \<Longrightarrow> vw x e' = vw x e \<Longrightarrow> live x e' \<and> clock e' = clock e"
  by (auto simp: live_def later_def reliable_def)

text \<open>Where the next run of a monitor ends up.\<close>

definition next_at :: "'k services \<Rightarrow> uuid \<Rightarrow> int32 \<Rightarrow> next_run \<Rightarrow> (nat \<Rightarrow> time) \<Rightarrow> keyspace \<Rightarrow> keyspace \<Rightarrow> bool" where
  "next_at x u iv nr clk ks ks' \<longleftrightarrow> (let s = zset ks' scheduleKey (uuid_string x u) in case nr of
     Never \<Rightarrow> s = zset ks scheduleKey (uuid_string x u)
   | Soon \<Rightarrow> (\<exists>n. s = Some (UnixMilli (clk n + 5 * Second)))
   | Regular \<Rightarrow> (\<exists>n. s = Some (UnixMilli (clk n + sint iv * Second))))"

context monit
begin

lemma tracks_bump_retry:
  "in_int64 n \<Longrightarrow> tracks x u ks t \<Longrightarrow> tracks x u (bump_retry x u n ks) (t\<lparr>tr_retry := n\<rparr>)"
  by (simp add: tracks_def bump_retry_def)

lemma tracks_bump_incident:
  "in_int64 n \<Longrightarrow> tracks x u ks t \<Longrightarrow> tracks x u (bump_incident x u n now ks) (t\<lparr>tr_fails := n\<rparr>)"
  by (simp add: tracks_def bump_incident_def incident_stamps_def)

lemma tracks_mark_alerted:
  "tracks x u ks t \<Longrightarrow> tracks x u (mark_alerted x u ks) (t\<lparr>tr_alerted := True\<rparr>)"
  by (auto simp: tracks_def mark_alerted_def)

lemma tracks_drop_retry: "tracks x u ks t \<Longrightarrow> tracks x u (drop_key (retryKey x u) ks) (t\<lparr>tr_retry := 0\<rparr>)"
  by (simp add: tracks_def)

lemma tracks_db_incident:
  "tracks x u ks t \<Longrightarrow> tracks x u (hash_set (incidentKey x u) [(''db_incident'', v)] ks) t"
  by (simp add: tracks_def hash_set_def)

lemma IncrementIncident_live:
  assumes "live x e" and tr: "tracks x u (vw x e) t" "countable t"
  shows "\<exists>e' b. IncrementIncident x u e = (e', (tr_fails t + 1, b), None) \<and> live x e' \<and>
    clock e' = clock e \<and> touches {incidentKey x u} (vw x e) (vw x e') \<and>
    tracks x u (vw x e') (t\<lparr>tr_fails := tr_fails t + 1\<rparr>)"
proof -
  have n: "counter (hash (vw x e) (incidentKey x u) ''failure_count'') = Some (tr_fails t)" "in_int64 (tr_fails t + 1)"
    using tr by (simp_all add: tracks_def countable_def)
  obtain e' where e': "IncrementIncident x u e = (e', (tr_fails t + 1, tr_fails t = 0), None)"
      "vw x e' = bump_incident x u (tr_fails t + 1) (Unix (clock e (ticks e))) (vw x e)"
    using IncrementIncident_reliable [of e u "tr_fails t"] assms(1) n unfolding live_def by blast
  have "later e e'" using IncrementIncident_later(1) [of e u] e'(1) by simp
  moreover have "incident_frame x u (vw x e) (vw x e')" by (rule IncrementIncident_frame [OF e'(1)])
  ultimately show ?thesis
    using e' assms(1) tracks_bump_incident [OF n(2) tr(1)]
    by (auto simp: live_def incident_frame_def later_def intro: reliable_later)
qed

lemma IncrementRetry_live:
  assumes "live x e" and tr: "tracks x u (vw x e) t" "countable t"
  shows "\<exists>e'. IncrementRetry x u e = (e', tr_retry t + 1, None) \<and> live x e' \<and>
    clock e' = clock e \<and> touches {retryKey x u} (vw x e) (vw x e') \<and>
    tracks x u (vw x e') (t\<lparr>tr_retry := tr_retry t + 1\<rparr>)"
proof -
  have n: "counter (str (vw x e) (retryKey x u)) = Some (tr_retry t)" "in_int64 (tr_retry t + 1)"
    using tr by (simp_all add: tracks_def countable_def)
  obtain e' where e': "IncrementRetry x u e = (e', tr_retry t + 1, None)"
      "vw x e' = bump_retry x u (tr_retry t + 1) (vw x e)"
    using IncrementRetry_reliable [of e u "tr_retry t"] assms(1) n unfolding live_def by blast
  have "later e e'" using IncrementRetry_later(1) [of e u] e'(1) by simp
  with IncrementRetry_frame [OF e'(1)] e' assms(1) tracks_bump_retry [OF n(2) tr(1)] show ?thesis
    by (auto simp: live_def later_def intro: reliable_later)
qed

lemma ScheduleMonitor_live:
  fixes e :: "('k, 'd) env" and u :: uuid and n :: int32 and v :: uuid
  assumes "live x e"
  defines "e' \<equiv> ScheduleMonitor x u n e"
  shows "live x e' \<and> clock e' = clock e \<and> tracks x v (vw x e') = tracks x v (vw x e) \<and>
    zset (vw x e') scheduleKey (uuid_string x u) = Some (UnixMilli (clock e (ticks e) + sint n * Second)) \<and>
    zset (vw x e') inflightKey = zset (vw x e) inflightKey"
  using live_best_effort [OF ScheduleMonitor_best_effort [of u e n] assms(1)]
  unfolding e'_def by (simp add: sched_at_def tracks_def fun_eq_iff)

lemma record_incident_live:
  fixes e :: "'k world" and u :: uuid and r :: hTTPResult
  assumes "live x e"
  defines "e3 \<equiv> fst (MarkDBIncidentCreated x u e)"
  defines "e5 \<equiv> fst (incident_Create (snd (time_now e3)) r (fst (time_now e3)))"
  shows "live x e5 \<and> clock e5 = clock e \<and>
    vw x e5 = hash_set (incidentKey x u) [(''db_incident'', ''true'')] (vw x e)"
proof -
  have e3: "live x e3 \<and> clock e3 = clock e \<and> vw x e3 = hash_set (incidentKey x u) [(''db_incident'', ''true'')] (vw x e)"
    unfolding e3_def using live_best_effort [OF MarkDBIncidentCreated_best_effort assms(1)] by blast
  note r5 = incident_Create_ran [of "fst (time_now e3)" r "snd (time_now e3)", folded e5_def]
  have "later e3 e5" by (rule later_after_now [OF ran_later [OF r5]])
  moreover have v: "vw x e5 = vw x e3" using ran_vw [OF r5, of x] by simp
  ultimately show ?thesis using live_same [of x e3 e5] e3 by simp
qed

text \<open>The decision to alert, once the third failure has been counted.\<close>

lemma alert_live:
  assumes l: "live x e1" and tr: "tracks x u (vw x e1) t" and m: "MarkIncidentAlertedIfNotSet x u e1 = (e2, m)"
  shows "m = Inr (\<not> tr_alerted t) \<and> live x e2 \<and> clock e2 = clock e1 \<and> vw x e2 = mark_alerted x u (vw x e1) \<and>
    tracks x u (vw x e2) (t\<lparr>tr_alerted := True\<rparr>)"
proof -
  note mr = MarkIncidentAlertedIfNotSet_result [OF m]
  obtain b where b: "m = Inr b" using mr(5) l by (auto simp: live_def)
  have "b = (\<not> tr_alerted t)" "vw x e2 = mark_alerted x u (vw x e1)"
    using mr(1) [OF b] tr by (auto simp: tracks_def)
  with b l mr(3) tr show ?thesis
    by (auto simp: live_def later_def tracks_mark_alerted intro: reliable_later)
qed

lemma failure_incident_live:
  assumes l: "live x e" and tr: "tracks x u (vw x e) t" "countable t" and u: "hr_MonitorID r = u"
    and cf: "count_failure t = (t', a)"
  shows "\<exists>e'. failure_incident x r e = (e', if a then [AlertEvent u] else []) \<and> live x e' \<and> clock e' = clock e \<and>
    tracks x u (vw x e') t'"
proof -
  have a: "a \<longleftrightarrow> 3 \<le> tr_fails t + 1 \<and> \<not> tr_alerted t"
    and t': "t' = t\<lparr>tr_fails := tr_fails t + 1, tr_alerted := tr_alerted t \<or> 3 \<le> tr_fails t + 1\<rparr>"
    using cf by (auto simp: count_failure_def Let_def)
  obtain e1 b where i: "IncrementIncident x u e = (e1, (tr_fails t + 1, b), None)" "live x e1" "clock e1 = clock e"
      "tracks x u (vw x e1) (t\<lparr>tr_fails := tr_fails t + 1\<rparr>)"
    using IncrementIncident_live [OF l tr] by blast
  show ?thesis
  proof (cases "tr_fails t + 1 < 3")
    case True
    then have "failure_incident x r e = (e1, [])" using i(1) u by (simp add: failure_incident_def)
    with i(2-4) a t' True show ?thesis by simp
  next
    case False
    obtain e2 m where m: "MarkIncidentAlertedIfNotSet x u e1 = (e2, m)"
      by (cases "MarkIncidentAlertedIfNotSet x u e1")
    have e2: "m = Inr (\<not> tr_alerted t)" "live x e2" "clock e2 = clock e" "tracks x u (vw x e2) t'"
      using alert_live [OF i(2,4) m] i(3) t' False by auto
    let ?e3 = "fst (MarkDBIncidentCreated x u e2)"
    have "failure_incident x r e = (if tr_alerted t then (e2, [])
        else (fst (incident_Create (snd (time_now ?e3)) r (fst (time_now ?e3))), [AlertEvent u]))"
      using i(1) m e2(1) False u by (simp add: failure_incident_def Let_def case_prod_unfold)
    with record_incident_live [OF e2(2), of u r] e2 a False show ?thesis
      by (auto simp: tracks_db_incident)
  qed
qed

lemma failure_body_live:
  assumes l: "live x e" and tr: "tracks x u (vw x e) t" "countable t" and u: "hr_MonitorID r = u"
    and p: "policy (verdict_of r) t = (t', nr, a)"
  shows "\<exists>e'. failure_body x r e = (e', nr = Regular, if a then [AlertEvent u] else []) \<and> live x e' \<and>
    clock e' = clock e \<and> tracks x u (vw x e') t' \<and>
    (nr \<noteq> Regular \<longrightarrow> next_at x u (hr_IntervalSec r) nr (clock e) (vw x e) (vw x e'))"
proof (cases "verdict_of r")
  case Terminal
  let ?e' = "fst (StoreStatus x u (hr_Status r) (hr_LatencyMs r) (hr_CheckedAt r) e)"
  have "failure_body x r e = (?e', False, [])"
    using Terminal u by (auto simp: failure_body_def verdict_of_def split: if_splits)
  moreover note live_best_effort [OF StoreStatus_best_effort l]
  ultimately show ?thesis
    using p Terminal tr(1) by (auto simp: policy_def hash_set_def tracks_def next_at_def)
next
  case Transient
  obtain e1 where i: "IncrementRetry x u e = (e1, tr_retry t + 1, None)" "live x e1" "clock e1 = clock e"
      "tracks x u (vw x e1) (t\<lparr>tr_retry := tr_retry t + 1\<rparr>)"
    using IncrementRetry_live [OF l tr] by blast
  show ?thesis
  proof (cases "tr_retry t + 1 \<le> 2")
    case True
    have "failure_body x r e = (ScheduleMonitor x u 5 e1, False, [])"
      using Transient True i(1) u by (auto simp: failure_body_def verdict_of_def split: if_splits)
    with ScheduleMonitor_live [OF i(2), of u 5 u] p Transient True i(3,4) show ?thesis
      by (auto simp: policy_def next_at_def)
  next
    case False
    let ?e2 = "fst (ClearRetry x u e1)" and ?t2 = "t\<lparr>tr_retry := 0\<rparr>"
    have e2: "live x ?e2" "clock ?e2 = clock e" "tracks x u (vw x ?e2) ?t2" "countable ?t2"
      using live_best_effort [OF ClearRetry_best_effort i(2), of u] tracks_drop_retry [OF i(4)] i(3) tr(2)
      by (auto simp: countable_def)
    obtain t2' a2 where cf: "count_failure ?t2 = (t2', a2)" by fastforce
    obtain e3 where e3: "failure_incident x r ?e2 = (e3, if a2 then [AlertEvent u] else [])" "live x e3"
        "clock e3 = clock ?e2" "tracks x u (vw x e3) t2'"
      using failure_incident_live [OF e2(1,3,4) u cf] by blast
    have "failure_body x r e = (e3, True, if a2 then [AlertEvent u] else [])"
      using Transient False i(1) u e3(1) by (auto simp: failure_body_def verdict_of_def split: if_splits)
    with p Transient False cf e3 e2(2) show ?thesis by (auto simp: policy_def)
  qed
next
  case Definite
  obtain t2' a2 where cf: "count_failure t = (t2', a2)" by fastforce
  obtain e3 where e3: "failure_incident x r e = (e3, if a2 then [AlertEvent u] else [])" "live x e3"
      "clock e3 = clock e" "tracks x u (vw x e3) t2'"
    using failure_incident_live [OF l tr u cf] by blast
  have "failure_body x r e = (e3, True, if a2 then [AlertEvent u] else [])"
    using Definite e3(1) by (auto simp: failure_body_def verdict_of_def split: if_splits)
  with p Definite cf e3 show ?thesis by (auto simp: policy_def)
qed

lemma handleFailure_live:
  assumes l: "live x e" and tr: "tracks x u (vw x e) t" "countable t" and u: "hr_MonitorID r = u"
    and p: "policy (verdict_of r) t = (t', nr, a)"
  shows "\<exists>e'. handleFailure x r e = (e', if a then [AlertEvent u] else []) \<and> live x e' \<and> clock e' = clock e \<and>
    tracks x u (vw x e') t' \<and> zset (vw x e') inflightKey (uuid_string x u) = None \<and>
    next_at x u (hr_IntervalSec r) nr (clock e) (vw x e) (vw x e')"
proof -
  obtain e1 where b: "failure_body x r e = (e1, nr = Regular, if a then [AlertEvent u] else [])" "live x e1"
      "clock e1 = clock e" "tracks x u (vw x e1) t'"
      "nr \<noteq> Regular \<longrightarrow> next_at x u (hr_IntervalSec r) nr (clock e) (vw x e) (vw x e1)"
    using failure_body_live [OF assms] by blast
  let ?e2 = "fst (AckJob x (uuid_string x u) e1)"
  have e2: "live x ?e2" "clock ?e2 = clock e1" "vw x ?e2 = acked (uuid_string x u) (vw x e1)"
    using live_best_effort [OF AckJob_best_effort b(2)] by blast+
  have v2: "tracks x u (vw x ?e2) t'" "zset (vw x ?e2) inflightKey (uuid_string x u) = None"
      "zset (vw x ?e2) scheduleKey = zset (vw x e1) scheduleKey"
    using b(4) by (simp_all add: e2(3) acked_def tracks_def)
  have run: "handleFailure x r e = (if nr = Regular then ScheduleMonitor x u (hr_IntervalSec r) ?e2 else ?e2,
      if a then [AlertEvent u] else [])"
    using b(1) u by (simp add: handleFailure_def failure_deferred_def Let_def)
  show ?thesis
  proof (cases "nr = Regular")
    case True
    with run ScheduleMonitor_live [OF e2(1), of u "hr_IntervalSec r" u] v2 e2(2) b(3) show ?thesis
      by (auto simp: next_at_def)
  next
    case False
    with run b(3,5) v2 e2 show ?thesis by (auto simp: next_at_def)
  qed
qed

end

section \<open>A run of failures\<close>

lemma countable_sane:
  assumes "sane t" and "tr_fails t < 2 ^ 62"
  shows "countable t"
  using assms by (auto simp: countable_def in_int64_def sane_def)

lemma policy_fails: "policy v t = (t', nr, a) \<Longrightarrow> tr_fails t' \<le> tr_fails t + 1"
  by (auto simp: policy_def count_failure_def Let_def split: verdict.splits if_splits)

context monit
begin

lemma failureWorker_live:
  assumes "live x e" and "tracks x u (vw x e) t" and "sane t"
    and "tr_fails t + int (length rs) < 2 ^ 62" and "\<And>r. r \<in> set rs \<Longrightarrow> hr_MonitorID r = u"
    and "policy_run (map verdict_of rs) t = (t', n)"
  shows "\<exists>e'. failureWorker x rs e = (e', replicate n (AlertEvent u)) \<and> live x e' \<and> tracks x u (vw x e') t'"
  using assms
proof (induction rs arbitrary: e t n)
  case Nil
  then show ?case by simp
next
  case (Cons r rs)
  obtain t1 nr a where p: "policy (verdict_of r) t = (t1, nr, a)" by (cases "policy (verdict_of r) t")
  obtain n2 where q: "policy_run (map verdict_of rs) t1 = (t', n2)" "n = (if a then 1 else 0) + n2"
    using Cons.prems(6) p by (auto split: prod.splits)
  have "countable t" using Cons.prems(3,4) by (intro countable_sane) simp_all
  then obtain e1 where e1: "handleFailure x r e = (e1, if a then [AlertEvent u] else [])" "live x e1"
      "tracks x u (vw x e1) t1"
    using handleFailure_live [OF Cons.prems(1,2) _ _ p] Cons.prems(5) by auto
  have "tr_fails t1 + int (length rs) < 2 ^ 62" using policy_fails [OF p] Cons.prems(4) by simp
  from Cons.IH [OF e1(2,3) policy_step(1) [OF Cons.prems(3) p] this _ q(1)] Cons.prems(5)
  obtain e2 where "failureWorker x rs e1 = (e2, replicate n2 (AlertEvent u))" "live x e2" "tracks x u (vw x e2) t'"
    by auto
  with e1(1) q(2) show ?case by simp
qed

lemma handleSuccess_live:
  assumes l: "live x e" and u: "hr_MonitorID r = u"
  shows "live x (handleSuccess x r e) \<and> tracks x u (vw x (handleSuccess x r e)) fresh \<and>
    zset (vw x (handleSuccess x r e)) inflightKey (uuid_string x u) = None \<and>
    next_at x u (hr_IntervalSec r) Regular (clock e) (vw x e) (vw x (handleSuccess x r e)) \<and>
    hash (vw x (handleSuccess x r e)) (statusKey x u) ''status_code'' = Some (decimal (hr_Status r))"
proof -
  let ?e1 = "fst (StoreStatus x u (hr_Status r) (hr_LatencyMs r) (hr_CheckedAt r) e)"
  have e1: "live x ?e1" "clock ?e1 = clock e" "hash (vw x ?e1) (statusKey x u) ''status_code'' = Some (decimal (hr_Status r))"
    using live_best_effort [OF StoreStatus_best_effort l] by (auto simp: hash_set_def)
  obtain e2 g where g: "GetIncident x u ?e1 = (e2, g)" by (cases "GetIncident x u ?e1")
  note gr = GetIncident_result [OF g]
  have e2: "live x e2" "clock e2 = clock e" "vw x e2 = vw x ?e1" "\<exists>h. g = Inr (Some h)"
    using live_same [OF e1(1) gr(2,1)] gr(1,5) e1 by (auto simp: live_def)
  let ?c = "fst (CloseIncident u (snd (time_now e2)) (fst (time_now e2)))"
  have c: "live x ?c" "clock ?c = clock e" "vw x ?c = vw x ?e1"
    using live_same [OF e2(1), of ?c] later_after_now [OF ran_later [OF CloseIncident_ran]]
      ran_vw [OF CloseIncident_ran, of x] e2(2,3) by auto
  obtain e3 where e3: "live x e3" "clock e3 = clock e" "vw x e3 = vw x ?e1"
      "success_body x r e = fst (ClearRetry x u (fst (ClearIncident x u e3)))"
  proof -
    obtain h where h: "g = Inr (Some h)" using e2(4) ..
    show thesis
      using that [of ?c] that [of e2] c e2 g h u
      by (cases "h ''db_incident'' = Some ''true''") (auto simp: success_body_def Let_def case_prod_unfold)
  qed
  let ?e4 = "fst (ClearIncident x u e3)"
  let ?e5 = "fst (ClearRetry x u ?e4)"
  let ?e6 = "fst (AckJob x (uuid_string x u) ?e5)"
  have e4: "live x ?e4" "clock ?e4 = clock e3" "vw x ?e4 = drop_key (incidentKey x u) (vw x e3)"
    using live_best_effort [OF ClearIncident_best_effort e3(1)] by blast+
  have e5: "live x ?e5" "clock ?e5 = clock e3" "vw x ?e5 = drop_key (retryKey x u) (vw x ?e4)"
    using live_best_effort [OF ClearRetry_best_effort e4(1)] e4(2) by auto
  have e6: "live x ?e6" "clock ?e6 = clock e3" "vw x ?e6 = acked (uuid_string x u) (vw x ?e5)"
    using live_best_effort [OF AckJob_best_effort e5(1)] e5(2) by auto
  have "tracks x u (vw x ?e6) fresh" "zset (vw x ?e6) inflightKey (uuid_string x u) = None"
      "hash (vw x ?e6) (statusKey x u) = hash (vw x ?e1) (statusKey x u)"
    by (simp_all add: e6(3) e5(3) e4(3) e3(3) acked_def tracks_def fresh_def)
  moreover have "handleSuccess x r e = ScheduleMonitor x u (hr_IntervalSec r) ?e6"
    using e3(4) u by (simp add: handleSuccess_def success_deferred_def Let_def)
  moreover have "hash (vw x (ScheduleMonitor x u (hr_IntervalSec r) ?e6)) (statusKey x u) = hash (vw x ?e6) (statusKey x u)"
    using touches_views(3) [OF best_effortD(1) [OF ScheduleMonitor_best_effort], of "statusKey x u"] by simp
  ultimately show ?thesis
    using ScheduleMonitor_live [OF e6(1), of u "hr_IntervalSec r" u] e1(3) e6(2) e3(2)
    by (auto simp: next_at_def)
qed

end

end
