(* ===== verification/Queue_Laws.thy ===== *)
theory Queue_Laws
  imports Middleware Scheduler_Laws Failure_Policy
begin

text \<open>
  What the operations of the scheduler, the executor, the result processor and the requests do to
  the two queues: which jobs they may take off, and which ones they put there. A request takes
  nothing off, and whatever monitor it creates or switches on is queued if its calls are delivered.
\<close>

section \<open>What the operations take off the queues\<close>

text \<open>From \<open>e\<close> to \<open>e'\<close> nothing outside \<open>M\<close> has left the queues.\<close>

definition drops :: "'k services \<Rightarrow> string set \<Rightarrow> ('k, 'd) env \<Rightarrow> ('k, 'd) env \<Rightarrow> bool" where
  "drops x M e e' \<longleftrightarrow> queued (vw x e) - M \<subseteq> queued (vw x e')"

lemma drops_refl [simp]: "drops x M e e"
  by (auto simp: drops_def)

lemma drops_trans: "drops x M e e' \<Longrightarrow> drops x M e' e'' \<Longrightarrow> drops x M e e''"
  by (auto simp: drops_def)

lemma drops_mono: "drops x M e e' \<Longrightarrow> M \<subseteq> M' \<Longrightarrow> drops x M' e e'"
  by (auto simp: drops_def)

lemma drops_same: "vw x e' = vw x e \<Longrightarrow> drops x M e e'"
  by (auto simp: drops_def)

lemma drops_queue_frame: "queue_frame x e e' \<Longrightarrow> drops x M e e'"
  by (auto simp: drops_def queue_frame_def)

lemma drops_touches:
  "touches K (vw x e) (vw x e') \<Longrightarrow> scheduleKey \<notin> K \<Longrightarrow> inflightKey \<notin> K \<Longrightarrow> drops x M e e'"
  by (auto simp: drops_def queued_def touches_views(2))

text \<open>The member waits in the schedule.\<close>

definition waiting :: "'k services \<Rightarrow> string \<Rightarrow> ('k, 'd) env \<Rightarrow> bool" where
  "waiting x m e \<longleftrightarrow> m \<in> dom (zset (vw x e) scheduleKey)"

lemma waiting_queued: "waiting x m e \<Longrightarrow> m \<in> queued (vw x e)"
  by (simp add: waiting_def queued_def)

context monit
begin

lemma drops_tracks:
  assumes "keeps x (track_keys x u) e e'"
  shows "drops x M e e'"
  using keepsD(1) [OF assms] by (rule drops_touches) (simp_all add: track_keys_def)

lemma drops_Schedule: "drops x M e (fst (Schedule x m t e))"
proof -
  have r: "resched {m} (vw x e) (vw x (fst (Schedule x m t e)))" by (rule Schedule_resched)
  then have "zset (vw x (fst (Schedule x m t e))) inflightKey = zset (vw x e) inflightKey"
    by (intro touches_views(2) [of "{scheduleKey}"]) (simp_all add: resched_def)
  with r show ?thesis by (auto simp: drops_def queued_def resched_def)
qed

lemma drops_time_now: "drops x M e (fst (time_now e))"
  by (rule drops_same) simp

lemma drops_ScheduleMonitor: "drops x M e (ScheduleMonitor x u n e)"
  using drops_trans [OF drops_time_now drops_Schedule] by (simp add: ScheduleMonitor_def case_prod_unfold Let_def)

lemma ScheduleMonitor_waiting:
  assumes "reliable e" and "typed x (vw x e)"
  shows "waiting x (uuid_string x u) (ScheduleMonitor x u n e)"
  using best_effortD(6) [OF ScheduleMonitor_best_effort assms] by (simp add: waiting_def sched_at_def)

lemma drops_AckJob: "drops x {m} e (fst (AckJob x m e))"
proof -
  let ?e' = "fst (AckJob x m e)"
  have "zset (vw x ?e') scheduleKey = zset (vw x e) scheduleKey"
    by (rule touches_views(2) [OF best_effortD(1) [OF AckJob_best_effort]]) simp
  moreover have "dom (zset (vw x e) inflightKey) - {m} \<subseteq> dom (zset (vw x ?e') inflightKey)"
    using appliedD(2) [OF AckJob_applied [of m e]] by (auto simp: acked_def)
  ultimately show ?thesis by (auto simp: drops_def queued_def)
qed

lemma AckJob_waiting: "waiting x m e \<Longrightarrow> waiting x m (fst (AckJob x k e))"
  using touches_views(2) [OF best_effortD(1) [OF AckJob_best_effort [of k e]], of scheduleKey]
  by (simp add: waiting_def)

text \<open>The deferred part acknowledges the job and, if asked to, schedules it again.\<close>

lemma drops_failure_deferred:
  "drops x {uuid_string x (hr_MonitorID r)} e (failure_deferred x r b e)"
  by (simp add: failure_deferred_def Let_def drops_AckJob drops_trans [OF drops_AckJob drops_ScheduleMonitor])

lemma failure_deferred_waiting:
  assumes "reliable e" and "typed x (vw x e)"
  shows "waiting x (uuid_string x (hr_MonitorID r)) (failure_deferred x r True e)"
proof -
  let ?e1 = "fst (AckJob x (uuid_string x (hr_MonitorID r)) e)"
  note be = best_effortD [OF AckJob_best_effort [of "uuid_string x (hr_MonitorID r)" e]]
  have "reliable ?e1" "typed x (vw x ?e1)" using be(2,5) assms by blast+
  then show ?thesis by (simp add: failure_deferred_def Let_def ScheduleMonitor_waiting)
qed

lemma success_deferred_eq: "success_deferred x r e = failure_deferred x r True e"
  by (simp add: success_deferred_def failure_deferred_def)

lemma handleSuccess_drops: "drops x {uuid_string x (hr_MonitorID r)} e (handleSuccess x r e)"
  unfolding handleSuccess_def success_deferred_eq
  by (rule drops_trans [OF drops_tracks [OF success_body_tracks] drops_failure_deferred])

lemma handleSuccess_waiting:
  assumes "reliable e" and "service_inv x e"
  shows "waiting x (uuid_string x (hr_MonitorID r)) (handleSuccess x r e)"
  using keepsD(3,4) [OF success_body_tracks, of e r] assms unfolding handleSuccess_def success_deferred_eq
  by (intro failure_deferred_waiting) (simp_all add: service_inv_def)

text \<open>The body of the failure worker: what it leaves to the deferred part.\<close>

lemma failure_body_cases:
  assumes "failure_body x r e = (e', b, alerts)"
  obtains (terminal) "verdict_of r = Terminal" "\<not> b" "alerts = []" "keeps x (track_keys x (hr_MonitorID r)) e e'"
  | (retry) e1 n where "\<not> b" "alerts = []" "keeps x (track_keys x (hr_MonitorID r)) e e1"
      "e' = ScheduleMonitor x (hr_MonitorID r) n e1"
  | (counted) b "keeps x (track_keys x (hr_MonitorID r)) e e'"
proof (cases "verdict_of r")
  case Terminal
  then have "failure_body x r e = (fst (StoreStatus x (hr_MonitorID r) (hr_Status r) (hr_LatencyMs r) (hr_CheckedAt r) e), False, [])"
    by (auto simp: failure_body_def verdict_of_def split: if_splits)
  with assms Terminal terminal store_tracks(4) [of "hr_MonitorID r" e] show thesis by auto
next
  case Definite
  then have "failure_body x r e = (let (e3, alerts) = failure_incident x r e in (e3, True, alerts))"
    by (auto simp: failure_body_def verdict_of_def split: if_splits)
  with assms counted failure_incident_tracks [of r e] show thesis by (simp add: case_prod_unfold Let_def)
next
  case Transient
  let ?u = "hr_MonitorID r"
  obtain e1 n q where i: "IncrementRetry x ?u e = (e1, n, q)" by (cases "IncrementRetry x ?u e") auto
  note k = store_tracks(5) [OF i]
  show thesis
  proof (cases "q = None \<and> \<not> n \<le> 2")
    case False
    then obtain k where "failure_body x r e = (ScheduleMonitor x ?u k e1, False, [])"
      using Transient i by (cases q) (auto simp: failure_body_def verdict_of_def split: if_splits)
    with assms retry k show thesis by auto
  next
    case True
    then have "failure_body x r e = (let (e3, alerts) = failure_incident x r (fst (ClearRetry x ?u e1)) in (e3, True, alerts))"
      using Transient i by (auto simp: failure_body_def verdict_of_def Let_def split: if_splits)
    moreover note keeps_trans [OF k keeps_trans [OF store_tracks(2) failure_incident_tracks]]
    ultimately show thesis using assms counted by (simp add: case_prod_unfold Let_def)
  qed
qed

lemma failure_body_drops:
  assumes "failure_body x r e = (e', b, alerts)"
  shows "drops x M e e'"
  using assms
proof (cases rule: failure_body_cases)
  case (retry e1 n)
  then show ?thesis using drops_trans [OF drops_tracks drops_ScheduleMonitor] by blast
qed (auto intro: drops_tracks)

lemma failure_handled_waiting:
  assumes rel: "reliable e" and inv: "service_inv x e" and run: "failure_body x r e = (e', b, alerts)"
    and v: "verdict_of r \<noteq> Terminal"
  shows "waiting x (uuid_string x (hr_MonitorID r)) (failure_deferred x r b e')"
  using run
proof (cases rule: failure_body_cases)
  case terminal
  with v show ?thesis by simp
next
  case (retry e1 n)
  then have "reliable e1" "typed x (vw x e1)" using keepsD(3,4) [OF retry(3)] rel inv by (simp_all add: service_inv_def)
  then have "waiting x (uuid_string x (hr_MonitorID r)) e'" by (simp add: retry(4) ScheduleMonitor_waiting)
  then show ?thesis using retry(1) by (simp add: failure_deferred_def AckJob_waiting)
next
  case counted
  then have "reliable e'" "typed x (vw x e')" using keepsD(3,4) [OF counted(2)] rel inv by (simp_all add: service_inv_def)
  then show ?thesis using counted(1) by (simp add: failure_deferred_waiting)
qed

end

section \<open>Requests\<close>

text \<open>
  From \<open>e\<close> to \<open>e'\<close> nothing has left the queues and, if every call is delivered, whatever monitor
  has been added or switched on is queued.
\<close>

definition admits :: "'k services \<Rightarrow> 'k world \<Rightarrow> 'k world \<Rightarrow> bool" where
  "admits x e e' \<longleftrightarrow> drops x {} e e' \<and> (reliable e \<longrightarrow> (\<forall>row \<in> set (monitors (db e')). m_Enabled row \<longrightarrow>
     (\<exists>row0 \<in> set (monitors (db e)). m_ID row0 = m_ID row \<and> m_Enabled row0) \<or>
     uuid_string x (m_ID row) \<in> queued (vw x e')))"

lemma admits_drops: "drops x {} e e' \<Longrightarrow> monitors (db e') = monitors (db e) \<Longrightarrow> admits x e e'"
  by (auto simp: admits_def)

lemma admits_same: "vw x e' = vw x e \<Longrightarrow> monitors (db e') = monitors (db e) \<Longrightarrow> admits x e e'"
  by (simp add: admits_drops drops_same)

lemma admits_frame: "kv e' = kv e \<Longrightarrow> db e' = db e \<Longrightarrow> admits x e e'"
  using kv_vw [of e' e x] by (simp add: admits_same)

lemma admits_refused: "e' = e \<or> e' = tick e \<Longrightarrow> admits x e e'"
  by (rule admits_frame) (auto simp: tick_frame)

lemma admits_tick: "admits x (tick e) e' \<Longrightarrow> admits x e e'"
  using reliable_later [OF _ tick_frame(3), of e] by (auto simp: admits_def drops_def tick_frame vw_def)

lemma createMonitor_sql_Inl: "createMonitor_sql i now p T = (T', Inl err) \<Longrightarrow> T' = T"
  by (auto simp: createMonitor_sql_def Let_def split: if_splits)

lemma repo_Create_refused:
  assumes "repo_Create cmd e = (e', Inl err)" and "reliable e"
  shows "db e' = db e"
  using assms dcall_result(3) [OF _ assms(2)]
  by (fastforce simp: repo_Create_def split: prod.splits sum.splits dest: createMonitor_sql_Inl)

context monit
begin

lemma CreateMonitor_admits:
  assumes inv: "service_inv x e" and a: "ascii_cmd cmd" and run: "CreateMonitor x cmd e = (e', r)"
  shows "admits x e e'"
proof -
  obtain e1 q where c1: "repo_IncrementMonitorCount (cmc_UserID cmd) e = (e1, q)"
    by (cases "repo_IncrementMonitorCount (cmc_UserID cmd) e")
  note q = IncrementMonitorCount_result [OF c1]
  obtain e2 r2 where c2: "repo_Create cmd e1 = (e2, r2)" by (cases "repo_Create cmd e1")
  obtain p where p: "ran (createMonitor_sql (gen e1 (ticks e1)) (clock e1 (ticks e1)) p) e1 e2"
    using repo_Create_ran [OF c2] by blast
  have m1: "monitors (db e1) = monitors (db e)" using q(1) by (auto simp: ran_def)
  have v: "vw x e1 = vw x e" "vw x e2 = vw x e" using ran_vw [OF q(1)] ran_vw [OF p] by simp_all
  show ?thesis
  proof (cases r)
    case (Inl err)
    then have "e' = e1 \<or> e' = e2 \<and> r2 = Inl err"
      using run c1 c2 by (auto simp: CreateMonitor_def split: option.splits sum.splits)
    moreover have "db e2 = db e1" if "r2 = Inl err" "reliable e"
      using repo_Create_refused [of cmd e1 e2 err] c2 that reliable_later [OF _ ran_later [OF q(1)]] by simp
    ultimately show ?thesis using m1 v by (auto simp: admits_def drops_same)
  next
    case (Inr i)
    note cr = CreateMonitor_result [OF inv a run]
    have "e' = ScheduleMonitor x i (cmc_IntervalSec cmd) e2"
      using run c1 c2 Inr by (auto simp: CreateMonitor_def split: option.splits sum.splits)
    then have "drops x {} e e'" using drops_trans [OF drops_same drops_ScheduleMonitor] v(2) by simp
    moreover have "uuid_string x i \<in> queued (vw x e')" if "reliable e"
      using cr(5) [OF Inr that] by (auto simp: queued_def sched_at_def)
    ultimately show ?thesis using cr(4) [OF Inr] by (auto simp: admits_def created_row_def)
  qed
qed

lemma enabling_admits:
  assumes inv: "service_inv x e" and run: "UpdateMonitorStatus x user i True e = (e', r)"
  shows "admits x e e'"
  using run
proof (cases rule: UpdateMonitorStatus_cases)
  case (refused err)
  show ?thesis using repo_Get_result(1,2) [OF refused(1)] by (rule admits_frame)
next
  case (same m)
  show ?thesis using repo_Get_result(1,2) [OF same(1)] by (rule admits_frame)
next
  case (failed e1 m err)
  note gr = repo_Get_result [OF failed(1)] and sr = repo_SetEnabled_result [OF failed(2)]
  have "\<not> reliable e" using sr(3) gr(2,4) reliable_later [OF _ gr(3)] by auto
  moreover have "vw x e' = vw x e" using ran_vw [OF sr(1)] kv_vw [OF gr(1)] by simp
  ultimately show ?thesis by (simp add: admits_def drops_same)
next
  case (switched e1 m e2)
  note gr = repo_Get_result [OF switched(1)] and sr = repo_SetEnabled_result [OF switched(3)]
  have m: "mon_ID m = i" using gr(4) by auto
  have v: "vw x e2 = vw x e" using ran_vw [OF sr(1)] kv_vw [OF gr(1)] by simp
  have e': "e' = ScheduleMonitor x i (mon_IntervalSec m) e2" using switched(5) m by simp
  have "drops x {} e e'" using drops_trans [OF drops_same [OF v] drops_ScheduleMonitor] e' by simp
  moreover have "uuid_string x i \<in> queued (vw x e')" if "reliable e"
    using reliable_later [OF reliable_later [OF that gr(3)] ran_later [OF sr(1)]] inv v
    by (auto simp: e' service_inv_def intro!: waiting_queued ScheduleMonitor_waiting)
  moreover have "monitors (db e') = map (set_enabled i True user) (monitors (db e))"
    using best_effortD(4) [OF ScheduleMonitor_best_effort [of i e2 "mon_IntervalSec m"]] sr(2) gr(2) e'
    by (simp add: updateMonitorStatus_sql_def)
  ultimately show ?thesis by (auto simp: admits_def set_enabled_def split: if_splits)
qed

end

context api
begin

lemma h_GetMonitor_admits:
  assumes inv: "service_inv x e" and run: "h_GetMonitor x r e = (e', resp)"
  shows "admits x e e'"
proof (cases "\<exists>u i. rq_user r = Some u \<and> uuid_parse x (rq_monitorID r) = Some i")
  case False
  then have "e' = e" using run by (auto simp: h_GetMonitor_def UserFromContext_def Let_def split: option.splits)
  then show ?thesis by (simp add: admits_same)
next
  case True
  then obtain u i where u: "rq_user r = Some u" "uuid_parse x (rq_monitorID r) = Some i" by blast
  obtain g where "GetMonitor x (au_UserID u) i e = (e', g)"
    using run u by (auto simp: h_GetMonitor_def UserFromContext_def Let_def split: prod.splits sum.splits)
  note gr = GetMonitor_result [OF inv this]
  have "drops x {} e e'" by (rule drops_touches [of "{monitorKey (uuid_string x i)}"]) (simp_all add: gr)
  then show ?thesis using gr by (simp add: admits_drops)
qed

lemma h_GetAllMonitors_admits:
  assumes run: "h_GetAllMonitors x r e = (e', resp)"
  shows "admits x e e'"
proof -
  have "e' = e \<or> (\<exists>u l n g. GetAllMonitors u l n e = (e', g))"
    using run by (auto simp: h_GetAllMonitors_def Let_def split: option.splits prod.splits sum.splits)
  then show ?thesis using repo_GetAll_result(1,2) by (metis admits_frame admits_same)
qed

lemma h_CreateMonitor_admits:
  assumes inv: "service_inv x e" and a: "ascii_body (rq_body r)" and run: "h_CreateMonitor x validate r e = (e', resp)"
  shows "admits x e e'"
proof (cases "\<exists>u q. rq_user r = Some u \<and> decode_createMonitor (rq_body r) = Some q \<and>
    validStruct validate (createMonitor_tags q)")
  case False
  then have "e' = e" using run by (auto simp: h_CreateMonitor_def UserFromContext_def Let_def split: option.splits if_splits)
  then show ?thesis by (simp add: admits_same)
next
  case True
  then obtain u q where u: "rq_user r = Some u" "decode_createMonitor (rq_body r) = Some q"
    "validStruct validate (createMonitor_tags q)" by blast
  let ?cmd = "\<lparr>cmc_UserID = au_UserID u, cmc_Url = cmr_Url q, cmc_IntervalSec = cmr_IntervalSec q,
    cmc_TimeoutSec = cmr_TimeoutSec q, cmc_LatencyThresholdMs = cmr_LatencyThresholdMs q,
    cmc_ExpectedStatus = cmr_ExpectedStatus q, cmc_AlertEmail = cmr_AlertEmail q\<rparr>"
  obtain g where g: "CreateMonitor x ?cmd e = (e', g)"
    using run u by (auto simp: h_CreateMonitor_def UserFromContext_def Let_def split: prod.splits sum.splits)
  have "ascii_cmd ?cmd" using decode_createMonitor_ascii [OF u(2) a] by (simp add: ascii_cmd_def)
  then show ?thesis using g by (rule CreateMonitor_admits [OF inv])
qed

text \<open>A request can only switch a monitor on: one that asks to switch it off fails the validation.\<close>

lemma h_UpdateMonitorStatus_admits:
  assumes inv: "service_inv x e" and run: "h_UpdateMonitorStatus x validate r e = (e', resp)"
  shows "admits x e e'"
proof (cases "\<exists>u i q. rq_user r = Some u \<and> uuid_parse x (rq_monitorID r) = Some i \<and>
    decode_updateStatus (rq_body r) = Some q \<and> validStruct validate (updateStatus_tags q)")
  case False
  then have "e' = e" using run by (auto simp: h_UpdateMonitorStatus_def UserFromContext_def Let_def split: option.splits if_splits)
  then show ?thesis by (simp add: admits_same)
next
  case True
  then obtain u i q where u: "rq_user r = Some u" "uuid_parse x (rq_monitorID r) = Some i"
    "decode_updateStatus (rq_body r) = Some q" "validStruct validate (updateStatus_tags q)" by blast
  have en: "umr_Enable q" using u(4) by (simp add: validStruct_def updateStatus_tags_def required_bool)
  obtain g where "UpdateMonitorStatus x (au_UserID u) i True e = (e', g)"
    using run u en by (auto simp: h_UpdateMonitorStatus_def UserFromContext_def Let_def split: prod.splits sum.splits)
  then show ?thesis by (rule enabling_admits [OF inv])
qed

lemma monitor_Routes_admits:
  assumes "service_inv x e" and "ascii_body (rq_body r)" and "monitor_Routes x validate rt r e = (e', resp)"
  shows "admits x e e'"
  using assms h_GetMonitor_admits h_GetAllMonitors_admits h_CreateMonitor_admits h_UpdateMonitorStatus_admits
  by (cases rt) (auto simp: monitor_Routes_def)

lemma user_Routes_admits:
  assumes inv: "service_inv x e" and run: "user_Routes x sec ts validate rt r e = (e', resp)"
  shows "admits x e e'"
proof (cases rt)
  case PostRegister
  then have run': "h_Register x sec validate r e = (e', resp)" using run by (simp add: user_Routes_def)
  have "e' = e \<or> (\<exists>d g. Register sec d e = (e', g))"
    using run' by (auto simp: h_Register_def Let_def split: option.splits if_splits prod.splits sum.splits)
  then have "vw x e' = vw x e" using Register_result(1) by auto
  then show ?thesis using h_Register_inv [OF inv run'] by (simp add: admits_same)
next
  case PostLogin
  then have "h_LogIn x sec ts validate r e = (e', resp)" using run by (simp add: user_Routes_def)
  from h_LogIn_frame [OF this] show ?thesis by (simp add: admits_frame)
next
  case GetGetProfile
  then have "Handle x sec ts (h_GetProfile x) r e = (e', resp)" using run by (simp add: user_Routes_def)
  then show ?thesis
  proof (cases rule: Handle_cases)
    case refused
    show ?thesis using refused(1) by (rule admits_refused)
  next
    case (passed v)
    show ?thesis using h_GetProfile_frame [OF passed(2)] by - (rule admits_tick, simp add: admits_frame)
  qed
qed

lemma request_admits:
  assumes inv: "service_inv x e" and a: "ascii_body (rq_body r)" and run: "RegisterRoutes x sec ts validate rt r e = (e', resp)"
  shows "admits x e e'"
proof (cases rt)
  case (Users u)
  then show ?thesis using user_Routes_admits [OF inv] run by (simp add: RegisterRoutes_def)
next
  case (Monitors m)
  then have "Handle x sec ts (monitor_Routes x validate m) r e = (e', resp)" using run by (simp add: RegisterRoutes_def)
  then show ?thesis
  proof (cases rule: Handle_cases)
    case refused
    show ?thesis using refused(1) by (rule admits_refused)
  next
    case (passed v)
    show ?thesis using monitor_Routes_admits [OF service_inv_tick [OF inv] _ passed(2)] a by - (rule admits_tick, simp)
  qed
qed

lemma admits_ticked: "admits x e e' \<Longrightarrow> admits x e (tick e')"
  by (simp add: admits_def drops_def tick_frame vw_def)

lemma served_admits:
  assumes inv: "service_inv x e" and a: "ascii_body (rq_body (hq_request q))"
    and run: "served x sec ts validate reqid written rt q e = (e', resp, evs)"
  shows "admits x e e'"
  using run
proof (rule served_route)
  fix e2 d
  assume route: "RegisterRoutes x sec ts validate rt ((hq_request q)\<lparr>rq_reqID := reqid q (Suc (ticks e))\<rparr>) (tick e) = (e2, resp)"
    and e': "e' = tick e2"
  have "admits x (tick e) e2" using request_admits [OF service_inv_tick [OF inv] _ route] a by simp
  then show ?thesis unfolding e' by (rule admits_ticked [OF admits_tick])
qed

end

end
