(* ===== verification/Configuration.thy ===== *)
theory Configuration
  imports Validator Security Scheduler
begin

text \<open>
  The configuration (\<^verbatim>\<open>config/models.go\<close>) with the tags that \<^verbatim>\<open>validateConfig\<close> of
  \<^verbatim>\<open>config/loader.go\<close> checks after the file has been read, the defaults, and \<^verbatim>\<open>LoadConfig\<close>,
  with the package \<^verbatim>\<open>viper\<close> that reads the file and the environment as a parameter. A nested
  struct is checked field by field; \<^verbatim>\<open>required\<close> on the struct itself adds nothing.
\<close>

section \<open>Models (models.go)\<close>

record appConfig =
  app_JobChannelSize :: int
  app_ResultChannelSize :: int
  app_AlertChannelSize :: int

record executorConfig =
  ex_WorkerCount :: int
  ex_HTTPSemCount :: int

record alertConfig =
  al_WorkerCount :: int
  al_OwnerEmail :: string
  al_AccessKey :: string

record resultProcessorConfig =
  rp_SuccessWorkerCount :: int
  rp_SuccessChannelSize :: int
  rp_FailureWorkerCount :: int
  rp_FailureChannelSize :: int

record redisConfig =
  rd_URL :: string
  rd_DialTimeout :: duration
  rd_ReadTimeout :: duration
  rd_WriteTimeout :: duration
  rd_PoolSize :: int
  rd_MinIdleConns :: int
  rd_ConnMaxLifetime :: duration
  rd_ConnMaxIdleTime :: duration

record dBConfig =
  dc_URL :: string
  dc_MaxOpenConns :: int
  dc_MinIdleConns :: int
  dc_ConnMaxLifetime :: duration
  dc_ConnMaxIdleTime :: duration
  dc_HealthTimeout :: duration

record config =
  c_Env :: string
  c_ServiceName :: string
  c_Port :: int
  c_Auth :: authConfig
  c_App :: appConfig
  c_Scheduler :: schedulerConfig
  c_Reclaimer :: reclaimerConfig
  c_Executor :: executorConfig
  c_Alert :: alertConfig
  c_ResultProcessor :: resultProcessorConfig
  c_Redis :: redisConfig
  c_DB :: dBConfig

section \<open>Validation (loader.go)\<close>

definition pool_tags :: "redisConfig \<Rightarrow> dBConfig \<Rightarrow> (field \<times> tag list) list" where
  "pool_tags r d = [
     (FStr (rd_URL r), [Required, Url]), (FInt (rd_DialTimeout r), [Gt 0]), (FInt (rd_ReadTimeout r), [Gt 0]),
     (FInt (rd_WriteTimeout r), [Gt 0]), (FInt (rd_PoolSize r), [Gte 1, Lte 1000]), (FInt (rd_MinIdleConns r), [Gt 0]),
     (FInt (rd_ConnMaxLifetime r), [Gt 0]), (FInt (rd_ConnMaxIdleTime r), [Gt 0]),
     (FStr (dc_URL d), [Required, Url]), (FInt (dc_MaxOpenConns d), [Gt 0]), (FInt (dc_MinIdleConns d), [Gt 0]),
     (FInt (dc_ConnMaxLifetime d), [Gt 0]), (FInt (dc_ConnMaxIdleTime d), [Gt 0]), (FInt (dc_HealthTimeout d), [Gt 0])]"

definition worker_tags :: "executorConfig \<Rightarrow> alertConfig \<Rightarrow> resultProcessorConfig \<Rightarrow> (field \<times> tag list) list" where
  "worker_tags ex al rp = [
     (FInt (ex_WorkerCount ex), [Gte 5, Lte 200]), (FInt (ex_HTTPSemCount ex), [Gte 5, Lte 6000]),
     (FInt (al_WorkerCount al), [Gte 5]), (FStr (al_OwnerEmail al), [Required]), (FStr (al_AccessKey al), [Required]),
     (FInt (rp_SuccessWorkerCount rp), [Gte 5]), (FInt (rp_SuccessChannelSize rp), [Gte 5]),
     (FInt (rp_FailureWorkerCount rp), [Gte 5]), (FInt (rp_FailureChannelSize rp), [Gte 5])]"

definition config_tags :: "config \<Rightarrow> (field \<times> tag list) list" where
  "config_tags c = [
     (FStr (c_Env c), [Required, Oneof [''development'', ''staging'', ''production'']]),
     (FInt (c_Port c), [Gte 1, Lte 65535]),
     (FStr (ac_Secret (c_Auth c)), [Required]), (FInt (ac_TokenTTL (c_Auth c)), [Gt 0]),
     (FInt (app_JobChannelSize (c_App c)), [Gte 100, Lte 5000]),
     (FInt (app_ResultChannelSize (c_App c)), [Gte 100, Lte 5000]),
     (FInt (app_AlertChannelSize (c_App c)), [Gte 100, Lte 5000]),
     (FInt (cfg_Interval (c_Scheduler c)), [Gte 5]), (FInt (cfg_BatchSize (c_Scheduler c)), [Gt 0]),
     (FInt (cfg_VisibilityTimeout (c_Scheduler c)), [Gt 0]),
     (FInt (rcfg_Interval (c_Reclaimer c)), [Gte 5]), (FInt (rcfg_Limit (c_Reclaimer c)), [Gt 0])] @
     worker_tags (c_Executor c) (c_Alert c) (c_ResultProcessor c) @ pool_tags (c_Redis c) (c_DB c)"

definition validateConfig :: "(tag \<Rightarrow> field \<Rightarrow> bool) \<Rightarrow> config \<Rightarrow> bool" where
  "validateConfig validate c \<longleftrightarrow> validStruct validate (config_tags c)"

text \<open>
  \<^verbatim>\<open>setDefaults\<close>: the values used for what the file leaves out; a key with no default is the
  zero value.
\<close>

definition setDefaults :: config where
  "setDefaults = \<lparr>c_Env = ''development'', c_ServiceName = ''monitor-service'', c_Port = 8080,
     c_Auth = \<lparr>ac_Secret = '''', ac_TokenTTL = 30 * Minute\<rparr>,
     c_App = \<lparr>app_JobChannelSize = 0, app_ResultChannelSize = 0, app_AlertChannelSize = 0\<rparr>,
     c_Scheduler = \<lparr>cfg_Interval = 10 * Second, cfg_BatchSize = 10, cfg_VisibilityTimeout = 0\<rparr>,
     c_Reclaimer = \<lparr>rcfg_Interval = 0, rcfg_Limit = 0\<rparr>,
     c_Executor = \<lparr>ex_WorkerCount = 0, ex_HTTPSemCount = 0\<rparr>,
     c_Alert = \<lparr>al_WorkerCount = 0, al_OwnerEmail = '''', al_AccessKey = ''''\<rparr>,
     c_ResultProcessor = \<lparr>rp_SuccessWorkerCount = 0, rp_SuccessChannelSize = 0,
        rp_FailureWorkerCount = 0, rp_FailureChannelSize = 0\<rparr>,
     c_Redis = \<lparr>rd_URL = '''', rd_DialTimeout = 5 * Second, rd_ReadTimeout = 3 * Second,
        rd_WriteTimeout = 3 * Second, rd_PoolSize = 10, rd_MinIdleConns = 5,
        rd_ConnMaxLifetime = 2 * Minute, rd_ConnMaxIdleTime = 30 * Second\<rparr>,
     c_DB = \<lparr>dc_URL = '''', dc_MaxOpenConns = 50, dc_MinIdleConns = 5, dc_ConnMaxLifetime = Hour,
        dc_ConnMaxIdleTime = 30 * Minute, dc_HealthTimeout = 5 * Second\<rparr>\<rparr>"

text \<open>
  \<^verbatim>\<open>LoadConfig\<close>. Reading the file and filling the struct are the work of \<^verbatim>\<open>viper\<close>: \<open>readInConfig\<close>
  and \<open>unmarshal\<close> are parameters, with the defaults as an argument. The list of the failed tags
  in the text of the last error is left out.
\<close>

datatype config_error = ReadConfig string | UnmarshalConfig string | ValidationFailed

definition LoadConfig :: "(string \<Rightarrow> string + 'f) \<Rightarrow> (config \<Rightarrow> 'f \<Rightarrow> string + config) \<Rightarrow> (tag \<Rightarrow> field \<Rightarrow> bool) \<Rightarrow>
    string \<Rightarrow> config_error + config" where
  "LoadConfig readInConfig unmarshal validate path = (case readInConfig path of
     Inl err \<Rightarrow> Inl (ReadConfig err)
   | Inr file \<Rightarrow> (case unmarshal setDefaults file of
       Inl err \<Rightarrow> Inl (UnmarshalConfig err)
     | Inr cfg \<Rightarrow> if \<not> validateConfig validate cfg then Inl ValidationFailed else Inr cfg))"

section \<open>What a valid configuration gives\<close>

text \<open>Every channel has room, every stage has a worker, and the loops do not panic.\<close>

definition sound_config :: "config \<Rightarrow> bool" where
  "sound_config c \<longleftrightarrow> 0 < app_JobChannelSize (c_App c) \<and> 0 < app_ResultChannelSize (c_App c) \<and>
     0 < app_AlertChannelSize (c_App c) \<and> 0 < ex_WorkerCount (c_Executor c) \<and> 0 < ex_HTTPSemCount (c_Executor c) \<and>
     0 < al_WorkerCount (c_Alert c) \<and> 0 < rp_SuccessWorkerCount (c_ResultProcessor c) \<and>
     0 < rp_SuccessChannelSize (c_ResultProcessor c) \<and> 0 < rp_FailureWorkerCount (c_ResultProcessor c) \<and>
     0 < rp_FailureChannelSize (c_ResultProcessor c) \<and> 0 < cfg_Interval (c_Scheduler c) \<and>
     0 < cfg_BatchSize (c_Scheduler c) \<and> 0 < rcfg_Interval (c_Reclaimer c) \<and> 0 < rcfg_Limit (c_Reclaimer c) \<and>
     0 < ac_TokenTTL (c_Auth c) \<and> ac_Secret (c_Auth c) \<noteq> ''''"

context validator_tags
begin

lemma validateConfig_sound: "validateConfig validate c \<Longrightarrow> sound_config c"
  by (simp add: validateConfig_def validStruct_def config_tags_def worker_tags_def sound_config_def tag_laws)

end

lemma LoadConfig_valid: "LoadConfig readInConfig unmarshal validate path = Inr c \<Longrightarrow> validateConfig validate c"
  by (auto simp: LoadConfig_def split: sum.splits if_splits)

end
