(* ===== verification/Container.thy ===== *)
theory Container
  imports Configuration Executor Result
begin

text \<open>
  The components as their constructors make them from the configuration, and the container that
  holds them (\<^verbatim>\<open>internals/app/container.go\<close>). Of a component the settings it keeps are modelled;
  a channel is represented by its capacity, and the services a component is handed are those of
  the environment. Connecting to Redis is modelled up to what the client library does.
\<close>

section \<open>The Redis client (redisstore/client.go)\<close>

text \<open>
  The options of the client, of which the code sets the timeouts and the pool; \<open>opt_Addr\<close> stands
  for what \<^verbatim>\<open>redis.ParseURL\<close> finds in the URL. \<open>redis_lib\<close> is the library: parsing the URL, and
  whether a ping with a client of these options fails, or closing it.
\<close>

record redisOptions =
  opt_Addr :: string
  opt_DialTimeout :: duration
  opt_ReadTimeout :: duration
  opt_WriteTimeout :: duration
  opt_PoolSize :: int
  opt_MinIdleConns :: int
  opt_ConnMaxLifetime :: duration
  opt_ConnMaxIdleTime :: duration

record redis_lib =
  redis_ParseURL :: "string \<Rightarrow> redisOptions result"
  redis_Ping :: "redisOptions \<Rightarrow> go_error option"
  redis_Close :: "redisOptions \<Rightarrow> go_error option"

definition redis_options :: "redisConfig \<Rightarrow> redisOptions \<Rightarrow> redisOptions" where
  "redis_options cfg opt = opt\<lparr>opt_DialTimeout := rd_DialTimeout cfg, opt_ReadTimeout := rd_ReadTimeout cfg,
     opt_WriteTimeout := rd_WriteTimeout cfg, opt_PoolSize := rd_PoolSize cfg, opt_MinIdleConns := rd_MinIdleConns cfg,
     opt_ConnMaxLifetime := rd_ConnMaxLifetime cfg, opt_ConnMaxIdleTime := rd_ConnMaxIdleTime cfg\<rparr>"

definition redis_New :: "redis_lib \<Rightarrow> redisConfig \<Rightarrow> redisOptions result" where
  "redis_New lib cfg = (case redis_ParseURL lib (rd_URL cfg) of
     Inl err \<Rightarrow> Inl err
   | Inr opt \<Rightarrow> (let rdb = redis_options cfg opt in
       case redis_Ping lib rdb of Some err \<Rightarrow> Inl err | None \<Rightarrow> Inr rdb))"

definition Client_Close :: "redis_lib \<Rightarrow> redisOptions \<Rightarrow> go_error option" where
  "Client_Close lib rdb = redis_Close lib rdb"

section \<open>Components\<close>

text \<open>The client for the checks (\<^verbatim>\<open>pkg/httpclient\<close>): its dialer and transport.\<close>

record httpClient =
  cl_DialTimeout :: duration
  cl_KeepAlive :: duration
  cl_TLSHandshakeTimeout :: duration
  cl_ResponseHeaderTimeout :: duration
  cl_ExpectContinueTimeout :: duration
  cl_MaxIdleConns :: int
  cl_MaxIdleConnsPerHost :: int
  cl_IdleConnTimeout :: duration

definition NewHttpClient :: httpClient where
  "NewHttpClient = \<lparr>cl_DialTimeout = 5 * Second, cl_KeepAlive = 30 * Second, cl_TLSHandshakeTimeout = 5 * Second,
     cl_ResponseHeaderTimeout = 10 * Second, cl_ExpectContinueTimeout = Second, cl_MaxIdleConns = 10000,
     cl_MaxIdleConnsPerHost = 100, cl_IdleConnTimeout = 90 * Second\<rparr>"

record executor =
  ew_workerCount :: int
  ew_httpSem :: int
  ew_httpClient :: httpClient

definition NewExecutor :: "executorConfig \<Rightarrow> httpClient \<Rightarrow> executor" where
  "NewExecutor cfg client = \<lparr>ew_workerCount = ex_WorkerCount cfg, ew_httpSem = ex_HTTPSemCount cfg, ew_httpClient = client\<rparr>"

record resultProcessor =
  rpr_successWorkerCount :: int
  rpr_failureWorkerCount :: int
  rpr_successChan :: int
  rpr_failureChan :: int

definition NewResultProcessor :: "resultProcessorConfig \<Rightarrow> resultProcessor" where
  "NewResultProcessor cfg = \<lparr>rpr_successWorkerCount = rp_SuccessWorkerCount cfg,
     rpr_failureWorkerCount = rp_FailureWorkerCount cfg, rpr_successChan = rp_SuccessChannelSize cfg,
     rpr_failureChan = rp_FailureChannelSize cfg\<rparr>"

record alertService =
  as_workerCount :: int

definition NewAlertService :: "alertConfig \<Rightarrow> alertService" where
  "NewAlertService cfg = \<lparr>as_workerCount = al_WorkerCount cfg\<rparr>"

section \<open>The container\<close>

record container =
  ct_RedisClient :: redisOptions
  ct_authMW :: tokenService
  ct_Reclaimer :: reclaimer
  ct_Scheduler :: scheduler
  ct_Executor :: executor
  ct_ResultPro :: resultProcessor
  ct_AlertSvc :: alertService
  ct_JobChan :: int
  ct_ResultChan :: int
  ct_AlertChan :: int

text \<open>\<^verbatim>\<open>make(chan T, n)\<close> panics for a negative size; so does the construction then.\<close>

datatype start_failure = StartError go_error | StartPanic

definition chan_sizes :: "config \<Rightarrow> int list" where
  "chan_sizes c = [app_JobChannelSize (c_App c), app_ResultChannelSize (c_App c), app_AlertChannelSize (c_App c),
     ex_HTTPSemCount (c_Executor c), rp_SuccessChannelSize (c_ResultProcessor c), rp_FailureChannelSize (c_ResultProcessor c)]"

definition NewContainer :: "redis_lib \<Rightarrow> config \<Rightarrow> start_failure + container" where
  "NewContainer lib cfg = (case redis_New lib (c_Redis cfg) of
     Inl err \<Rightarrow> Inl (StartError err)
   | Inr redisClient \<Rightarrow>
      (if list_ex (\<lambda>n. n < 0) (chan_sizes cfg) then Inl StartPanic
       else Inr \<lparr>ct_RedisClient = redisClient, ct_authMW = NewTokenService (c_Auth cfg),
         ct_Reclaimer = NewReclaimer (c_Reclaimer cfg), ct_Scheduler = NewScheduler (c_Scheduler cfg),
         ct_Executor = NewExecutor (c_Executor cfg) NewHttpClient, ct_ResultPro = NewResultProcessor (c_ResultProcessor cfg),
         ct_AlertSvc = NewAlertService (c_Alert cfg), ct_JobChan = app_JobChannelSize (c_App cfg),
         ct_ResultChan = app_ResultChannelSize (c_App cfg), ct_AlertChan = app_AlertChannelSize (c_App cfg)\<rparr>))"

text \<open>Every channel has room, every stage has a worker, and the loops do not panic.\<close>

definition sound_container :: "container \<Rightarrow> bool" where
  "sound_container ct \<longleftrightarrow> 0 < ct_JobChan ct \<and> 0 < ct_ResultChan ct \<and> 0 < ct_AlertChan ct \<and>
     0 < ew_workerCount (ct_Executor ct) \<and> 0 < ew_httpSem (ct_Executor ct) \<and> 0 < as_workerCount (ct_AlertSvc ct) \<and>
     0 < rpr_successWorkerCount (ct_ResultPro ct) \<and> 0 < rpr_failureWorkerCount (ct_ResultPro ct) \<and>
     0 < rpr_successChan (ct_ResultPro ct) \<and> 0 < rpr_failureChan (ct_ResultPro ct) \<and>
     0 < sc_interval (ct_Scheduler ct) \<and> 0 < sc_batchSize (ct_Scheduler ct) \<and>
     0 < rc_interval (ct_Reclaimer ct) \<and> 0 < rc_limit (ct_Reclaimer ct)"

lemmas constructors = NewExecutor_def NewResultProcessor_def NewAlertService_def NewScheduler_def NewReclaimer_def
  NewTokenService_def

lemma NewContainer_sound:
  assumes "NewContainer lib cfg = Inr ct" and "sound_config cfg"
  shows "sound_container ct"
  using assms by (auto simp: NewContainer_def constructors sound_config_def sound_container_def split: sum.splits if_splits)

text \<open>A sound configuration cannot make the construction panic, and only Redis can make it fail.\<close>

lemma NewContainer_total:
  assumes "sound_config cfg"
  shows "(\<exists>ct. NewContainer lib cfg = Inr ct) \<longleftrightarrow> (\<exists>rdb. redis_New lib (c_Redis cfg) = Inr rdb)"
    and "NewContainer lib cfg \<noteq> Inl StartPanic"
  using assms by (auto simp: NewContainer_def sound_config_def chan_sizes_def split: sum.splits)

end
