(* ===== verification/Pipeline.thy ===== *)
theory Pipeline
  imports Middleware Container Result_Laws Scheduler_Laws
begin

text \<open>
  The running system: the goroutines that \<^verbatim>\<open>cmd/api/main.go\<close> starts on the container of
  \<^verbatim>\<open>internals/app/container.go\<close>, the channels between them, and the shutdown. A step is one
  move of one goroutine: it takes an item from a channel and handles it, hands an item on, or
  ends; handlers run as a whole, and a goroutine that has to hand on an item holds it until
  there is room. A channel is closed when the phase of the shutdown says so (the channels
  behind the router: when the router has ended), and a send on a closed channel panics.
\<close>

section \<open>State\<close>

text \<open>
  \<open>EAcquiring m\<close>: a worker of the executor waits for the semaphore to start the check of \<open>m\<close>;
  \<open>Checking\<close> and \<open>Sending\<close>: a goroutine with its place in the semaphore, before and after the
  exchange; \<open>FAlerting r b a\<close>: a failure worker waits for room for the alert \<open>a\<close>, with the
  deferred part for \<open>r\<close> still to run.
\<close>

datatype exec_state = ETaking | EAcquiring monitor | EExited

datatype check_state = Checking monitor | Sending hTTPResult

datatype router_state = RTaking | RSending hTTPResult | RExited

datatype succ_state = STaking | SExited

datatype fail_state = FTaking | FAlerting hTTPResult bool alertEvent | FExited

datatype alert_state = ATaking | AExited

text \<open>The place of \<^verbatim>\<open>Shutdown\<close>: which channel it has closed last.\<close>

datatype phase = Serving | JobsClosed | ResultsClosed | AlertsClosed | Finished

text \<open>
  \<open>s_sched\<close> tells whether the scheduler's goroutine runs and \<open>s_batch\<close> what is left of its
  batch; \<open>s_cancelled\<close> whether the context of the process is done; \<open>s_sent\<close> records the alerts
  that were sent.
\<close>

record 'k pipe =
  s_world :: "'k world"
  s_cancelled :: bool
  s_phase :: phase
  s_sched :: bool
  s_batch :: "string list"
  s_jobs :: "jobPayload list"
  s_exec :: "exec_state list"
  s_checks :: "check_state list"
  s_results :: "hTTPResult list"
  s_router :: router_state
  s_succ :: "hTTPResult list"
  s_succw :: "succ_state list"
  s_fail :: "hTTPResult list"
  s_failw :: "fail_state list"
  s_alerts :: "alertEvent list"
  s_alertw :: "alert_state list"
  s_printed :: "uuid list"
  s_sent :: "alertEvent list"
  s_panic :: bool

definition results_closed :: "'k pipe \<Rightarrow> bool" where
  "results_closed s \<longleftrightarrow> s_phase s \<in> {ResultsClosed, AlertsClosed, Finished}"

definition alerts_closed :: "'k pipe \<Rightarrow> bool" where
  "alerts_closed s \<longleftrightarrow> s_phase s \<in> {AlertsClosed, Finished}"

section \<open>Starting\<close>

definition StartWorkers :: "executor \<Rightarrow> exec_state list" where
  "StartWorkers ew = replicate (nat (ew_workerCount ew)) ETaking"

definition StartResultProcessor :: "resultProcessor \<Rightarrow> succ_state list \<times> fail_state list \<times> router_state" where
  "StartResultProcessor rp = (replicate (nat (rpr_successWorkerCount rp)) STaking,
     replicate (nat (rpr_failureWorkerCount rp)) FTaking, RTaking)"

definition AlertService_Run :: "alertService \<Rightarrow> alert_state list" where
  "AlertService_Run s = replicate (nat (as_workerCount s)) ATaking"

text \<open>\<^verbatim>\<open>NewContainer\<close> makes the channels, empty, and \<^verbatim>\<open>main\<close> starts the goroutines.\<close>

definition started :: "container \<Rightarrow> 'k world \<Rightarrow> 'k pipe" where
  "started c e = (let (sw, fw, rt) = StartResultProcessor (ct_ResultPro c) in
     \<lparr>s_world = e, s_cancelled = False, s_phase = Serving, s_sched = True, s_batch = [], s_jobs = [],
      s_exec = StartWorkers (ct_Executor c), s_checks = [], s_results = [], s_router = rt,
      s_succ = [], s_succw = sw, s_fail = [], s_failw = fw, s_alerts = [],
      s_alertw = AlertService_Run (ct_AlertSvc c), s_printed = [], s_sent = [], s_panic = False\<rparr>)"

section \<open>Shutting down\<close>

text \<open>
  What \<^verbatim>\<open>Shutdown\<close> waits for: whether the wait groups are down to zero. The executor waits for its
  workers and then for the checks they started, the result processor for the workers of both
  kinds (not for the router), the alert service for its workers.
\<close>

definition Executor_Stop :: "'k pipe \<Rightarrow> bool" where
  "Executor_Stop s \<longleftrightarrow> list_all (\<lambda>w. w = EExited) (s_exec s) \<and> s_checks s = []"

definition WorkersClosingWait :: "'k pipe \<Rightarrow> bool" where
  "WorkersClosingWait s \<longleftrightarrow> list_all (\<lambda>w. w = SExited) (s_succw s) \<and> list_all (\<lambda>w. w = FExited) (s_failw s)"

definition WorkerClosingWait :: "'k pipe \<Rightarrow> bool" where
  "WorkerClosingWait s \<longleftrightarrow> list_all (\<lambda>w. w = AExited) (s_alertw s)"

lemmas wait_defs = Executor_Stop_def WorkersClosingWait_def WorkerClosingWait_def list_all_iff

text \<open>\<^verbatim>\<open>Shutdown\<close>: which channel it closes next, if what it waits for has happened.\<close>

definition Shutdown :: "'k pipe \<Rightarrow> phase option" where
  "Shutdown s = (case s_phase s of
     Serving \<Rightarrow> Some JobsClosed
   | JobsClosed \<Rightarrow> (if Executor_Stop s then Some ResultsClosed else None)
   | ResultsClosed \<Rightarrow> (if WorkersClosingWait s then Some AlertsClosed else None)
   | AlertsClosed \<Rightarrow> (if WorkerClosingWait s then Some Finished else None)
   | Finished \<Rightarrow> None)"

lemma Shutdown_cases:
  "Shutdown s = Some p \<Longrightarrow> s_phase s = Serving \<and> p = JobsClosed \<or>
     s_phase s = JobsClosed \<and> p = ResultsClosed \<and> (\<forall>w \<in> set (s_exec s). w = EExited) \<and> s_checks s = [] \<or>
     s_phase s = ResultsClosed \<and> p = AlertsClosed \<and>
       (\<forall>w \<in> set (s_succw s). w = SExited) \<and> (\<forall>w \<in> set (s_failw s). w = FExited) \<or>
     s_phase s = AlertsClosed \<and> p = Finished \<and> (\<forall>w \<in> set (s_alertw s). w = AExited)"
  by (auto simp: Shutdown_def wait_defs split: phase.splits if_splits)

section \<open>Steps\<close>

text \<open>
  A request, with any id that \<^verbatim>\<open>chi\<close> may give it, may be served at any time: the server is stopped
  before the channels are closed, but it gives up waiting for its requests after ten seconds.
  \<open>Feed\<close> labels the steps of the scheduler, the reclaimer, the server of requests, the Redis
  server (a key that expires) and the signal; \<open>Drain\<close> those of the pipeline and of the shutdown.
\<close>

datatype label = Feed | Drain

inductive pstep :: "'k services \<Rightarrow> security_libs \<Rightarrow> (tag \<Rightarrow> field \<Rightarrow> bool) \<Rightarrow>
    (string \<Rightarrow> nat \<Rightarrow> exchange) \<Rightarrow> container \<Rightarrow> label \<Rightarrow> 'k pipe \<Rightarrow> 'k pipe \<Rightarrow> bool"
  for x sec validate http c where
  request: "ascii_body (rq_body (hq_request q)) \<Longrightarrow>
      served x sec (ct_authMW c) validate reqid written rt q (s_world s) = (e', resp, evs) \<Longrightarrow>
      pstep x sec validate http c Feed s (s\<lparr>s_world := e'\<rparr>)"
| reclaim: "pstep x sec validate http c Feed s (s\<lparr>s_world := Reclaimer_doWork x (ct_Reclaimer c) (s_world s)\<rparr>)"
| expire: "ttls (vw x (s_world s)) key \<noteq> None \<Longrightarrow> view (rds x) k' = drop_key key (vw x (s_world s)) \<Longrightarrow>
      pstep x sec validate http c Feed s (s\<lparr>s_world := (s_world s)\<lparr>kv := k'\<rparr>\<rparr>)"
| signal: "pstep x sec validate http c Feed s (s\<lparr>s_cancelled := True\<rparr>)"
| tick: "s_sched s \<Longrightarrow> s_batch s = [] \<Longrightarrow> time_now (s_world s) = (e0, now) \<Longrightarrow>
      FetchAndMoveToInflight x now (sc_batchSize (ct_Scheduler c))
        (sc_visibilityTimeout (ct_Scheduler c)) e0 = (e1, r) \<Longrightarrow>
      pstep x sec validate http c Feed s (s\<lparr>s_world := e1, s_batch := (case r of Inl _ \<Rightarrow> [] | Inr ms \<Rightarrow> ms)\<rparr>)"
| skip: "s_sched s \<Longrightarrow> s_batch s = m # ms \<Longrightarrow> uuid_parse x m = None \<Longrightarrow>
      pstep x sec validate http c Feed s (s\<lparr>s_batch := ms\<rparr>)"
| send: "s_sched s \<Longrightarrow> s_batch s = m # ms \<Longrightarrow> uuid_parse x m = Some i \<Longrightarrow> s_phase s = Serving \<Longrightarrow>
      int (length (s_jobs s)) < ct_JobChan c \<Longrightarrow>
      pstep x sec validate http c Feed s (s\<lparr>s_batch := ms, s_jobs := s_jobs s @ [JobPayload i]\<rparr>)"
| send_closed: "s_sched s \<Longrightarrow> s_batch s = m # ms \<Longrightarrow> uuid_parse x m = Some i \<Longrightarrow> s_phase s \<noteq> Serving \<Longrightarrow>
      pstep x sec validate http c Feed s (s\<lparr>s_panic := True\<rparr>)"
| full: "s_sched s \<Longrightarrow> s_batch s = m # ms \<Longrightarrow> uuid_parse x m = Some i \<Longrightarrow> s_phase s = Serving \<Longrightarrow>
      ct_JobChan c \<le> int (length (s_jobs s)) \<Longrightarrow> time_now (s_world s) = (e0, now) \<Longrightarrow>
      addJitter raw (2 * Second) = Some d \<Longrightarrow> \<not> s_cancelled s \<Longrightarrow>
      pstep x sec validate http c Feed s (s\<lparr>s_batch := ms, s_world := fst (Schedule x m (now + d) e0)\<rparr>)"
| quit: "s_sched s \<Longrightarrow> s_cancelled s \<Longrightarrow>
      (case s_batch s of [] \<Rightarrow> True | m # _ \<Rightarrow> uuid_parse x m \<noteq> None) \<Longrightarrow>
      pstep x sec validate http c Feed s (s\<lparr>s_sched := False, s_batch := []\<rparr>)"
| work: "i < length (s_exec s) \<Longrightarrow> s_exec s ! i = ETaking \<Longrightarrow> s_jobs s = j # js \<Longrightarrow>
      load_job x j (s_world s) = (e', mo) \<Longrightarrow>
      pstep x sec validate http c Drain s (s\<lparr>s_world := e', s_jobs := js,
        s_exec := (s_exec s)[i := (case mo of None \<Rightarrow> ETaking | Some m \<Rightarrow> EAcquiring m)]\<rparr>)"
| acquire: "i < length (s_exec s) \<Longrightarrow> s_exec s ! i = EAcquiring m \<Longrightarrow>
      int (length (s_checks s)) < ew_httpSem (ct_Executor c) \<Longrightarrow>
      pstep x sec validate http c Drain s (s\<lparr>s_exec := (s_exec s)[i := ETaking], s_checks := s_checks s @ [Checking m]\<rparr>)"
| exec_exit: "i < length (s_exec s) \<Longrightarrow> s_exec s ! i = ETaking \<Longrightarrow> s_jobs s = [] \<Longrightarrow> s_phase s \<noteq> Serving \<Longrightarrow>
      pstep x sec validate http c Drain s (s\<lparr>s_exec := (s_exec s)[i := EExited]\<rparr>)"
| check: "s_checks s = ks @ Checking m # ks' \<Longrightarrow> executeHTTPCheck http m (s_world s) = (e', r) \<Longrightarrow>
      pstep x sec validate http c Drain s (s\<lparr>s_world := e', s_checks := ks @ Sending r # ks'\<rparr>)"
| emit: "s_checks s = ks @ Sending r # ks' \<Longrightarrow> \<not> results_closed s \<Longrightarrow>
      int (length (s_results s)) < ct_ResultChan c \<Longrightarrow>
      pstep x sec validate http c Drain s (s\<lparr>s_checks := ks @ ks', s_results := s_results s @ [r]\<rparr>)"
| emit_closed: "Sending r \<in> set (s_checks s) \<Longrightarrow> results_closed s \<Longrightarrow>
      pstep x sec validate http c Drain s (s\<lparr>s_panic := True\<rparr>)"
| route: "s_router s = RTaking \<Longrightarrow> s_results s = r # rs \<Longrightarrow>
      pstep x sec validate http c Drain s (s\<lparr>s_results := rs, s_router := RSending r\<rparr>)"
| route_success: "s_router s = RSending r \<Longrightarrow> hr_Success r \<Longrightarrow>
      int (length (s_succ s)) < rpr_successChan (ct_ResultPro c) \<Longrightarrow>
      pstep x sec validate http c Drain s (s\<lparr>s_router := RTaking, s_succ := s_succ s @ [r]\<rparr>)"
| route_failure: "s_router s = RSending r \<Longrightarrow> \<not> hr_Success r \<Longrightarrow>
      int (length (s_fail s)) < rpr_failureChan (ct_ResultPro c) \<Longrightarrow>
      pstep x sec validate http c Drain s (s\<lparr>s_router := RTaking, s_fail := s_fail s @ [r]\<rparr>)"
| route_exit: "s_router s = RTaking \<Longrightarrow> s_results s = [] \<Longrightarrow> results_closed s \<Longrightarrow>
      pstep x sec validate http c Drain s (s\<lparr>s_router := RExited\<rparr>)"
| success: "i < length (s_succw s) \<Longrightarrow> s_succw s ! i = STaking \<Longrightarrow> s_succ s = r # rs \<Longrightarrow>
      pstep x sec validate http c Drain s (s\<lparr>s_succ := rs, s_world := handleSuccess x r (s_world s)\<rparr>)"
| success_exit: "i < length (s_succw s) \<Longrightarrow> s_succw s ! i = STaking \<Longrightarrow> s_succ s = [] \<Longrightarrow> s_router s = RExited \<Longrightarrow>
      pstep x sec validate http c Drain s (s\<lparr>s_succw := (s_succw s)[i := SExited]\<rparr>)"
| failure: "i < length (s_failw s) \<Longrightarrow> s_failw s ! i = FTaking \<Longrightarrow> s_fail s = r # rs \<Longrightarrow>
      failure_body x r (s_world s) = (e', b, []) \<Longrightarrow>
      pstep x sec validate http c Drain s (s\<lparr>s_fail := rs, s_world := failure_deferred x r b e'\<rparr>)"
| failure_alert: "i < length (s_failw s) \<Longrightarrow> s_failw s ! i = FTaking \<Longrightarrow> s_fail s = r # rs \<Longrightarrow>
      failure_body x r (s_world s) = (e', b, [a]) \<Longrightarrow>
      pstep x sec validate http c Drain s (s\<lparr>s_fail := rs, s_world := e', s_failw := (s_failw s)[i := FAlerting r b a]\<rparr>)"
| alert: "i < length (s_failw s) \<Longrightarrow> s_failw s ! i = FAlerting r b a \<Longrightarrow> \<not> alerts_closed s \<Longrightarrow>
      int (length (s_alerts s)) < ct_AlertChan c \<Longrightarrow>
      pstep x sec validate http c Drain s (s\<lparr>s_alerts := s_alerts s @ [a], s_sent := s_sent s @ [a],
        s_world := failure_deferred x r b (s_world s), s_failw := (s_failw s)[i := FTaking]\<rparr>)"
| alert_closed: "FAlerting r b a \<in> set (s_failw s) \<Longrightarrow> alerts_closed s \<Longrightarrow>
      pstep x sec validate http c Drain s (s\<lparr>s_panic := True\<rparr>)"
| failure_exit: "i < length (s_failw s) \<Longrightarrow> s_failw s ! i = FTaking \<Longrightarrow> s_fail s = [] \<Longrightarrow> s_router s = RExited \<Longrightarrow>
      pstep x sec validate http c Drain s (s\<lparr>s_failw := (s_failw s)[i := FExited]\<rparr>)"
| print: "i < length (s_alertw s) \<Longrightarrow> s_alertw s ! i = ATaking \<Longrightarrow> s_alerts s = a # as \<Longrightarrow>
      pstep x sec validate http c Drain s (s\<lparr>s_alerts := as, s_printed := s_printed s @ handleAlerts [a]\<rparr>)"
| print_exit: "i < length (s_alertw s) \<Longrightarrow> s_alertw s ! i = ATaking \<Longrightarrow> s_alerts s = [] \<Longrightarrow> alerts_closed s \<Longrightarrow>
      pstep x sec validate http c Drain s (s\<lparr>s_alertw := (s_alertw s)[i := AExited]\<rparr>)"
| shutdown: "(s_phase s = Serving \<longrightarrow> s_cancelled s) \<Longrightarrow> Shutdown s = Some p \<Longrightarrow>
      pstep x sec validate http c Drain s (s\<lparr>s_phase := p\<rparr>)"

lemma close_jobs:
  "s_cancelled s \<Longrightarrow> s_phase s = Serving \<Longrightarrow> pstep x sec validate http c Drain s (s\<lparr>s_phase := JobsClosed\<rparr>)"
  by (rule shutdown) (simp_all add: Shutdown_def)

lemma close_results:
  "s_phase s = JobsClosed \<Longrightarrow> set (s_exec s) \<subseteq> {EExited} \<Longrightarrow> s_checks s = [] \<Longrightarrow>
     pstep x sec validate http c Drain s (s\<lparr>s_phase := ResultsClosed\<rparr>)"
  by (rule shutdown) (auto simp: Shutdown_def wait_defs)

lemma close_alerts:
  "s_phase s = ResultsClosed \<Longrightarrow> set (s_succw s) \<subseteq> {SExited} \<Longrightarrow> set (s_failw s) \<subseteq> {FExited} \<Longrightarrow>
     pstep x sec validate http c Drain s (s\<lparr>s_phase := AlertsClosed\<rparr>)"
  by (rule shutdown) (auto simp: Shutdown_def wait_defs)

lemma finish:
  "s_phase s = AlertsClosed \<Longrightarrow> set (s_alertw s) \<subseteq> {AExited} \<Longrightarrow>
     pstep x sec validate http c Drain s (s\<lparr>s_phase := Finished\<rparr>)"
  by (rule shutdown) (auto simp: Shutdown_def wait_defs)

text \<open>A run goes on as long as nothing has panicked.\<close>

inductive reach :: "'k services \<Rightarrow> security_libs \<Rightarrow> (tag \<Rightarrow> field \<Rightarrow> bool) \<Rightarrow>
    (string \<Rightarrow> nat \<Rightarrow> exchange) \<Rightarrow> container \<Rightarrow> 'k world \<Rightarrow> 'k pipe \<Rightarrow> bool"
  for x sec validate http c e where
  start: "reach x sec validate http c e (started c e)"
| step: "reach x sec validate http c e s \<Longrightarrow> \<not> s_panic s \<Longrightarrow> pstep x sec validate http c l s s' \<Longrightarrow>
      reach x sec validate http c e s'"

end
