(* ===== verification/Pipeline_Laws.thy ===== *)
theory Pipeline_Laws
  imports Pipeline
begin

text \<open>
  Invariants of the running system: every item on its way is about a monitor that exists while the
  stores stay consistent (\<open>data_inv\<close>), and channels, goroutines and closings fit together
  (\<open>pipe_inv\<close>).
\<close>

section \<open>The invariant of the data\<close>

text \<open>The monitors that the items in the pipeline are about.\<close>

primrec exec_ids :: "exec_state \<Rightarrow> uuid set" where
  "exec_ids ETaking = {}" | "exec_ids (EAcquiring m) = {mon_ID m}" | "exec_ids EExited = {}"

primrec check_ids :: "check_state \<Rightarrow> uuid set" where
  "check_ids (Checking m) = {mon_ID m}" | "check_ids (Sending r) = {hr_MonitorID r}"

primrec router_ids :: "router_state \<Rightarrow> uuid set" where
  "router_ids RTaking = {}" | "router_ids (RSending r) = {hr_MonitorID r}" | "router_ids RExited = {}"

primrec fail_ids :: "fail_state \<Rightarrow> uuid set" where
  "fail_ids FTaking = {}" | "fail_ids (FAlerting r b a) = {hr_MonitorID r, ae_MonitorID a}" | "fail_ids FExited = {}"

definition held :: "'k pipe \<Rightarrow> uuid set" where
  "held s = \<Union> (exec_ids ` set (s_exec s)) \<union> \<Union> (check_ids ` set (s_checks s)) \<union>
     hr_MonitorID ` set (s_results s) \<union> router_ids (s_router s) \<union> hr_MonitorID ` set (s_succ s) \<union>
     hr_MonitorID ` set (s_fail s) \<union> \<Union> (fail_ids ` set (s_failw s)) \<union> ae_MonitorID ` set (s_sent s)"

definition known :: "'k world \<Rightarrow> uuid set" where
  "known e = m_ID ` set (monitors (db e))"

lemma known_same: "monitors (db e') = monitors (db e) \<Longrightarrow> known e' = known e"
  by (simp add: known_def)

lemma failure_body_alerts:
  "failure_body x r e = (e', b, as) \<Longrightarrow> as = [] \<or> as = [AlertEvent (hr_MonitorID r)]"
  by (auto simp: failure_body_def failure_incident_def Let_def case_prod_unfold
      split: if_splits option.splits prod.splits sum.splits)

lemma Union_update: "\<Union> (f ` set (xs[i := y])) \<subseteq> f y \<union> \<Union> (f ` set xs)"
  using set_update_subset_insert [of xs i y] by auto

definition data_inv :: "'k services \<Rightarrow> 'k pipe \<Rightarrow> bool" where
  "data_inv x s \<longleftrightarrow> service_inv x (s_world s) \<and> held s \<subseteq> known (s_world s)"

lemma data_invI:
  assumes "data_inv x s" and "service_inv x (s_world s')"
    and "known (s_world s) \<subseteq> known (s_world s')" and "held s' \<subseteq> held s \<union> known (s_world s')"
  shows "data_inv x s'"
  using assms by (auto simp: data_inv_def)

lemma data_inv_keeps:
  assumes "data_inv x s" and "keeps x K (s_world s) (s_world s')" and "held s' \<subseteq> held s"
  shows "data_inv x s'"
  using assms keepsD(3,5) [OF assms(2)] by (auto simp: data_inv_def known_def)

lemma held_simps:
  "held (s\<lparr>s_world := e\<rparr>) = held s" "held (s\<lparr>s_cancelled := b\<rparr>) = held s" "held (s\<lparr>s_batch := ms\<rparr>) = held s"
  "held (s\<lparr>s_sched := b\<rparr>) = held s" "held (s\<lparr>s_panic := b\<rparr>) = held s" "held (s\<lparr>s_phase := p\<rparr>) = held s"
  "held (s\<lparr>s_jobs := js\<rparr>) = held s" "held (s\<lparr>s_alerts := as\<rparr>) = held s" "held (s\<lparr>s_printed := us\<rparr>) = held s"
  "held (s\<lparr>s_alertw := aw\<rparr>) = held s" "held (s\<lparr>s_succw := sw\<rparr>) = held s"
  by (simp_all add: held_def)

context api
begin

lemma service_inv_queue_frame: "service_inv x e \<Longrightarrow> queue_frame x e e' \<Longrightarrow> service_inv x e'"
  using cache_agrees_touches [of "db e" "vw x e" "{scheduleKey, inflightKey}" "vw x e'"]
  by (auto simp: service_inv_def queue_frame_def)

lemma pstep_data_inv:
  assumes inv: "data_inv x s" and step: "pstep x sec validate http c l s s'"
  shows "data_inv x s'"
proof -
  have si: "service_inv x (s_world s)" and ty: "typed x (vw x (s_world s))" and hk: "held s \<subseteq> known (s_world s)"
    using inv by (simp_all add: data_inv_def service_inv_def)
  from step show ?thesis
  proof cases
    case (request q reqid written rt e' resp evs)
    from served_inv [OF si request(3,4)] hk show ?thesis
      by (simp add: request(2) data_inv_def held_simps known_def) blast
  next
    case reclaim
    have "queue_frame x (s_world s) (Reclaimer_doWork x (ct_Reclaimer c) (s_world s))"
      by (rule Reclaimer_queue_frame [OF ty])
    with service_inv_queue_frame [OF si] hk show ?thesis
      by (simp add: reclaim data_inv_def held_simps queue_frame_def known_def)
  next
    case (expire key k')
    have "vw x ((s_world s)\<lparr>kv := k'\<rparr>) = drop_key key (vw x (s_world s))" using expire(4) by (simp add: vw_def)
    then show ?thesis using si hk
      by (simp add: expire(2) data_inv_def held_simps known_def service_inv_def cache_agrees_drop)
  next
    case (tick e0 now e1 r)
    have e0: "queue_frame x (s_world s) e0" using tick(5) ty
      by (intro queue_frame_idle) (auto simp: time_now_def vw_def tick_frame)
    have "queue_frame x e0 e1" using e0 by (intro Fetch_queue_frame [OF _ tick(6)]) (simp add: queue_frame_def)
    with queue_frame_trans [OF e0] have "queue_frame x (s_world s) e1" by blast
    with service_inv_queue_frame [OF si] hk show ?thesis
      by (simp add: tick(2) data_inv_def held_simps queue_frame_def known_def)
  next
    case (full m ms i e0 now raw d)
    have "keeps x {scheduleKey} e0 (fst (Schedule x m (now + d) e0))"
      by (rule keeps_best_effort [OF Schedule_best_effort]) simp
    then have "keeps x {scheduleKey} (s_world s) (fst (Schedule x m (now + d) e0))"
      using keeps_time_now [of x "{scheduleKey}" "s_world s"] full(8) by (auto intro: keeps_trans)
    then show ?thesis using inv by (auto intro: data_inv_keeps simp: full(2) held_simps)
  next
    case (work i j js e' mo)
    note lj = load_job_inv [OF si work(6)]
    let ?w = "case mo of None \<Rightarrow> ETaking | Some m \<Rightarrow> EAcquiring m"
    have "exec_ids ?w \<subseteq> known (s_world s)" using lj by (auto simp: known_def split: option.split)
    then have "held s' \<subseteq> held s \<union> known (s_world s)"
      using Union_update [of exec_ids "s_exec s" i ?w] by (auto simp: work(2) held_def)
    then show ?thesis using lj by (intro data_invI [OF inv]) (auto simp: work(2) known_def)
  next
    case (acquire i m)
    have "EAcquiring m \<in> set (s_exec s)" using acquire(3,4) nth_mem by metis
    then have "mon_ID m \<in> held s" by (force simp: held_def)
    then have "held s' \<subseteq> held s"
      using Union_update [of exec_ids "s_exec s" i ETaking] by (auto simp: acquire(2) held_def)
    then show ?thesis using inv by (intro data_invI [OF inv]) (auto simp: acquire(2) data_inv_def)
  next
    case (exec_exit i)
    have "held s' \<subseteq> held s"
      using Union_update [of exec_ids "s_exec s" i EExited] by (auto simp: exec_exit(2) held_def)
    then show ?thesis using inv by (auto simp: exec_exit(2) data_inv_def)
  next
    case (check ks m ks' e' r)
    note ex = executeHTTPCheck_result [OF check(4)]
    have "held s' = held s" using ex(4) by (auto simp: check(2,3) held_def)
    moreover have "service_inv x e'" using si kv_vw [OF ex(1)] ex(2) by (rule service_inv_same)
    ultimately show ?thesis using hk ex(2) by (simp add: check(2) data_inv_def known_def)
  next
    case (emit ks r ks')
    have "held s' = held s" by (auto simp: emit(2,3) held_def)
    then show ?thesis using inv by (simp add: emit(2) data_inv_def)
  next
    case (success i r rs)
    have "held s' \<subseteq> held s" by (auto simp: success(2,5) held_def)
    then show ?thesis using data_inv_keeps [OF inv, of "result_keys x (hr_MonitorID r)" s'] handleSuccess_keeps
      by (simp add: success(2))
  next
    case (failure i r rs e' b)
    have "held s' \<subseteq> held s" by (auto simp: failure(2,5) held_def)
    moreover have "keeps x (result_keys x (hr_MonitorID r)) (s_world s) (s_world s')"
      using keeps_trans [OF failure_body_keeps failure_deferred_keeps, of r "s_world s" b] failure(6) by (simp add: failure(2))
    ultimately show ?thesis using data_inv_keeps [OF inv] by blast
  next
    case (failure_alert i r rs e' b a)
    have "a = AlertEvent (hr_MonitorID r)" using failure_body_alerts [OF failure_alert(6)] by simp
    then have "held s' \<subseteq> held s"
      using Union_update [of fail_ids "s_failw s" i "FAlerting r b a"] by (auto simp: failure_alert(2,5) held_def)
    moreover have "keeps x (result_keys x (hr_MonitorID r)) (s_world s) (s_world s')"
      using failure_body_keeps [of r "s_world s"] failure_alert(6) by (simp add: failure_alert(2))
    ultimately show ?thesis using data_inv_keeps [OF inv] by blast
  next
    case (alert i r b a)
    have "FAlerting r b a \<in> set (s_failw s)" using alert(3,4) nth_mem by metis
    then have "ae_MonitorID a \<in> held s" by (force simp: held_def)
    then have "held s' \<subseteq> held s"
      using Union_update [of fail_ids "s_failw s" i FTaking] by (auto simp: alert(2) held_def)
    then show ?thesis using data_inv_keeps [OF inv, of "result_keys x (hr_MonitorID r)" s'] failure_deferred_keeps
      by (simp add: alert(2))
  next
    case (failure_exit i)
    have "held s' \<subseteq> held s"
      using Union_update [of fail_ids "s_failw s" i FExited] by (auto simp: failure_exit(2) held_def)
    then show ?thesis using inv by (auto simp: failure_exit(2) data_inv_def)
  qed (use inv in \<open>auto simp: data_inv_def held_simps held_def\<close>)
qed

end

section \<open>The invariant of the goroutines\<close>

text \<open>
  No channel holds more than its capacity, no goroutine is lost, one ends only when its channel
  is closed and empty, a channel is closed only when its senders have ended, and the alerts are
  printed in the order they were sent.
\<close>

definition bounds_inv :: "container \<Rightarrow> 'k pipe \<Rightarrow> bool" where
  "bounds_inv c s \<longleftrightarrow> int (length (s_jobs s)) \<le> max 0 (ct_JobChan c) \<and>
     int (length (s_checks s)) \<le> max 0 (ew_httpSem (ct_Executor c)) \<and>
     int (length (s_results s)) \<le> max 0 (ct_ResultChan c) \<and>
     int (length (s_succ s)) \<le> max 0 (rpr_successChan (ct_ResultPro c)) \<and>
     int (length (s_fail s)) \<le> max 0 (rpr_failureChan (ct_ResultPro c)) \<and>
     int (length (s_alerts s)) \<le> max 0 (ct_AlertChan c) \<and>
     length (s_exec s) = nat (ew_workerCount (ct_Executor c)) \<and>
     length (s_succw s) = nat (rpr_successWorkerCount (ct_ResultPro c)) \<and>
     length (s_failw s) = nat (rpr_failureWorkerCount (ct_ResultPro c)) \<and>
     length (s_alertw s) = nat (as_workerCount (ct_AlertSvc c))"

definition exits_inv :: "'k pipe \<Rightarrow> bool" where
  "exits_inv s \<longleftrightarrow>
     (EExited \<in> set (s_exec s) \<longrightarrow> s_phase s \<noteq> Serving \<and> s_jobs s = []) \<and>
     (s_router s = RExited \<longrightarrow> results_closed s \<and> s_results s = []) \<and>
     (SExited \<in> set (s_succw s) \<longrightarrow> s_router s = RExited \<and> s_succ s = []) \<and>
     (FExited \<in> set (s_failw s) \<longrightarrow> s_router s = RExited \<and> s_fail s = []) \<and>
     (AExited \<in> set (s_alertw s) \<longrightarrow> alerts_closed s \<and> s_alerts s = [])"

definition closes_inv :: "'k pipe \<Rightarrow> bool" where
  "closes_inv s \<longleftrightarrow>
     (results_closed s \<longrightarrow> (\<forall>w \<in> set (s_exec s). w = EExited) \<and> s_checks s = []) \<and>
     (alerts_closed s \<longrightarrow> (\<forall>w \<in> set (s_succw s). w = SExited) \<and> (\<forall>w \<in> set (s_failw s). w = FExited)) \<and>
     (s_phase s = Finished \<longrightarrow> (\<forall>w \<in> set (s_alertw s). w = AExited))"

definition alerts_inv :: "'k pipe \<Rightarrow> bool" where
  "alerts_inv s \<longleftrightarrow> map ae_MonitorID (s_sent s) = s_printed s @ map ae_MonitorID (s_alerts s)"

lemma in_update: "y \<in> set (xs[i := v]) \<Longrightarrow> y = v \<or> y \<in> set xs"
  using set_update_subset_insert [of xs i v] by blast

lemma nth_in: "i < length xs \<Longrightarrow> xs ! i = v \<Longrightarrow> v \<in> set xs"
  by (metis nth_mem)

lemma pstep_bounds_inv:
  "pstep x sec validate http c l s s' \<Longrightarrow> bounds_inv c s \<Longrightarrow> bounds_inv c s'"
  by (induction rule: pstep.induct) (simp_all add: bounds_inv_def)

lemma pstep_alerts_inv:
  "pstep x sec validate http c l s s' \<Longrightarrow> alerts_inv s \<Longrightarrow> alerts_inv s'"
  by (induction rule: pstep.induct) (simp_all add: alerts_inv_def handleAlerts_def)


lemmas phase_defs = results_closed_def alerts_closed_def

lemma pstep_closes_inv:
  assumes "pstep x sec validate http c l s s'" and "exits_inv s" and "closes_inv s"
  shows "closes_inv s'"
  using assms
proof (induction rule: pstep.induct)
  case (work i s j js e' mo)
  then show ?case by (auto simp: closes_inv_def phase_defs dest: nth_in)
next
  case (acquire i s m)
  then show ?case by (auto simp: closes_inv_def phase_defs dest: nth_in)
next
  case (exec_exit i s)
  then show ?case by (auto simp: closes_inv_def phase_defs dest!: in_update)
next
  case (success_exit i s)
  then show ?case by (auto simp: closes_inv_def phase_defs dest!: in_update)
next
  case (failure_exit i s)
  then show ?case by (auto simp: closes_inv_def phase_defs dest!: in_update)
next
  case (failure_alert i s r rs e' b a)
  then show ?case by (auto simp: closes_inv_def phase_defs dest: nth_in)
next
  case (alert i s r b a)
  then show ?case by (auto simp: closes_inv_def phase_defs dest: nth_in)
next
  case (print_exit i s)
  then show ?case by (auto simp: closes_inv_def phase_defs dest!: in_update)
next
  case (shutdown s p)
  then show ?case by (auto simp: closes_inv_def phase_defs dest!: Shutdown_cases)
qed (auto simp: closes_inv_def phase_defs)

lemma pstep_exits_inv:
  assumes "pstep x sec validate http c l s s'" and "exits_inv s" and "closes_inv s"
  shows "exits_inv s'"
  using assms
proof (induction rule: pstep.induct)
  case (work i s j js e' mo)
  then show ?case by (auto simp: exits_inv_def phase_defs dest!: in_update split: option.splits)
next
  case (acquire i s m)
  then show ?case by (auto simp: exits_inv_def phase_defs dest!: in_update)
next
  case (exec_exit i s)
  then show ?case by (auto simp: exits_inv_def phase_defs dest!: in_update)
next
  case (emit s ks r ks')
  then show ?case by (auto simp: exits_inv_def phase_defs)
next
  case (success_exit i s)
  then show ?case by (auto simp: exits_inv_def phase_defs dest!: in_update)
next
  case (failure_exit i s)
  then show ?case by (auto simp: exits_inv_def phase_defs dest!: in_update)
next
  case (failure_alert i s r rs e' b a)
  then show ?case by (auto simp: exits_inv_def phase_defs dest!: in_update)
next
  case (alert i s r b a)
  then show ?case by (auto simp: exits_inv_def phase_defs dest!: in_update)
next
  case (print_exit i s)
  then show ?case by (auto simp: exits_inv_def phase_defs dest!: in_update)
next
  case (shutdown s p)
  then show ?case by (auto simp: exits_inv_def phase_defs dest!: Shutdown_cases)
qed (auto simp: exits_inv_def phase_defs)

definition pipe_inv :: "container \<Rightarrow> 'k pipe \<Rightarrow> bool" where
  "pipe_inv c s \<longleftrightarrow> bounds_inv c s \<and> exits_inv s \<and> closes_inv s \<and> alerts_inv s"

lemma started_inv: "pipe_inv c (started c e)"
  by (simp add: pipe_inv_def bounds_inv_def exits_inv_def closes_inv_def alerts_inv_def phase_defs started_def
      StartWorkers_def StartResultProcessor_def AlertService_Run_def)

lemma pstep_pipe_inv: "pstep x sec validate http c l s s' \<Longrightarrow> pipe_inv c s \<Longrightarrow> pipe_inv c s'"
  using pstep_bounds_inv [of x sec validate http c l s s'] pstep_alerts_inv [of x sec validate http c l s s']
    pstep_closes_inv [of x sec validate http c l s s'] pstep_exits_inv [of x sec validate http c l s s']
  by (simp add: pipe_inv_def)

lemma reach_pipe_inv: "reach x sec validate http c e s \<Longrightarrow> pipe_inv c s"
  by (induction rule: reach.induct) (auto simp: started_inv intro: pstep_pipe_inv)

text \<open>Nothing but the scheduler can panic, and it only when it still has a batch after the shutdown has begun.\<close>

lemma panic_cause:
  assumes "pstep x sec validate http c l s s'" and "closes_inv s" and "\<not> s_panic s" and "s_panic s'"
  shows "s_sched s \<and> s_batch s \<noteq> [] \<and> s_phase s \<noteq> Serving \<and> l = Feed"
  using assms by (induction rule: pstep.induct) (auto simp: closes_inv_def)

lemma held_started: "held (started c e) = {}"
  by (auto simp: held_def started_def StartWorkers_def StartResultProcessor_def)

context api
begin

lemma reach_data_inv:
  "reach x sec validate http c e s \<Longrightarrow> service_inv x e \<Longrightarrow> data_inv x s"
proof (induction rule: reach.induct)
  case start
  then show ?case by (simp add: data_inv_def held_started) (simp add: started_def StartResultProcessor_def)
next
  case (step s l s')
  then show ?case using pstep_data_inv by blast
qed

end

end
