(* ===== verification/Watching.thy ===== *)
theory Watching
  imports Queue_Laws Pipeline_Laws
begin

text \<open>
  What the running system does to its queues. A job leaves the schedule and the in-flight set only
  when a worker handles a result of its monitor; if every call is delivered, only when that result
  is a terminal failure. So every enabled monitor stays queued, from its creation on, until a
  check of it fails terminally.
\<close>

section \<open>What a step takes off the queues\<close>

text \<open>The results that a step from \<open>s\<close> to \<open>s'\<close> finishes: taken by a worker, or held until its alert was sent.\<close>

definition finishing :: "'k pipe \<Rightarrow> 'k pipe \<Rightarrow> hTTPResult set" where
  "finishing s s' = {r. s_succ s = r # s_succ s' \<or> s_fail s = r # s_fail s' \<or>
     (\<exists>b a. FAlerting r b a \<in> set (s_failw s) \<and> s_sent s' = s_sent s @ [a])}"

text \<open>Those among them that end the monitoring: the terminal failures.\<close>

definition terminal_failures :: "'k pipe \<Rightarrow> 'k pipe \<Rightarrow> hTTPResult set" where
  "terminal_failures s s' = {r. s_fail s = r # s_fail s' \<and> verdict_of r = Terminal}"

text \<open>A failure whose alert waits for room will be scheduled again.\<close>

definition alerting_inv :: "'k pipe \<Rightarrow> bool" where
  "alerting_inv s \<longleftrightarrow> (\<forall>r b a. FAlerting r b a \<in> set (s_failw s) \<longrightarrow> b)"

lemma failure_body_alerting: "failure_body x r e = (e', b, [a]) \<Longrightarrow> b"
  by (auto simp: failure_body_def Let_def case_prod_unfold split: if_splits option.splits)

lemma pstep_alerting_inv:
  "pstep x sec validate http c l s s' \<Longrightarrow> alerting_inv s \<Longrightarrow> alerting_inv s'"
proof (induction rule: pstep.induct)
  case (failure_alert i s r rs e' b a)
  then show ?case using failure_body_alerting [OF failure_alert(4)] by (auto simp: alerting_inv_def dest!: in_update)
qed (auto simp: alerting_inv_def dest!: in_update)

lemma reach_alerting_inv: "reach x sec validate http c e s \<Longrightarrow> alerting_inv s"
proof (induction rule: reach.induct)
  case start
  then show ?case by (auto simp: alerting_inv_def started_def StartResultProcessor_def)
next
  case (step s l s')
  then show ?case using pstep_alerting_inv by blast
qed

context monit
begin

lemma load_job_drops:
  assumes inv: "service_inv x e" and run: "load_job x j e = (e', mo)"
  shows "drops x M e e'"
proof -
  obtain e1 l where l: "LoadMonitor x (job_MonitorID j) e = (e1, l)" by (cases "LoadMonitor x (job_MonitorID j) e")
  have "touches {monitorKey (uuid_string x (job_MonitorID j))} (vw x e) (vw x e1)"
    using LoadMonitor_result [OF inv l] by blast
  then have "drops x M e e1" by (rule drops_touches) simp_all
  moreover have "e' = e1 \<or> e' = ScheduleMonitor x (job_MonitorID j) 5 e1"
    using run l by (auto simp: load_job_def split: sum.splits if_splits)
  ultimately show ?thesis using drops_trans [OF _ drops_ScheduleMonitor] by blast
qed

lemma queued_expire:
  assumes "typed x ks" and "ttls ks key \<noteq> None"
  shows "queued (drop_key key ks) = queued ks"
proof -
  have "key \<noteq> scheduleKey" "key \<noteq> inflightKey" using typedD [OF assms(1)] assms(2) by auto
  then show ?thesis by (simp add: queued_def)
qed

end

section \<open>The running system\<close>

text \<open>Every enabled monitor outside \<open>D\<close> is queued.\<close>

definition watched :: "'k services \<Rightarrow> uuid set \<Rightarrow> 'k world \<Rightarrow> bool" where
  "watched x D e \<longleftrightarrow> (\<forall>row \<in> set (monitors (db e)). m_Enabled row \<longrightarrow> m_ID row \<in> D \<or>
     uuid_string x (m_ID row) \<in> queued (vw x e))"

lemma watched_admits: "watched x D e \<Longrightarrow> admits x e e' \<Longrightarrow> reliable e \<Longrightarrow> watched x D e'"
  by (fastforce simp: watched_def admits_def drops_def)

lemma admits_same_world: "s_world s' = s_world s \<Longrightarrow> admits x (s_world s) (s_world s')"
  by (simp add: admits_same)

text \<open>A run with the monitors whose terminal failures have been handled.\<close>

inductive reach_ended :: "'k services \<Rightarrow> security_libs \<Rightarrow> (tag \<Rightarrow> field \<Rightarrow> bool) \<Rightarrow>
    (string \<Rightarrow> nat \<Rightarrow> exchange) \<Rightarrow> container \<Rightarrow> 'k world \<Rightarrow> uuid set \<Rightarrow> 'k pipe \<Rightarrow> bool"
  for x sec validate http c e where
  start: "reach_ended x sec validate http c e {} (started c e)"
| step: "reach_ended x sec validate http c e D s \<Longrightarrow> \<not> s_panic s \<Longrightarrow> pstep x sec validate http c l s s' \<Longrightarrow>
      reach_ended x sec validate http c e (D \<union> hr_MonitorID ` terminal_failures s s') s'"

lemma reach_ended_reach: "reach_ended x sec validate http c e D s \<Longrightarrow> reach x sec validate http c e s"
  by (induction rule: reach_ended.induct) (auto intro: reach.intros)

lemma reach_has_ended: "reach x sec validate http c e s \<Longrightarrow> \<exists>D. reach_ended x sec validate http c e D s"
  by (induction rule: reach.induct) (blast intro: reach_ended.intros)+

context api
begin

text \<open>A step that handles no result takes nothing off the queues.\<close>

lemma pstep_queues:
  assumes inv: "data_inv x s" and step: "pstep x sec validate http c l s s'"
  shows "admits x (s_world s) (s_world s') \<or>
    (\<exists>r \<in> finishing s s'. drops x {uuid_string x (hr_MonitorID r)} (s_world s) (s_world s') \<and>
       monitors (db (s_world s')) = monitors (db (s_world s)) \<and>
       (reliable (s_world s) \<longrightarrow> alerting_inv s \<longrightarrow> r \<notin> terminal_failures s s' \<longrightarrow>
         waiting x (uuid_string x (hr_MonitorID r)) (s_world s')))"
proof -
  have si: "service_inv x (s_world s)" and ty: "typed x (vw x (s_world s))"
    using inv by (simp_all add: data_inv_def service_inv_def)
  from step show ?thesis
  proof cases
    case (request q reqid written rt e' resp evs)
    from served_admits [OF si request(3,4)] show ?thesis by (simp add: request(2))
  next
    case reclaim
    have q: "queue_frame x (s_world s) (Reclaimer_doWork x (ct_Reclaimer c) (s_world s))"
      by (rule Reclaimer_queue_frame [OF ty])
    show ?thesis using drops_queue_frame [OF q, of "{}"] q by (simp add: reclaim admits_drops queue_frame_def)
  next
    case (expire key k')
    have "vw x ((s_world s)\<lparr>kv := k'\<rparr>) = drop_key key (vw x (s_world s))" using expire(4) by (simp add: vw_def)
    then have "drops x {} (s_world s) ((s_world s)\<lparr>kv := k'\<rparr>)"
      using queued_expire [OF ty expire(3)] by (simp add: drops_def)
    then show ?thesis by (simp add: expire(2) admits_drops)
  next
    case (tick e0 now e1 r)
    have e0: "vw x e0 = vw x (s_world s)" "db e0 = db (s_world s)" using tick(5) by (auto simp: time_now_def vw_def tick_frame)
    have q: "queue_frame x e0 e1" using ty e0 by (intro Fetch_queue_frame [OF _ tick(6)]) simp
    have "drops x {} (s_world s) e1" by (rule drops_trans [OF drops_same [OF e0(1)] drops_queue_frame [OF q]])
    then show ?thesis using q e0(2) by (simp add: tick(2) admits_drops queue_frame_def)
  next
    case (full m ms i e0 now raw d)
    have e0: "vw x e0 = vw x (s_world s)" "db e0 = db (s_world s)" using full(8) by (auto simp: time_now_def vw_def tick_frame)
    have "drops x {} (s_world s) (fst (Schedule x m (now + d) e0))"
      by (rule drops_trans [OF drops_same [OF e0(1)] drops_Schedule])
    then show ?thesis using e0(2) best_effortD(4) [OF Schedule_best_effort [of m "now + d" e0]]
      by (simp add: full(2) admits_drops)
  next
    case (work i j js e' mo)
    then show ?thesis using load_job_drops [OF si work(6), of "{}"] load_job_inv [OF si work(6)]
      by (simp add: work(2) admits_drops)
  next
    case (check ks m ks' e' r)
    from executeHTTPCheck_result(1,2) [OF check(4)] show ?thesis by (simp add: check(2) admits_frame)
  next
    case (success i r rs)
    have "r \<in> finishing s s'" using success(2,5) by (simp add: finishing_def)
    then show ?thesis
      using handleSuccess_drops [of r "s_world s"] handleSuccess_waiting [OF _ si, of r] keepsD(5) [OF handleSuccess_keeps, of r "s_world s"]
      by (intro disjI2 bexI [of _ r]) (simp_all add: success(2))
  next
    case (failure i r rs e' b)
    have f: "r \<in> finishing s s'" using failure(2,5) by (simp add: finishing_def)
    have d: "drops x {uuid_string x (hr_MonitorID r)} (s_world s) (failure_deferred x r b e')"
      by (rule drops_trans [OF failure_body_drops [OF failure(6)] drops_failure_deferred])
    have m: "monitors (db (failure_deferred x r b e')) = monitors (db (s_world s))"
      using keepsD(5) [OF failure_body_keeps, of r "s_world s"] keepsD(5) [OF failure_deferred_keeps, of r b e'] failure(6) by simp
    have w: "waiting x (uuid_string x (hr_MonitorID r)) (failure_deferred x r b e')"
      if "reliable (s_world s)" "r \<notin> terminal_failures s s'"
      using that failure_handled_waiting [OF that(1) si failure(6)] failure(2,5) by (auto simp: terminal_failures_def)
    show ?thesis using f d m w by (intro disjI2 bexI [of _ r]) (simp_all add: failure(2))
  next
    case (failure_alert i r rs e' b a)
    then show ?thesis using failure_body_drops [OF failure_alert(6), of "{}"] keepsD(5) [OF failure_body_keeps, of r "s_world s"]
      by (simp add: failure_alert(2) admits_drops)
  next
    case (alert i r b a)
    have mem: "FAlerting r b a \<in> set (s_failw s)" using alert(3,4) nth_mem by metis
    then have f: "r \<in> finishing s s'" using alert(2) by (auto simp: finishing_def)
    have w: "waiting x (uuid_string x (hr_MonitorID r)) (failure_deferred x r b (s_world s))"
      if "reliable (s_world s)" "alerting_inv s"
    proof -
      have b using mem that(2) unfolding alerting_inv_def by blast
      with failure_deferred_waiting [OF that(1) ty] show ?thesis by simp
    qed
    show ?thesis using f w drops_failure_deferred [of r "s_world s" b] keepsD(5) [OF failure_deferred_keeps, of r b "s_world s"]
      by (intro disjI2 bexI [of _ r]) (simp_all add: alert(2))
  qed (auto intro: admits_same_world)
qed

lemma step_keeps_job:
  assumes inv: "data_inv x s" and al: "alerting_inv s" and step: "pstep x sec validate http c l s s'"
    and m: "m \<in> queued (vw x (s_world s))" "m \<notin> queued (vw x (s_world s'))"
  shows "\<exists>r \<in> finishing s s'. uuid_string x (hr_MonitorID r) = m \<and>
    (reliable (s_world s) \<longrightarrow> r \<in> terminal_failures s s')"
proof -
  have "\<not> admits x (s_world s) (s_world s')" using m by (auto simp: admits_def drops_def)
  then obtain r where r: "r \<in> finishing s s'" "drops x {uuid_string x (hr_MonitorID r)} (s_world s) (s_world s')"
    "reliable (s_world s) \<Longrightarrow> r \<notin> terminal_failures s s' \<Longrightarrow> waiting x (uuid_string x (hr_MonitorID r)) (s_world s')"
    using pstep_queues [OF inv step] al by blast
  have e: "uuid_string x (hr_MonitorID r) = m" using r(2) m by (auto simp: drops_def)
  moreover have "r \<in> terminal_failures s s'" if "reliable (s_world s)"
    using r(3) [OF that] waiting_queued [of x m "s_world s'"] e m(2) by auto
  ultimately show ?thesis using r(1) by blast
qed

lemma pstep_watched:
  assumes inv: "data_inv x s" and al: "alerting_inv s" and rel: "reliable (s_world s)"
    and step: "pstep x sec validate http c l s s'" and w: "watched x D (s_world s)"
  shows "watched x (D \<union> hr_MonitorID ` terminal_failures s s') (s_world s')"
proof (cases "admits x (s_world s) (s_world s')")
  case True
  from watched_admits [OF w this rel] show ?thesis by (auto simp: watched_def)
next
  case False
  with pstep_queues [OF inv step] have m: "monitors (db (s_world s')) = monitors (db (s_world s))" by blast
  show ?thesis unfolding watched_def
  proof (intro ballI impI)
    fix row assume row: "row \<in> set (monitors (db (s_world s')))" "m_Enabled row"
    show "m_ID row \<in> D \<union> hr_MonitorID ` terminal_failures s s' \<or> uuid_string x (m_ID row) \<in> queued (vw x (s_world s'))"
    proof (cases "uuid_string x (m_ID row) \<in> queued (vw x (s_world s)) - queued (vw x (s_world s'))")
      case True
      then obtain r where r: "uuid_string x (hr_MonitorID r) = uuid_string x (m_ID row)" "r \<in> terminal_failures s s'"
        using step_keeps_job [OF inv al step] rel by blast
      from r(1) have "m_ID row = hr_MonitorID r" by (simp add: uu.string_inj)
      with r(2) show ?thesis by simp
    next
      case False
      with w row m show ?thesis by (auto simp: watched_def)
    qed
  qed
qed

lemma pstep_later:
  assumes inv: "data_inv x s" and step: "pstep x sec validate http c l s s'"
  shows "later (s_world s) (s_world s')"
proof -
  have si: "service_inv x (s_world s)" and ty: "typed x (vw x (s_world s))"
    using inv by (simp_all add: data_inv_def service_inv_def)
  from step show ?thesis
  proof cases
    case (request q reqid written rt e' resp evs)
    from served_inv [OF si request(3,4)] show ?thesis by (simp add: request(2))
  next
    case reclaim
    from Reclaimer_queue_frame [OF ty] show ?thesis by (simp add: reclaim queue_frame_def)
  next
    case (expire key k')
    then show ?thesis by (simp add: later_def)
  next
    case (tick e0 now e1 r)
    have e0: "vw x e0 = vw x (s_world s)" "later (s_world s) e0" using tick(5) by (auto simp: time_now_def vw_def tick_frame)
    have "queue_frame x e0 e1" using ty e0 by (intro Fetch_queue_frame [OF _ tick(6)]) simp
    with e0(2) show ?thesis by (auto simp: tick(2) queue_frame_def intro: later_trans)
  next
    case (full m ms i e0 now raw d)
    have "later (s_world s) e0" using full(8) by (auto simp: time_now_def tick_frame)
    from later_trans [OF this best_effortD(3) [OF Schedule_best_effort]] show ?thesis by (simp add: full(2))
  next
    case (work i j js e' mo)
    from load_job_inv [OF si work(6)] show ?thesis by (simp add: work(2))
  next
    case (check ks m ks' e' r)
    from executeHTTPCheck_result(3) [OF check(4)] show ?thesis by (simp add: check(2))
  next
    case (success i r rs)
    from keepsD(2) [OF handleSuccess_keeps] show ?thesis by (simp add: success(2))
  next
    case (failure i r rs e' b)
    have "later (s_world s) e'" using keepsD(2) [OF failure_body_keeps, of "s_world s" r] failure(6) by simp
    from later_trans [OF this keepsD(2) [OF failure_deferred_keeps]] show ?thesis by (simp add: failure(2))
  next
    case (failure_alert i r rs e' b a)
    from keepsD(2) [OF failure_body_keeps, of "s_world s" r] failure_alert(6) show ?thesis by (simp add: failure_alert(2))
  next
    case (alert i r b a)
    from keepsD(2) [OF failure_deferred_keeps] show ?thesis by (simp add: alert(2))
  qed (auto intro: later_refl)
qed

lemma reach_later:
  "reach x sec validate http c e s \<Longrightarrow> service_inv x e \<Longrightarrow> later e (s_world s)"
proof (induction rule: reach.induct)
  case start
  then show ?case by (simp add: started_def StartResultProcessor_def)
next
  case (step s l s')
  then show ?case using pstep_later [OF reach_data_inv [OF step(1,5)] step(3)] by (auto intro: later_trans)
qed

lemma reach_watched:
  assumes "reach_ended x sec validate http c e D s" and inv: "service_inv x e" and rel: "reliable e"
    and w: "watched x {} e"
  shows "watched x D (s_world s)"
  using assms(1)
proof (induction rule: reach_ended.induct)
  case start
  then show ?case using w by (simp add: started_def StartResultProcessor_def)
next
  case (step D s l s')
  note r = reach_ended_reach [OF step(1)]
  have "reliable (s_world s)" using reliable_later [OF rel reach_later [OF r inv]] .
  then show ?case using pstep_watched [OF reach_data_inv [OF r inv] reach_alerting_inv [OF r] _ step(3) step(4)] by blast
qed

end

end
