(* ===== verification/Scheduler_Versions.thy ===== *)
theory Scheduler_Versions
  imports Scheduler_Laws
begin

text \<open>
  The two versions of the scheduler's tick that \<^verbatim>\<open>scheduler.go\<close> keeps side by side:
  \<^verbatim>\<open>doWork\<close> and \<^verbatim>\<open>doWorkWithReliability\<close> run in step, in every environment. \<open>alike\<close> relates
  their environments: the same but for the jobs in flight.
\<close>

definition alike :: "'k services \<Rightarrow> ('k, 'd) env \<Rightarrow> ('k, 'd) env \<Rightarrow> bool" where
  "alike x e e' \<longleftrightarrow> e' = e\<lparr>kv := kv e'\<rparr> \<and> touches {inflightKey} (vw x e) (vw x e') \<and> is_zset (vw x e) scheduleKey"

lemma alikeE:
  assumes "alike x e e'"
  obtains k where "e' = e\<lparr>kv := k\<rparr>" "touches {inflightKey} (vw x e) (view (rds x) k)" "is_zset (vw x e) scheduleKey"
  using assms by (auto simp: alike_def vw_def)

lemma alikeI:
  "touches {inflightKey} (vw x e) (view (rds x) k) \<Longrightarrow> is_zset (vw x e) scheduleKey \<Longrightarrow> alike x e (e\<lparr>kv := k\<rparr>)"
  by (simp add: alike_def vw_def)

lemma alike_tick: "alike x e e' \<Longrightarrow> alike x (tick e) (tick e')"
  by (auto simp: tick_def vw_def elim!: alikeE intro!: alike_def [THEN iffD2])

lemma alike_same:
  "alike x e e' \<Longrightarrow> ticks e' = ticks e \<and> clock e' = clock e \<and> net e' = net e \<and> ctx_done e' = ctx_done e"
  by (auto elim!: alikeE)

lemma alike_wait:
  "alike x e e' \<Longrightarrow> \<exists>e1 e1' r. done_or_after d e = (e1, r) \<and> done_or_after d e' = (e1', r) \<and> alike x e1 e1'"
  by (auto simp: done_or_after_def tick_def vw_def elim!: alikeE intro!: alike_def [THEN iffD2] split: option.split)

lemma alike_retry_loop:
  assumes fn: "\<And>v e e'. alike x e e' \<Longrightarrow>
      \<exists>e1 e1' v1 r. fn v e = (e1, v1, r) \<and> fn v e' = (e1', v1, r) \<and> alike x e1 e1'"
    and "alike x e e'"
  shows "\<exists>e1 e1' v1 r. retry_loop i n fn v err e = (e1, v1, r) \<and> retry_loop i n fn v err e' = (e1', v1, r) \<and> alike x e1 e1'"
  using assms(2)
proof (induction "n - i" arbitrary: i v err e e')
  case 0
  then show ?case by (simp add: retry_loop.simps [of i])
next
  case (Suc m)
  then have i: "i < n" "m = n - Suc i" by simp_all
  from fn [OF Suc.prems] obtain e1 e1' v1 r where
    f: "fn v e = (e1, v1, r)" "fn v e' = (e1', v1, r)" "alike x e1 e1'" by blast
  from alike_wait [OF f(3)] obtain e2 e2' c where
    d: "done_or_after (50 * (int i + 1) * Millisecond) e1 = (e2, c)"
       "done_or_after (50 * (int i + 1) * Millisecond) e1' = (e2', c)" "alike x e2 e2'" by blast
  from Suc.hyps(1) [OF i(2) d(3)] show ?case
    using f d i by (cases r; cases c) (simp_all add: retry_loop.simps [of i])
qed

lemma touches_removed_moved:
  assumes "from \<noteq> to" and "touches {to} ks ks'"
  shows "touches {to} (removed from items ks) (moved from to sc items ks')"
  using assms(2)
proof (induction items arbitrary: ks ks')
  case (Cons m items)
  have "zset ks' from = zset ks from" using touches_views(2) [OF Cons.prems] assms(1) by simp
  with Cons.prems assms(1) have "touches {to} (put_zset from ((zset ks from)(m := None)) ks)
      (put_zset to z (put_zset from ((zset ks' from)(m := None)) ks'))" for z
    by (auto simp: touches_def keyspace_upds)
  from Cons.IH [OF this] show ?case by (simp add: Let_def)
qed simp

context monit
begin

lemma Schedule_alike:
  fixes e e' :: "('k, 'd) env"
  assumes "alike x e e'"
  shows "alike x (fst (Schedule x m t e)) (fst (Schedule x m t e'))"
proof -
  let ?cmd = "ZADD (rds x) scheduleKey [(UnixMilli t, m)]"
  have cmd: "\<exists>e1 e1' v1 r. once ?cmd v e = (e1, v1, r) \<and> once ?cmd v e' = (e1', v1, r) \<and> alike x e1 e1'"
    if "alike x e e'" for v and e e' :: "('k, 'd) env"
  proof -
    from that obtain k where k: "e' = e\<lparr>kv := k\<rparr>" "touches {inflightKey} (vw x e) (view (rds x) k)"
      "is_zset (vw x e) scheduleKey" by (rule alikeE)
    have z: "is_zset (view (rds x) k) scheduleKey" using touches_views(5) [OF k(2), of scheduleKey] k(3) by simp
    obtain s1 n1 where s1: "?cmd (kv e) = (s1, Inr n1)"
      and v1: "view (rds x) s1 = put_zset scheduleKey ((zset (vw x e) scheduleKey)(m \<mapsto> UnixMilli t)) (vw x e)"
      using meets_up [OF srv.ZADD_meets [of scheduleKey "[(UnixMilli t, m)]"], of "kv e"] k(3) by (auto simp: vw_def)
    obtain s2 n2 where s2: "?cmd k = (s2, Inr n2)"
      and v2: "view (rds x) s2 = put_zset scheduleKey ((zset (view (rds x) k) scheduleKey)(m \<mapsto> UnixMilli t)) (view (rds x) k)"
      using meets_up [OF srv.ZADD_meets [of scheduleKey "[(UnixMilli t, m)]"], of k] z by auto
    have sim: "touches {inflightKey} (view (rds x) s1) (view (rds x) s2)"
      using k(2) touches_views(2) [OF k(2), of scheduleKey] by (auto simp: v1 v2 touches_def keyspace_upds)
    have zz: "is_zset (view (rds x) s1) scheduleKey" by (simp add: v1)
    show ?thesis using k sim zz
      by (cases "net e (ticks e)") (auto simp: once_def rcall_def s1 s2 tick_def vw_def alike_def)
  qed
  from alike_retry_loop [where fn = "once ?cmd" and i = 0 and n = 3 and v = "()" and err = None, OF cmd assms]
  show ?thesis by (auto simp: Schedule_def retry_def)
qed

lemma dispatch_alike:
  assumes "alike x e e'" and "dispatch x orc ms ch e = (e1, ch1, sent, en)"
  shows "\<exists>e1'. dispatch x orc ms ch e' = (e1', ch1, sent, en) \<and> alike x e1 e1'"
  using assms
proof (induction ms arbitrary: ch e e' sent)
  case (Cons m ms)
  note same = alike_same [OF Cons.prems(1)] and tk = alike_tick [OF Cons.prems(1)]
  show ?case
  proof (cases "uuid_parse x m")
    case (Some i)
    obtain ch2 sel where s: "select_send orc (JobPayload i) ch e = (tick e, ch2, sel)"
      using select_send_result(1) by (metis prod_cases3)
    then have s': "select_send orc (JobPayload i) ch e' = (tick e', ch2, sel)"
      using same by (auto simp: select_send_def Let_def split: if_splits)
    show ?thesis
    proof (cases sel)
      case Sent
      then show ?thesis using Cons.IH [OF tk] Cons.prems(2) s s' Some by (fastforce split: prod.splits)
    next
      case ChanFull
      obtain d where d: "addJitter (raw_rand orc (Suc (ticks e))) (2 * Second) = Some d" using addJitter_2s by blast
      show ?thesis
        using Cons.IH [OF Schedule_alike [OF alike_tick [OF tk]]] Cons.prems(2) s s' Some ChanFull same d
        by (simp add: time_now_def Let_def)
    qed (use Cons.prems(2) s s' Some tk in auto)
  qed (use Cons in auto)
qed simp

lemma fetch_alike:
  assumes "typed x (vw x e)"
  shows "\<exists>e1 e2 r items. FetchDueMonitors x now lim e = (e1, r) \<and> FetchAndMoveToInflight x now lim vt e = (e2, r) \<and>
    alike x e1 e2 \<and> vw x e1 = removed scheduleKey items (vw x e)"
proof -
  have z: "is_zset (view (rds x) (kv e)) scheduleKey" "is_zset (view (rds x) (kv e)) inflightKey"
    using typedD(1,2) [OF assms] by (simp_all add: vw_def)
  obtain s1 items where zr: "ZRANGEBYSCORE (rds x) scheduleKey (UnixMilli now) lim (kv e) = (s1, Inr items)"
    and v: "view (rds x) s1 = view (rds x) (kv e)" using srv.zrange_typed [OF z(1)] by metis
  obtain s2 where rm: "remove_each (rds x) scheduleKey items s1 = (s2, Inr ())"
    and v2: "view (rds x) s2 = removed scheduleKey items (view (rds x) (kv e))"
    using srv.remove_each_removed [of s1 scheduleKey items] z v by auto
  obtain s3 where mv: "move_each (rds x) scheduleKey inflightKey (UnixMilli now + Milliseconds vt) items s1 = (s3, Inr ())"
    and v3: "view (rds x) s3 = moved scheduleKey inflightKey (UnixMilli now + Milliseconds vt) items (view (rds x) (kv e))"
    using srv.move_each_moved [of s1 scheduleKey inflightKey "UnixMilli now + Milliseconds vt" items] z v by auto
  have t: "touches {inflightKey} (view (rds x) s2) (view (rds x) s3)"
    unfolding v2 v3 by (rule touches_removed_moved) simp_all
  have zz: "is_zset (view (rds x) s2) scheduleKey" using is_zset_removed z(1) by (simp add: v2)
  note defs = FetchDueMonitors_def FetchAndMoveToInflight_def rcall_def fetchDueMonitorsScript_def
    fetchAndMoveToInflightScript_def zr rm mv tick_def vw_def
  show ?thesis
  proof (cases "net e (ticks e)")
    case Delivered
    then show ?thesis using t zz v2 by (auto simp: defs alike_def)
  next
    case (NotSent err)
    then show ?thesis using z by (auto simp: defs alike_def intro: exI [of _ "[]"])
  next
    case (ReplyLost err)
    then show ?thesis using t zz v2 by (auto simp: defs alike_def)
  qed
qed

lemma doWork_versions:
  assumes ty: "typed x (vw x e)" and plain: "Scheduler_doWork x orc sc ch e = (e1, ch1, sent1, en1)"
    and run: "doWorkWithReliability x orc sc ch e = (e2, ch2, sent2, en2)"
  shows "(ch1, sent1, en1) = (ch2, sent2, en2) \<and> alike x e1 e2 \<and> zset (vw x e1) inflightKey = zset (vw x e) inflightKey"
proof -
  let ?e0 = "tick e" and ?now = "clock e (ticks e)"
  have v0: "vw x ?e0 = vw x e" by (simp add: vw_def)
  obtain a b r items where f: "FetchDueMonitors x ?now (sc_batchSize sc) ?e0 = (a, r)"
      "FetchAndMoveToInflight x ?now (sc_batchSize sc) (sc_visibilityTimeout sc) ?e0 = (b, r)"
    and al: "alike x a b" and va: "vw x a = removed scheduleKey items (vw x e)"
    using fetch_alike [of ?e0] ty v0 by metis
  have za: "zset (vw x a) inflightKey = zset (vw x e) inflightKey" by (simp add: va zset_removed)
  consider "r = Inr []" | err where "r = Inl err" | ms where "r = Inr ms" "ms \<noteq> []" by (cases r) auto
  then show ?thesis
  proof cases
    case (3 ms)
    have d: "dispatch x orc ms ch a = (e1, ch1, sent1, en1)" "dispatch x orc ms ch b = (e2, ch2, sent2, en2)"
      using plain run f 3 by (simp_all add: Scheduler_doWork_def doWorkWithReliability_def time_now_def)
    have "zset (vw x e1) inflightKey = zset (vw x a) inflightKey"
      using dispatch_frame [OF d(1)] by (auto simp: sched_frame_def resched_def touches_views)
    then show ?thesis using dispatch_alike [OF al d(1)] d(2) za by simp
  qed (use plain run f al za in \<open>simp_all add: Scheduler_doWork_def doWorkWithReliability_def time_now_def\<close>)
qed

end

end
