(* ===== verification/Drain.thy ===== *)
theory Drain
  imports Pipeline_Laws
begin

text \<open>
  The shutdown of the running system: what is left to do decreases with every step of the
  pipeline, a state without such a step is drained, and so the shutdown comes to its end.
\<close>

section \<open>The shutdown\<close>

text \<open>How many steps the items and goroutines of the pipeline can still take.\<close>

definition weigh :: "('a \<Rightarrow> nat) \<Rightarrow> 'a list \<Rightarrow> nat" where
  "weigh f xs = sum_list (map f xs)"

lemma weigh_simps [simp]: "weigh f [] = 0" "weigh f (x # xs) = f x + weigh f xs" "weigh f (xs @ ys) = weigh f xs + weigh f ys"
  by (simp_all add: weigh_def)

lemma weigh_update: "i < length xs \<Longrightarrow> xs ! i = v \<Longrightarrow> weigh f (xs[i := w]) + f v = weigh f xs + f w"
proof (induction xs arbitrary: i)
  case (Cons y ys)
  then show ?case by (cases i) (auto simp: add.commute add.left_commute)
qed simp

primrec exec_weight :: "exec_state \<Rightarrow> nat" where
  "exec_weight ETaking = 1" | "exec_weight (EAcquiring m) = 9" | "exec_weight EExited = 0"

primrec check_weight :: "check_state \<Rightarrow> nat" where
  "check_weight (Checking m) = 7" | "check_weight (Sending r) = 6"

primrec router_weight :: "router_state \<Rightarrow> nat" where
  "router_weight RTaking = 1" | "router_weight (RSending r) = 5" | "router_weight RExited = 0"

primrec succ_weight :: "succ_state \<Rightarrow> nat" where
  "succ_weight STaking = 1" | "succ_weight SExited = 0"

primrec fail_weight :: "fail_state \<Rightarrow> nat" where
  "fail_weight FTaking = 1" | "fail_weight (FAlerting r b a) = 3" | "fail_weight FExited = 0"

primrec alert_weight :: "alert_state \<Rightarrow> nat" where
  "alert_weight ATaking = 1" | "alert_weight AExited = 0"

primrec phase_weight :: "phase \<Rightarrow> nat" where
  "phase_weight Serving = 4" | "phase_weight JobsClosed = 3" | "phase_weight ResultsClosed = 2"
| "phase_weight AlertsClosed = 1" | "phase_weight Finished = 0"

definition pending :: "'k pipe \<Rightarrow> nat" where
  "pending s = 9 * length (s_jobs s) + weigh exec_weight (s_exec s) + weigh check_weight (s_checks s) +
     5 * length (s_results s) + router_weight (s_router s) + 3 * length (s_succ s) + 3 * length (s_fail s) +
     weigh succ_weight (s_succw s) + weigh fail_weight (s_failw s) + length (s_alerts s) +
     weigh alert_weight (s_alertw s) + phase_weight (s_phase s)"

lemma drain_decreases:
  assumes "pstep x sec validate http c l s s'" and "closes_inv s" and "l = Drain"
  shows "pending s' < pending s"
  using assms
proof (induction rule: pstep.induct)
  case (work i s j js e' mo)
  then show ?case
    using weigh_update [of i "s_exec s" ETaking exec_weight "case mo of None \<Rightarrow> ETaking | Some m \<Rightarrow> EAcquiring m"]
    by (auto simp: pending_def split: option.splits)
next
  case (acquire i s m)
  then show ?case using weigh_update [of i "s_exec s" "EAcquiring m" exec_weight ETaking] by (simp add: pending_def)
next
  case (exec_exit i s)
  then show ?case using weigh_update [of i "s_exec s" ETaking exec_weight EExited] by (simp add: pending_def)
next
  case (success_exit i s)
  then show ?case using weigh_update [of i "s_succw s" STaking succ_weight SExited] by (simp add: pending_def)
next
  case (failure_alert i s r rs e' b a)
  then show ?case using weigh_update [of i "s_failw s" FTaking fail_weight "FAlerting r b a"] by (simp add: pending_def)
next
  case (alert i s r b a)
  then show ?case using weigh_update [of i "s_failw s" "FAlerting r b a" fail_weight FTaking] by (simp add: pending_def)
next
  case (failure_exit i s)
  then show ?case using weigh_update [of i "s_failw s" FTaking fail_weight FExited] by (simp add: pending_def)
next
  case (print_exit i s)
  then show ?case using weigh_update [of i "s_alertw s" ATaking alert_weight AExited] by (simp add: pending_def)
next
  case (shutdown s p)
  then show ?case by (auto simp: pending_def dest!: Shutdown_cases)
qed (auto simp: pending_def closes_inv_def)

lemma feed_keeps:
  assumes "pstep x sec validate http c l s s'" and "l = Feed" and "s_phase s \<noteq> Serving"
  shows "pending s' = pending s \<and> s_phase s' = s_phase s"
  using assms by (induction rule: pstep.induct) (simp_all add: pending_def)

lemma drain_phase:
  assumes "pstep x sec validate http c l s s'" and "s_phase s \<noteq> Serving"
  shows "s_phase s' \<noteq> Serving"
  using assms by (induction rule: pstep.induct) (auto dest: Shutdown_cases)

text \<open>A state after the signal in which the pipeline and the shutdown have no step left.\<close>

definition halted :: "'k services \<Rightarrow> security_libs \<Rightarrow> (tag \<Rightarrow> field \<Rightarrow> bool) \<Rightarrow>
    (string \<Rightarrow> nat \<Rightarrow> exchange) \<Rightarrow> container \<Rightarrow> 'k pipe \<Rightarrow> bool" where
  "halted x sec validate http c s \<longleftrightarrow> pipe_inv c s \<and> sound_container c \<and> s_phase s \<noteq> Serving \<and>
     (\<forall>s'. \<not> pstep x sec validate http c Drain s s')"

lemma idle_worker:
  assumes "length ws = nat n" and "0 < n" and "\<And>i. i < length ws \<Longrightarrow> ws ! i \<noteq> t" and "set ws \<subseteq> {t, z}"
  shows "z \<in> set ws"
  using assms by (cases ws) (force simp: in_set_conv_nth)+

lemma no_worker:
  assumes "\<And>i. i < length ws \<Longrightarrow> ws ! i \<noteq> t" and "set ws \<subseteq> {t, z}"
  shows "set ws \<subseteq> {z}"
  using assms by (force simp: in_set_conv_nth)

lemma halted_alerts:
  assumes h: "halted x sec validate http c s"
  shows "s_alerts s = []" and "FAlerting r b a \<notin> set (s_failw s)"
proof -
  have inv: "bounds_inv c s" "exits_inv s" "sound_container c" and no: "\<And>s'. \<not> pstep x sec validate http c Drain s s'"
    using h by (simp_all add: halted_def pipe_inv_def)
  show none: "s_alerts s = []"
  proof (rule ccontr)
    assume "s_alerts s \<noteq> []"
    then obtain a as where as: "s_alerts s = a # as" by (cases "s_alerts s") auto
    have "AExited \<in> set (s_alertw s)"
      using inv no print [of _ s a as x sec validate http c] as
      by (intro idle_worker [where t = ATaking and n = "as_workerCount (ct_AlertSvc c)"])
        (auto simp: bounds_inv_def sound_container_def intro: alert_state.exhaust)
    then show False using inv(2) as by (simp add: exits_inv_def)
  qed
  show "FAlerting r b a \<notin> set (s_failw s)"
  proof
    assume "FAlerting r b a \<in> set (s_failw s)"
    then obtain i where "i < length (s_failw s)" "s_failw s ! i = FAlerting r b a" by (auto simp: in_set_conv_nth)
    then show False
      using no alert [of i s r b a c x sec validate http] alert_closed [of r b a s x sec validate http c] none inv(3)
        nth_in [of i "s_failw s"]
      by (cases "alerts_closed s") (auto simp: sound_container_def)
  qed
qed

lemma halted_fail_idle:
  assumes h: "halted x sec validate http c s"
  shows "set (s_failw s) \<subseteq> {FTaking, FExited}"
  using halted_alerts(2) [OF h] fail_state.exhaust by blast

lemma halted_fail:
  assumes h: "halted x sec validate http c s"
  shows "s_fail s = []"
proof (rule ccontr)
  have inv: "bounds_inv c s" "exits_inv s" "sound_container c" and no: "\<And>s'. \<not> pstep x sec validate http c Drain s s'"
    using h by (simp_all add: halted_def pipe_inv_def)
  assume "s_fail s \<noteq> []"
  then obtain r rs where rs: "s_fail s = r # rs" by (cases "s_fail s") auto
  obtain e' b as where body: "failure_body x r (s_world s) = (e', b, as)" by (metis prod_cases3)
  have busy: "s_failw s ! i \<noteq> FTaking" if "i < length (s_failw s)" for i
    using failure_body_alerts [OF body] body no rs that failure [of i s r rs x e' b sec validate http c]
      failure_alert [of i s r rs x e' b "AlertEvent (hr_MonitorID r)" sec validate http c] by auto
  have "FExited \<in> set (s_failw s)"
    using inv busy halted_fail_idle [OF h]
    by (intro idle_worker [where t = FTaking and n = "rpr_failureWorkerCount (ct_ResultPro c)"])
      (auto simp: bounds_inv_def sound_container_def)
  then show False using inv(2) rs by (simp add: exits_inv_def)
qed

lemma halted_succ:
  assumes h: "halted x sec validate http c s"
  shows "s_succ s = []"
proof (rule ccontr)
  have inv: "bounds_inv c s" "exits_inv s" "sound_container c" and no: "\<And>s'. \<not> pstep x sec validate http c Drain s s'"
    using h by (simp_all add: halted_def pipe_inv_def)
  assume "s_succ s \<noteq> []"
  then obtain r rs where rs: "s_succ s = r # rs" by (cases "s_succ s") auto
  have "SExited \<in> set (s_succw s)"
    using inv no success [of _ s r rs x sec validate http c] rs
    by (intro idle_worker [where t = STaking and n = "rpr_successWorkerCount (ct_ResultPro c)"])
      (auto simp: bounds_inv_def sound_container_def intro: succ_state.exhaust)
  then show False using inv(2) rs by (simp add: exits_inv_def)
qed

lemma halted_results:
  assumes h: "halted x sec validate http c s"
  shows "s_router s \<noteq> RSending r" and "s_results s = []" and "s_checks s = []"
proof -
  have inv: "exits_inv s" "sound_container c" and no: "\<And>s'. \<not> pstep x sec validate http c Drain s s'"
    using h by (simp_all add: halted_def pipe_inv_def)
  note room = halted_succ [OF h] halted_fail [OF h]
  show router: "s_router s \<noteq> RSending r" for r
    using no route_success [of s r c x sec validate http] route_failure [of s r c x sec validate http] room inv(2)
    by (auto simp: sound_container_def)
  show none: "s_results s = []"
    using router inv(1) no route [of s _ _ x sec validate http c]
    by (cases "s_router s"; cases "s_results s") (auto simp: exits_inv_def)
  have "Checking m \<notin> set (s_checks s)" for m
    using no check [of s _ m _ http _ _ x sec validate c] by (metis prod.exhaust split_list)
  moreover have "Sending r \<notin> set (s_checks s)" for r
    using no emit [of s _ r _ c x sec validate http] emit_closed [of r s x sec validate http c] none inv(2)
    by (cases "results_closed s") (auto simp: sound_container_def dest!: split_list)
  ultimately show "s_checks s = []" by (metis check_state.exhaust list.set_intros(1) neq_Nil_conv)
qed

lemma halted_jobs:
  assumes h: "halted x sec validate http c s"
  shows "s_jobs s = []" and "set (s_exec s) \<subseteq> {EExited}"
proof -
  have inv: "bounds_inv c s" "exits_inv s" "sound_container c" and ph: "s_phase s \<noteq> Serving"
    and no: "\<And>s'. \<not> pstep x sec validate http c Drain s s'"
    using h by (simp_all add: halted_def pipe_inv_def)
  have idle: "EAcquiring m \<notin> set (s_exec s)" for m
    using no acquire [of _ s m c x sec validate http] halted_results(3) [OF h] inv(3)
    by (auto simp: sound_container_def in_set_conv_nth)
  then have ws: "set (s_exec s) \<subseteq> {ETaking, EExited}" using exec_state.exhaust by blast
  show none: "s_jobs s = []"
  proof (rule ccontr)
    assume "s_jobs s \<noteq> []"
    then obtain j js where js: "s_jobs s = j # js" by (cases "s_jobs s") auto
    obtain e' mo where "load_job x j (s_world s) = (e', mo)" by fastforce
    then have "s_exec s ! i \<noteq> ETaking" if "i < length (s_exec s)" for i
      using no js that work [of i s j js x e' mo sec validate http c] by auto
    with inv ws have "EExited \<in> set (s_exec s)"
      by (intro idle_worker [where t = ETaking and n = "ew_workerCount (ct_Executor c)"])
        (auto simp: bounds_inv_def sound_container_def)
    then show False using inv(2) js by (simp add: exits_inv_def)
  qed
  show "set (s_exec s) \<subseteq> {EExited}"
    using ws no none ph exec_exit [of _ s x sec validate http c] by (intro no_worker [where t = ETaking]) auto
qed

text \<open>Nothing is left anywhere: every channel is empty, every goroutine has ended, and what was sent was printed.\<close>

definition drained :: "'k pipe \<Rightarrow> bool" where
  "drained s \<longleftrightarrow> s_jobs s = [] \<and> s_checks s = [] \<and> s_results s = [] \<and> s_succ s = [] \<and> s_fail s = [] \<and>
     s_alerts s = [] \<and> set (s_exec s) \<subseteq> {EExited} \<and> s_router s = RExited \<and> set (s_succw s) \<subseteq> {SExited} \<and>
     set (s_failw s) \<subseteq> {FExited} \<and> set (s_alertw s) \<subseteq> {AExited} \<and> s_printed s = map ae_MonitorID (s_sent s)"

lemma halted_drained:
  assumes h: "halted x sec validate http c s"
  shows "s_phase s = Finished \<and> drained s"
proof -
  have inv: "alerts_inv s" and ph: "s_phase s \<noteq> Serving"
    and no: "\<And>s'. \<not> pstep x sec validate http c Drain s s'"
    using h by (simp_all add: halted_def pipe_inv_def)
  note front = halted_jobs [OF h] halted_results(2,3) [OF h] and rear = halted_succ [OF h] halted_fail [OF h] halted_alerts(1) [OF h]
  have rc: "results_closed s"
    using ph no close_results [of s x sec validate http c] front by (cases "s_phase s") (auto simp: results_closed_def)
  have router: "s_router s = RExited"
    using no route_exit [of s x sec validate http c] rc front halted_results(1) [OF h] by (cases "s_router s") auto
  have sw: "set (s_succw s) \<subseteq> {SExited}"
    using no success_exit [of _ s x sec validate http c] router rear
    by (intro no_worker [where t = STaking]) (auto intro: succ_state.exhaust)
  have fw: "set (s_failw s) \<subseteq> {FExited}"
    using no failure_exit [of _ s x sec validate http c] router rear halted_fail_idle [OF h]
    by (intro no_worker [where t = FTaking]) auto
  have ac: "alerts_closed s"
    using rc no close_alerts [of s x sec validate http c] sw fw by (auto simp: phase_defs)
  have aw: "set (s_alertw s) \<subseteq> {AExited}"
    using no print_exit [of _ s x sec validate http c] rear ac
    by (intro no_worker [where t = ATaking]) (auto intro: alert_state.exhaust)
  have "s_phase s = Finished" using ac no finish [of s x sec validate http c] aw by (auto simp: alerts_closed_def)
  then show ?thesis using front rear router sw fw aw inv by (simp add: drained_def alerts_inv_def)
qed

text \<open>Runs with their labels, and what the pipeline does in them.\<close>

inductive runs :: "'k services \<Rightarrow> security_libs \<Rightarrow> (tag \<Rightarrow> field \<Rightarrow> bool) \<Rightarrow>
    (string \<Rightarrow> nat \<Rightarrow> exchange) \<Rightarrow> container \<Rightarrow> label list \<Rightarrow> 'k pipe \<Rightarrow> 'k pipe \<Rightarrow> bool"
  for x sec validate http c where
  none: "runs x sec validate http c [] s s"
| more: "\<not> s_panic s \<Longrightarrow> pstep x sec validate http c l s s1 \<Longrightarrow> runs x sec validate http c ls s1 s' \<Longrightarrow>
      runs x sec validate http c (l # ls) s s'"

lemma runs_reach:
  "runs x sec validate http c ls s s' \<Longrightarrow> reach x sec validate http c e s \<Longrightarrow> reach x sec validate http c e s'"
  by (induction rule: runs.induct) (auto intro: reach.step)

lemma runs_pending:
  assumes "runs x sec validate http c ls s s'" and "pipe_inv c s" and "s_phase s \<noteq> Serving"
  shows "count_list ls Drain + pending s' \<le> pending s \<and> s_phase s' \<noteq> Serving"
  using assms
proof (induction rule: runs.induct)
  case (more s l s1 ls s')
  then have *: "count_list ls Drain + pending s' \<le> pending s1" "s_phase s' \<noteq> Serving"
    using pstep_pipe_inv drain_phase by blast+
  show ?case
  proof (cases l)
    case Feed
    then show ?thesis using feed_keeps [OF more(2)] more(6) * by simp
  next
    case Drain
    then show ?thesis using drain_decreases [OF more(2)] more(5) * by (simp add: pipe_inv_def)
  qed
qed simp

lemma not_halted_step:
  assumes "pipe_inv c s" and "sound_container c" and "s_phase s \<noteq> Serving"
  shows "(s_phase s = Finished \<and> drained s) \<or> (\<exists>s'. pstep x sec validate http c Drain s s')"
  using assms halted_drained [of x sec validate http c s] by (auto simp: halted_def)

lemma drains:
  assumes "pipe_inv c s" and "sound_container c" and "s_phase s \<noteq> Serving" and "\<not> s_panic s"
  shows "\<exists>n s'. runs x sec validate http c (replicate n Drain) s s' \<and> s_phase s' = Finished \<and> drained s'"
  using assms
proof (induction "pending s" arbitrary: s rule: less_induct)
  case less
  show ?case
  proof (cases "s_phase s = Finished \<and> drained s")
    case True
    then show ?thesis using runs.none [of x sec validate http c s] by (metis replicate_0)
  next
    case False
    then obtain s1 where st: "pstep x sec validate http c Drain s s1"
      using not_halted_step [OF less(2,3,4)] by blast
    have cl: "closes_inv s" using less(2) by (simp add: pipe_inv_def)
    have "\<not> s_panic s1" using panic_cause [OF st cl less(5)] by blast
    then obtain n s' where "runs x sec validate http c (replicate n Drain) s1 s'" "s_phase s' = Finished" "drained s'"
      using less(1) [OF drain_decreases [OF st cl refl] pstep_pipe_inv [OF st less(2)] less(3) drain_phase [OF st less(4)]]
      by blast
    then show ?thesis using runs.more [OF less(5) st] by (metis replicate_Suc)
  qed
qed

end
