(* ===== verification/Startup.thy ===== *)
theory Startup
  imports Pipeline
begin

text \<open>
  Starting up: \<^verbatim>\<open>cmd/api/main.go\<close> from reading the configuration to the running goroutines, with
  the database pool (\<^verbatim>\<open>pkg/db/dbConn.go\<close>), the logger (\<^verbatim>\<open>pkg/logger\<close>) and the HTTP server
  (\<^verbatim>\<open>internals/server\<close>). The packages \<^verbatim>\<open>pgxpool\<close> and \<^verbatim>\<open>net/http\<close> are parameters.
\<close>

section \<open>The database pool (dbConn.go)\<close>

text \<open>
  \<open>pc_ConnString\<close> stands for what \<^verbatim>\<open>ParseConfig\<close> finds in the URL. The two hooks only log. A ping is
  given the time it may take.
\<close>

record poolConfig =
  pc_ConnString :: string
  pc_MaxConns :: int
  pc_MinConns :: int
  pc_MaxConnLifetime :: duration
  pc_MaxConnIdleTime :: duration

record pgx_lib =
  pgx_ParseConfig :: "string \<Rightarrow> poolConfig result"
  pgx_NewWithConfig :: "poolConfig \<Rightarrow> go_error option"
  pgx_Ping :: "poolConfig \<Rightarrow> duration \<Rightarrow> go_error option"

definition pool_config :: "dBConfig \<Rightarrow> poolConfig \<Rightarrow> poolConfig" where
  "pool_config cfg pc = pc\<lparr>pc_MaxConns := dc_MaxOpenConns cfg, pc_MinConns := dc_MinIdleConns cfg,
     pc_MaxConnLifetime := dc_ConnMaxLifetime cfg, pc_MaxConnIdleTime := dc_ConnMaxIdleTime cfg\<rparr>"

text \<open>The result, and whether a pool is left open.\<close>

definition ConnectToDB :: "pgx_lib \<Rightarrow> dBConfig \<Rightarrow> poolConfig result \<times> bool" where
  "ConnectToDB lib cfg = (case pgx_ParseConfig lib (dc_URL cfg) of
     Inl err \<Rightarrow> (Inl (Errorf ''parse db url'' err), False)
   | Inr pc \<Rightarrow> (let poolCfg = pool_config cfg pc in
       case pgx_NewWithConfig lib poolCfg of
         Some err \<Rightarrow> (Inl (Errorf ''create db pool'' err), False)
       | None \<Rightarrow> (case pgx_Ping lib poolCfg (dc_HealthTimeout cfg) of
           Some err \<Rightarrow> (Inl (Errorf ''db ping failed'' err), False)
         | None \<Rightarrow> (Inr poolCfg, True))))"

lemma ConnectToDB_open: "ConnectToDB lib cfg = (r, opened) \<Longrightarrow> opened \<longleftrightarrow> (\<exists>pool. r = Inr pool)"
  by (auto simp: ConnectToDB_def Let_def split: sum.splits option.splits)

section \<open>The logger (logger.go)\<close>

datatype log_level = InfoLevel | DebugLevel

record logSetup =
  lg_level :: log_level
  lg_console :: bool
  lg_service :: string
  lg_env :: string
  lg_caller :: bool

definition logger_Init :: "config \<Rightarrow> logSetup" where
  "logger_Init cfg = (let prodStr = ''production'' in
     \<lparr>lg_level = (if c_Env cfg = prodStr then InfoLevel else DebugLevel), lg_console = (c_Env cfg \<noteq> prodStr),
      lg_service = c_ServiceName cfg, lg_env = c_Env cfg, lg_caller = (c_Env cfg \<noteq> prodStr)\<rparr>)"

section \<open>The HTTP server (server.go)\<close>

datatype server = Server (sv_Addr: string)

text \<open>
  \<open>listen\<close> is how \<^verbatim>\<open>ListenAndServe\<close> returns: \<open>None\<close> for \<^verbatim>\<open>ErrServerClosed\<close>. An error ends the
  process (\<^verbatim>\<open>logger.Fatal\<close>), which the result tells. \<open>stop\<close> is \<^verbatim>\<open>http.Server.Shutdown\<close> with the
  time it has.
\<close>

definition server_New :: "string \<Rightarrow> server" where
  "server_New addr = Server addr"

definition server_Start :: "(string \<Rightarrow> go_error option) \<Rightarrow> server \<Rightarrow> go_error option" where
  "server_Start listen s = listen (sv_Addr s)"

definition server_Shutdown :: "(duration \<Rightarrow> go_error option) \<Rightarrow> server \<Rightarrow> go_error option" where
  "server_Shutdown stop s = stop (10 * Second)"

text \<open>What \<^verbatim>\<open>Container.Shutdown\<close> returns once all workers have ended: the error of closing the Redis client.\<close>

definition Shutdown_error :: "redis_lib \<Rightarrow> container \<Rightarrow> go_error option" where
  "Shutdown_error lib ct = Client_Close lib (ct_RedisClient ct)"

section \<open>main\<close>

text \<open>How the process ends before it serves: \<^verbatim>\<open>log.Fatal\<close> with the error, or a panic.\<close>

datatype fatal = ConfigFatal config_error | PoolFatal go_error | DepsFatal go_error | Panics

record process =
  pr_log :: logSetup
  pr_pool :: poolConfig
  pr_container :: container
  pr_server :: server

definition main :: "(string \<Rightarrow> string + 'f) \<Rightarrow> (config \<Rightarrow> 'f \<Rightarrow> string + config) \<Rightarrow> (tag \<Rightarrow> field \<Rightarrow> bool) \<Rightarrow>
    pgx_lib \<Rightarrow> redis_lib \<Rightarrow> fatal + process" where
  "main readInConfig unmarshal validate pgx redis = (case LoadConfig readInConfig unmarshal validate ''env.yaml'' of
     Inl err \<Rightarrow> Inl (ConfigFatal err)
   | Inr cfg \<Rightarrow> (let log = logger_Init cfg in
       case ConnectToDB pgx (c_DB cfg) of
         (Inl err, _) \<Rightarrow> Inl (PoolFatal err)
       | (Inr dbPool, _) \<Rightarrow> (case NewContainer redis cfg of
           Inl (StartError err) \<Rightarrow> Inl (DepsFatal err)
         | Inl StartPanic \<Rightarrow> Inl Panics
         | Inr ct \<Rightarrow> Inr \<lparr>pr_log = log, pr_pool = dbPool, pr_container = ct, pr_server = server_New '':8080''\<rparr>)))"

lemma main_Inr:
  assumes "main readInConfig unmarshal validate pgx redis = Inr p"
  obtains cfg where "LoadConfig readInConfig unmarshal validate ''env.yaml'' = Inr cfg"
    "ConnectToDB pgx (c_DB cfg) = (Inr (pr_pool p), True)" "NewContainer redis cfg = Inr (pr_container p)"
    "pr_server p = Server '':8080''" "pr_log p = logger_Init cfg"
proof -
  obtain cfg where cfg: "LoadConfig readInConfig unmarshal validate ''env.yaml'' = Inr cfg"
    using assms by (auto simp: main_def split: sum.splits)
  obtain r b where db: "ConnectToDB pgx (c_DB cfg) = (r, b)" by (cases "ConnectToDB pgx (c_DB cfg)")
  have "r = Inr (pr_pool p) \<and> NewContainer redis cfg = Inr (pr_container p) \<and> pr_server p = Server '':8080'' \<and>
      pr_log p = logger_Init cfg"
    using assms cfg db by (auto simp: main_def server_New_def split: sum.splits start_failure.splits)
  with cfg db ConnectToDB_open [OF db] that show thesis by auto
qed

lemma main_server: "main readInConfig unmarshal validate pgx redis = Inr p \<Longrightarrow> sv_Addr (pr_server p) = '':8080''"
  by (erule main_Inr) simp

lemma ConnectToDB_limits: "ConnectToDB lib cfg = (Inr pool, opened) \<Longrightarrow> pc_MaxConns pool = dc_MaxOpenConns cfg"
  by (auto simp: ConnectToDB_def pool_config_def Let_def split: sum.splits option.splits)

lemma main_pool:
  "main readInConfig unmarshal validate pgx redis = Inr p \<Longrightarrow>
     \<exists>cfg. LoadConfig readInConfig unmarshal validate ''env.yaml'' = Inr cfg \<and>
       pc_MaxConns (pr_pool p) = dc_MaxOpenConns (c_DB cfg)"
  by (erule main_Inr) (blast dest: ConnectToDB_limits)

context validator_tags
begin

lemma main_sound:
  assumes "main readInConfig unmarshal validate pgx redis = Inr p"
  shows "sound_container (pr_container p)"
  using assms by (rule main_Inr) (blast intro: NewContainer_sound validateConfig_sound LoadConfig_valid)

lemma main_succeeds:
  "(\<exists>p. main readInConfig unmarshal validate pgx redis = Inr p) \<longleftrightarrow>
    (\<exists>cfg pool rdb. LoadConfig readInConfig unmarshal validate ''env.yaml'' = Inr cfg \<and>
       ConnectToDB pgx (c_DB cfg) = (Inr pool, True) \<and> redis_New redis (c_Redis cfg) = Inr rdb)"
proof (cases "LoadConfig readInConfig unmarshal validate ''env.yaml''")
  case (Inr cfg)
  obtain r b where db: "ConnectToDB pgx (c_DB cfg) = (r, b)" by (cases "ConnectToDB pgx (c_DB cfg)")
  note ct = NewContainer_total [OF validateConfig_sound [OF LoadConfig_valid [OF Inr]], of redis]
  have "(\<exists>p. main readInConfig unmarshal validate pgx redis = Inr p) \<longleftrightarrow>
      (\<exists>pool. r = Inr pool) \<and> (\<exists>ct. NewContainer redis cfg = Inr ct)"
    using Inr db by (auto simp: main_def Let_def split: sum.splits start_failure.splits)
  then show ?thesis using ct(1) ConnectToDB_open [OF db] Inr db by auto
qed (simp add: main_def)

text \<open>A configuration that was accepted cannot make the start panic.\<close>

lemma main_no_panic: "main readInConfig unmarshal validate pgx redis \<noteq> Inl Panics"
  using validateConfig_sound [OF LoadConfig_valid, of readInConfig unmarshal "''env.yaml''"] NewContainer_total(2)
  by (auto simp: main_def Let_def split: sum.splits prod.splits start_failure.splits)

end

end
