(* ===== verification/Creation.thy ===== *)
theory Creation
  imports Monitor_Ops
begin

text \<open>
  Concurrent requests that create monitors: \<^verbatim>\<open>CreateMonitor\<close> of \<^verbatim>\<open>monitor/service.go\<close> one statement at
  a time, for any number of requests in any order, together with the other statements that write
  the tables of users and monitors. The count that a request has taken before its insert is
  enough to keep every user within the quota, whatever the interleaving.
\<close>

section \<open>Requests, one statement at a time\<close>

text \<open>Where a request is: before each of its three calls, or answered.\<close>

datatype creation =
    Counting createMonitorCmd
  | Creating createMonitorCmd
  | Scheduling createMonitorCmd uuid
  | Answered "uuid result"

definition create_step :: "'k services \<Rightarrow> creation \<Rightarrow> 'k world \<Rightarrow> 'k world \<times> creation" where
  "create_step x cr e = (case cr of
     Counting cmd \<Rightarrow> (case repo_IncrementMonitorCount (cmc_UserID cmd) e of
         (e', Some err) \<Rightarrow> (e', Answered (Inl err)) | (e', None) \<Rightarrow> (e', Creating cmd))
   | Creating cmd \<Rightarrow> (case repo_Create cmd e of
         (e', Inl err) \<Rightarrow> (e', Answered (Inl err)) | (e', Inr monitorID) \<Rightarrow> (e', Scheduling cmd monitorID))
   | Scheduling cmd monitorID \<Rightarrow> (ScheduleMonitor x monitorID (cmc_IntervalSec cmd) e, Answered (Inr monitorID))
   | Answered r \<Rightarrow> (e, Answered r))"

text \<open>\<^verbatim>\<open>CreateMonitor\<close> runs these steps one after the other.\<close>

lemma CreateMonitor_steps:
  assumes "create_step x (Counting cmd) e = (e1, c1)" and "create_step x c1 e1 = (e2, c2)"
    and "create_step x c2 e2 = (e3, c3)"
  shows "e3 = fst (CreateMonitor x cmd e)" and "c3 = Answered (snd (CreateMonitor x cmd e))"
  using assms by (auto simp: CreateMonitor_def create_step_def split: prod.splits option.splits sum.splits)

text \<open>
  The statements of others: registering a user and switching a monitor write to the two tables;
  whatever else happens leaves them alone.
\<close>

inductive creating :: "'k services \<Rightarrow> 'k world \<times> creation list \<Rightarrow> 'k world \<times> creation list \<Rightarrow> bool" for x where
  arrive: "creating x (e, cs) (e, cs @ [Counting cmd])"
| advance: "i < length cs \<Longrightarrow> create_step x (cs ! i) e = (e', cr) \<Longrightarrow> creating x (e, cs) (e', cs[i := cr])"
| register: "repo_CreateUser data e = (e', r) \<Longrightarrow> creating x (e, cs) (e', cs)"
| switch: "repo_SetEnabled user i b e = (e', er) \<Longrightarrow> creating x (e, cs) (e', cs)"
| other: "users (db e') = users (db e) \<Longrightarrow> monitors (db e') = monitors (db e) \<Longrightarrow> creating x (e, cs) (e', cs)"

section \<open>The invariant\<close>

text \<open>How many monitors a user owns, and how many of the user's requests have been counted and not inserted.\<close>

definition owns :: "tables \<Rightarrow> uuid \<Rightarrow> nat" where
  "owns T user = length (filter (\<lambda>m. m_UserID m = user) (monitors T))"

primrec counted_for :: "uuid \<Rightarrow> creation \<Rightarrow> bool" where
  "counted_for user (Counting cmd) = False"
| "counted_for user (Creating cmd) \<longleftrightarrow> cmc_UserID cmd = user"
| "counted_for user (Scheduling cmd i) = False"
| "counted_for user (Answered r) = False"

definition reserved :: "creation list \<Rightarrow> uuid \<Rightarrow> nat" where
  "reserved cs user = length (filter (counted_for user) cs)"

definition quota_used :: "user_row \<Rightarrow> int" where
  "quota_used u = (case u_MonitorsCount u of None \<Rightarrow> 0 | Some n \<Rightarrow> sint n)"

definition count_covers :: "tables \<Rightarrow> creation list \<Rightarrow> bool" where
  "count_covers T cs \<longleftrightarrow> (\<forall>u \<in> set (users T). int (owns T (u_ID u) + reserved cs (u_ID u)) \<le> quota_used u) \<and>
     (\<forall>user. reserved cs user \<noteq> 0 \<longrightarrow> user \<in> u_ID ` set (users T))"

definition owners_ok :: "tables \<Rightarrow> bool" where
  "owners_ok T \<longleftrightarrow> distinct (map u_ID (users T)) \<and> m_UserID ` set (monitors T) \<subseteq> u_ID ` set (users T)"

definition quota_inv :: "'k world \<times> creation list \<Rightarrow> bool" where
  "quota_inv s \<longleftrightarrow> owners_ok (db (fst s)) \<and> within_quota (db (fst s)) \<and> count_covers (db (fst s)) (snd s)"

lemma quota_used_up:
  assumes "within_quota T" and "u \<in> set (users T)"
  shows "quota_used (count_up i u) = quota_used u + (if quota_row i u then 1 else 0)"
  using assms sint_plus_one
  by (auto simp: within_quota_def count_up_def quota_row_def quota_used_def split: option.splits)

lemma owns_simps [simp]:
  "owns (T\<lparr>users := us\<rparr>) user = owns T user"
  "owns (fst (updateMonitorStatus_sql i b v T)) user = owns T user"
  by (simp_all add: owns_def updateMonitorStatus_sql_def filter_map comp_def)

lemma owns_create:
  "owns (fst (createMonitor_sql i now p T)) user \<le> owns T user + (if p_UserID p = user then 1 else 0)"
  by (simp add: owns_def createMonitor_sql_def new_monitor_row_def Let_def)

lemma owns_known: "owners_ok T \<Longrightarrow> owns T user \<noteq> 0 \<Longrightarrow> user \<in> u_ID ` set (users T)"
  by (auto simp: owns_def owners_ok_def filter_empty_conv)

lemma owners_statements:
  "owners_ok T \<Longrightarrow> owners_ok (fst (incrementMonitorCount_sql user T))"
  "owners_ok T \<Longrightarrow> owners_ok (fst (createMonitor_sql i now p T))"
  "owners_ok T \<Longrightarrow> owners_ok (fst (updateMonitorStatus_sql i b user T))"
  "owners_ok T \<Longrightarrow> owners_ok (fst (createUser_sql i now name email h T))"
  by (auto simp: owners_ok_def incrementMonitorCount_sql_def createMonitor_sql_def new_monitor_row_def
      updateMonitorStatus_sql_def createUser_sql_def Let_def comp_def image_image)

lemma reserved_update:
  "i < length cs \<Longrightarrow> reserved (cs[i := cr]) user + (if counted_for user (cs ! i) then 1 else 0) =
     reserved cs user + (if counted_for user cr then 1 else 0)"
proof (induction cs arbitrary: i)
  case (Cons c cs)
  then show ?case by (cases i) (auto simp: reserved_def)
qed simp

lemma reserved_append [simp]: "reserved (cs @ [Counting cmd]) user = reserved cs user"
  by (simp add: reserved_def)

lemma count_covers_monitors:
  assumes "count_covers T cs" and "users T' = users T" and "\<And>user. owns T' user = owns T user"
  shows "count_covers T' cs"
  using assms by (simp add: count_covers_def)

text \<open>A request is counted for a user whose count has just gone up.\<close>

lemma count_covers_increment:
  assumes T: "owners_ok T" "within_quota T" and cov: "count_covers T cs" and i: "i < length cs" "cs ! i = Counting cmd"
    and T': "T' = fst (incrementMonitorCount_sql (cmc_UserID cmd) T)"
    and cr: "cr = Answered r \<or> cr = Creating cmd \<and> (\<exists>u \<in> set (users T). quota_row (cmc_UserID cmd) u)"
  shows "count_covers T' (cs[i := cr])"
proof -
  have us: "users T' = map (count_up (cmc_UserID cmd)) (users T)" and ow: "owns T' user = owns T user" for user
    by (simp_all add: T' incrementMonitorCount_sql_def)
  have rs: "reserved (cs[i := cr]) user = reserved cs user + (if counted_for user cr then 1 else 0)" for user
    using reserved_update [OF i(1), of cr user] i(2) by simp
  have "int (owns T (u_ID u) + reserved (cs[i := cr]) (u_ID u)) \<le> quota_used (count_up (cmc_UserID cmd) u)"
    if u: "u \<in> set (users T)" for u
  proof -
    have "quota_row (cmc_UserID cmd) u" if c: "counted_for (u_ID u) cr"
    proof -
      obtain v where v: "v \<in> set (users T)" "quota_row (cmc_UserID cmd) v" and cmd: "cmc_UserID cmd = u_ID u" using cr c by auto
      have "v = u" using T(1) u v cmd by (auto simp: owners_ok_def distinct_map quota_row_def dest: inj_onD)
      with v(2) show ?thesis by simp
    qed
    moreover have "int (owns T (u_ID u) + reserved cs (u_ID u)) \<le> quota_used u" using cov u by (simp add: count_covers_def)
    ultimately show ?thesis using rs [of "u_ID u"] quota_used_up [OF T(2) u, of "cmc_UserID cmd"] by auto
  qed
  moreover have "user \<in> u_ID ` set (users T)" if "reserved (cs[i := cr]) user \<noteq> 0" for user
  proof (cases "counted_for user cr")
    case True
    with cr obtain u where "u \<in> set (users T)" "u_ID u = user" by (auto simp: quota_row_def)
    then show ?thesis by blast
  next
    case False
    then show ?thesis using that rs [of user] cov by (simp add: count_covers_def)
  qed
  ultimately show ?thesis by (auto simp: count_covers_def us ow image_image)
qed

text \<open>An insert uses up what was counted for it, or nothing is inserted.\<close>

lemma count_covers_create:
  assumes cov: "count_covers T cs" and i: "i < length cs" "cs ! i = Creating cmd"
    and T': "T' = T \<or> T' = fst (createMonitor_sql j now p T)" and p: "p_UserID p = cmc_UserID cmd"
    and cr: "\<And>user. \<not> counted_for user cr"
  shows "count_covers T' (cs[i := cr])"
proof -
  have us: "users T' = users T" using T' by (auto simp: createMonitor_sql_def Let_def)
  have le: "owns T' user + reserved (cs[i := cr]) user \<le> owns T user + reserved cs user" for user
    using T' owns_create [of j now p T user] reserved_update [OF i(1), of cr user] i(2) cr p by auto
  have "int (owns T' (u_ID u) + reserved (cs[i := cr]) (u_ID u)) \<le> quota_used u" if "u \<in> set (users T)" for u
    using le [of "u_ID u"] bspec [OF conjunct1 [OF cov [unfolded count_covers_def]] that] by linarith
  moreover have "user \<in> u_ID ` set (users T)" if "reserved (cs[i := cr]) user \<noteq> 0" for user
    using that reserved_update [OF i(1), of cr user] cr cov by (auto simp: count_covers_def)
  ultimately show ?thesis by (simp add: count_covers_def us)
qed

lemma count_covers_register:
  assumes T: "owners_ok T" and cov: "count_covers T cs" and T': "T' = fst (createUser_sql i now name email h T)"
  shows "count_covers T' cs"
proof -
  have ow: "owns T' user = owns T user" for user by (simp add: T' createUser_sql_def)
  have new: "owns T i = 0" "reserved cs i = 0" if "i \<notin> u_ID ` set (users T)"
    using that owns_known [OF T] cov by (auto simp: count_covers_def)
  show ?thesis using cov new by (auto simp: count_covers_def ow) (auto simp: T' createUser_sql_def quota_used_def split: if_splits)
qed

lemma repo_CreateUser_ran:
  assumes "repo_CreateUser data e = (e', r)"
  shows "\<exists>i now. ran (createUser_sql i now (cuc_Name data) (cuc_Email data) (cuc_PasswordHash data)) e e'"
proof -
  let ?s = "createUser_sql (gen e (ticks e)) (clock e (ticks e)) (cuc_Name data) (cuc_Email data) (cuc_PasswordHash data)"
  obtain r0 where "dcall ?s e = (e', r0)" using assms by (auto simp: repo_CreateUser_def Let_def split: prod.splits sum.splits)
  from dcall_result(1) [OF this] show ?thesis by blast
qed

lemma quota_inv_advance:
  assumes inv: "quota_inv (e, cs)" and i: "i < length cs" and step: "create_step x (cs ! i) e = (e', cr)" and mx: "monit x"
  shows "quota_inv (e', cs[i := cr])"
proof -
  let ?T = "db e"
  have T: "owners_ok ?T" "within_quota ?T" and cov: "count_covers ?T cs" using inv by (simp_all add: quota_inv_def)
  show ?thesis
  proof (cases "cs ! i")
    case (Counting cmd)
    then obtain q where q: "repo_IncrementMonitorCount (cmc_UserID cmd) e = (e', q)"
      and cr: "cr = (case q of Some err \<Rightarrow> Answered (Inl err) | None \<Rightarrow> Creating cmd)"
      using step by (auto simp: create_step_def split: prod.splits option.splits)
    note res = IncrementMonitorCount_result [OF q]
    have d: "db e' = ?T \<or> db e' = fst (incrementMonitorCount_sql (cmc_UserID cmd) ?T)" using res(1) by (simp add: ran_def)
    have "count_covers (db e') (cs[i := cr])"
    proof (cases q)
      case None
      then show ?thesis using res(2) cr by (intro count_covers_increment [OF T cov i Counting]) auto
    next
      case (Some err)
      have "count_covers ?T (cs[i := cr])"
        using cov reserved_update [OF i, of cr] Some cr Counting by (simp add: count_covers_def)
      moreover have "count_covers (fst (incrementMonitorCount_sql (cmc_UserID cmd) ?T)) (cs[i := cr])"
        using Some cr by (intro count_covers_increment [OF T cov i Counting refl]) simp
      ultimately show ?thesis using d by auto
    qed
    moreover have "owners_ok (db e')" "within_quota (db e')"
      using d T owners_statements(1) within_quota_increment by auto
    ultimately show ?thesis by (simp add: quota_inv_def)
  next
    case (Creating cmd)
    then obtain q where q: "repo_Create cmd e = (e', q)"
      and cr: "cr = (case q of Inl err \<Rightarrow> Answered (Inl err) | Inr m \<Rightarrow> Scheduling cmd m)"
      using step by (auto simp: create_step_def split: prod.splits sum.splits)
    obtain j now p where p: "ran (createMonitor_sql j now p) e e'" "p_UserID p = cmc_UserID cmd"
      using repo_Create_ran [OF q] by blast
    have "count_covers (db e') (cs[i := cr])"
      using p cr by (intro count_covers_create [OF cov i Creating]) (auto simp: ran_def split: sum.splits)
    moreover have "owners_ok (db e')" "within_quota (db e')"
      using p(1) T owners_statements(2) [OF T(1)] by (auto simp: ran_def within_quota_def)
    ultimately show ?thesis by (simp add: quota_inv_def)
  next
    case (Scheduling cmd m)
    then have "db e' = ?T" "\<And>user. counted_for user cr = counted_for user (cs ! i)"
      using step best_effortD(4) [OF monit.ScheduleMonitor_best_effort [OF mx]] by (auto simp: create_step_def)
    then show ?thesis using inv reserved_update [OF i, of cr] by (simp add: quota_inv_def count_covers_def)
  next
    case (Answered r)
    then have "e' = e" "cr = cs ! i" using step by (auto simp: create_step_def)
    then show ?thesis using inv by simp
  qed
qed

lemma quota_inv_step:
  assumes "creating x s s'" and "quota_inv s" and "monit x"
  shows "quota_inv s'"
  using assms(1,2)
proof cases
  case (arrive e cs cmd)
  then show ?thesis using assms(2) by (simp add: quota_inv_def count_covers_def)
next
  case (advance i cs e e' cr)
  then show ?thesis using assms(2,3) by (auto intro: quota_inv_advance)
next
  case (register data e e' r cs)
  then obtain i now where d: "db e' = db e \<or>
      db e' = fst (createUser_sql i now (cuc_Name data) (cuc_Email data) (cuc_PasswordHash data) (db e))"
    using repo_CreateUser_ran by (fastforce simp: ran_def)
  have inv: "owners_ok (db e)" "within_quota (db e)" "count_covers (db e) cs" using assms(2) register(1) by (simp_all add: quota_inv_def)
  have "within_quota (fst (createUser_sql i now (cuc_Name data) (cuc_Email data) (cuc_PasswordHash data) (db e)))"
    using inv(2) by (auto simp: within_quota_def createUser_sql_def)
  then show ?thesis using d inv owners_statements(4) [OF inv(1)] count_covers_register [OF inv(1,3) refl]
    by (auto simp: register(2) quota_inv_def)
next
  case (switch user i b e e' er cs)
  have inv: "owners_ok (db e)" "within_quota (db e)" "count_covers (db e) cs" using assms(2) switch(1) by (simp_all add: quota_inv_def)
  let ?T = "fst (updateMonitorStatus_sql i b user (db e))"
  have "users ?T = users (db e)" by (simp add: updateMonitorStatus_sql_def)
  then have "owners_ok ?T" "within_quota ?T" "count_covers ?T cs"
    using inv owners_statements(3) by (auto simp: within_quota_def intro: count_covers_monitors)
  moreover have "db e' = db e \<or> db e' = ?T" using repo_SetEnabled_result(1) [OF switch(3)] by (simp add: ran_def)
  ultimately show ?thesis using inv by (auto simp: switch(2) quota_inv_def)
next
  case (other e' e cs)
  then show ?thesis using assms(2) by (simp add: quota_inv_def owners_ok_def within_quota_def count_covers_def owns_def)
qed

lemma quota_inv_run: "(creating x)\<^sup>*\<^sup>* s s' \<Longrightarrow> quota_inv s \<Longrightarrow> monit x \<Longrightarrow> quota_inv s'"
  by (induction rule: rtranclp_induct) (auto intro: quota_inv_step)

lemma quota_inv_bound:
  assumes "quota_inv (e, cs)"
  shows "int (owns (db e) user + reserved cs user) \<le> 10"
proof (cases "user \<in> u_ID ` set (users (db e))")
  case True
  then obtain u where u: "u \<in> set (users (db e))" "u_ID u = user" by auto
  have "int (owns (db e) user + reserved cs user) \<le> quota_used u"
    using assms u by (auto simp: quota_inv_def count_covers_def)
  also have "\<dots> \<le> 10" using assms u(1) by (auto simp: quota_inv_def within_quota_def quota_used_def split: option.split)
  finally show ?thesis .
next
  case False
  then have "owns (db e) user = 0" "reserved cs user = 0"
    using assms owns_known [of "db e" user] by (auto simp: quota_inv_def count_covers_def)
  then show ?thesis by simp
qed

text \<open>A request that runs alone is one of these runs.\<close>

lemma CreateMonitor_creating:
  "(creating x)\<^sup>*\<^sup>* (e, []) (fst (CreateMonitor x cmd e), [Answered (snd (CreateMonitor x cmd e))])"
proof -
  obtain e1 c1 where s1: "create_step x (Counting cmd) e = (e1, c1)" by (cases "create_step x (Counting cmd) e")
  obtain e2 c2 where s2: "create_step x c1 e1 = (e2, c2)" by (cases "create_step x c1 e1")
  obtain e3 c3 where s3: "create_step x c2 e2 = (e3, c3)" by (cases "create_step x c2 e2")
  have "(creating x)\<^sup>*\<^sup>* (e, []) (e, [Counting cmd])" using arrive [of x e "[]" cmd] by auto
  moreover have "creating x (e, [Counting cmd]) (e1, [c1])" using advance [of 0 "[Counting cmd]" x e e1 c1] s1 by simp
  moreover have "creating x (e1, [c1]) (e2, [c2])" using advance [of 0 "[c1]" x e1 e2 c2] s2 by simp
  moreover have "creating x (e2, [c2]) (e3, [c3])" using advance [of 0 "[c2]" x e2 e3 c3] s3 by simp
  ultimately have "(creating x)\<^sup>*\<^sup>* (e, []) (e3, [c3])" by (auto intro: rtranclp.rtrancl_into_rtrancl)
  then show ?thesis using CreateMonitor_steps [OF s1 s2 s3] by simp
qed

end
