(* ===== verification/Alerts.thy ===== *)
theory Alerts
  imports User_Repository
begin

text \<open>
  The statements on the table of alerts (\<^verbatim>\<open>pkg/db/alerts.sql.go\<close>) with the constraints of its
  migration. No code calls them yet, so the table stands beside the others.
\<close>

section \<open>The table\<close>

record alert_row =
  a_ID :: uuid
  a_IncidentID :: uuid
  a_SentAt :: "time option"
  a_AlertEmail :: string
  a_Status :: string
  a_CreatedAt :: time

type_synonym alert_tables = "tables \<times> alert_row list"

record createAlertParams =
  cap_IncidentID :: "uuid option"
  cap_AlertEmail :: string

record updateAlertStatusParams =
  uap_ID :: "uuid option"
  uap_Status :: string

section \<open>Statements\<close>

text \<open>A \<^verbatim>\<open>pgtype.UUID\<close> that is not valid is null: the column refuses it, and no row has it as its id.\<close>

definition createAlert_sql :: "uuid \<Rightarrow> time \<Rightarrow> createAlertParams \<Rightarrow> alert_tables \<Rightarrow> alert_tables \<times> unit result" where
  "createAlert_sql i now arg TA = (let (T, as) = TA in
     if i \<in> a_ID ` set as then (TA, Inl (unique_violation ''alerts_pkey'' ''alerts''))
     else (case cap_IncidentID arg of
         None \<Rightarrow> (TA, Inl (PgError ''23502'' '''' ''alerts''))
       | Some incident \<Rightarrow>
          (if incident \<notin> i_ID ` set (incidents T)
           then (TA, Inl (fkey_violation ''alerts_incident_id_fkey'' ''alerts''))
           else ((T, as @ [\<lparr>a_ID = i, a_IncidentID = incident, a_SentAt = None, a_AlertEmail = cap_AlertEmail arg,
               a_Status = ''pending'', a_CreatedAt = now\<rparr>]), Inr ()))))"

definition set_status :: "updateAlertStatusParams \<Rightarrow> alert_row \<Rightarrow> alert_row" where
  "set_status arg r = (if Some (a_ID r) = uap_ID arg then r\<lparr>a_Status := uap_Status arg\<rparr> else r)"

definition updateAlertStatus_sql :: "updateAlertStatusParams \<Rightarrow> alert_tables \<Rightarrow> alert_tables \<times> int result" where
  "updateAlertStatus_sql arg TA = (let (T, as) = TA in
     ((T, map (set_status arg) as), Inr (int (length (filter (\<lambda>r. Some (a_ID r) = uap_ID arg) as)))))"

definition CreateAlert :: "createAlertParams \<Rightarrow> ('k, alert_tables) env \<Rightarrow> ('k, alert_tables) env \<times> go_error option" where
  "CreateAlert arg e = (case dcall (createAlert_sql (gen e (ticks e)) (clock e (ticks e)) arg) e of
     (e', Inl err) \<Rightarrow> (e', Some err) | (e', Inr _) \<Rightarrow> (e', None))"

definition UpdateAlertStatus :: "updateAlertStatusParams \<Rightarrow> ('k, alert_tables) env \<Rightarrow> ('k, alert_tables) env \<times> int result" where
  "UpdateAlertStatus arg e = (case dcall (updateAlertStatus_sql arg) e of
     (e', Inl err) \<Rightarrow> (e', Inl err) | (e', Inr n) \<Rightarrow> (e', Inr n))"

section \<open>Facts\<close>

definition wf_alerts :: "alert_tables \<Rightarrow> bool" where
  "wf_alerts TA \<longleftrightarrow> distinct (map a_ID (snd TA)) \<and> a_IncidentID ` set (snd TA) \<subseteq> i_ID ` set (incidents (fst TA))"

lemma set_status_simps [simp]:
  "a_ID (set_status arg r) = a_ID r" "a_IncidentID (set_status arg r) = a_IncidentID r" "a_SentAt (set_status arg r) = a_SentAt r"
  by (simp_all add: set_status_def)

lemma wf_alert_statements:
  assumes "wf_alerts TA"
  shows "wf_alerts (fst (createAlert_sql i now arg TA))" and "wf_alerts (fst (updateAlertStatus_sql arg' TA))"
  using assms
  by (auto simp: wf_alerts_def createAlert_sql_def updateAlertStatus_sql_def case_prod_unfold Let_def comp_def image_image
      split: option.split)

text \<open>An update of an existing alert changes that row and no other, and reports one row.\<close>

lemma updateAlertStatus_one:
  assumes "wf_alerts (T, as)" and "r \<in> set as" and "uap_ID arg = Some (a_ID r)"
  shows "snd (updateAlertStatus_sql arg (T, as)) = Inr 1"
    and "r\<lparr>a_Status := uap_Status arg\<rparr> \<in> set (snd (fst (updateAlertStatus_sql arg (T, as))))"
proof -
  have "filter (\<lambda>s. a_ID s = a_ID r) as = [r]"
    using assms(1,2) filter_key_unique [of a_ID as r] by (simp add: wf_alerts_def)
  then show "snd (updateAlertStatus_sql arg (T, as)) = Inr 1" by (simp add: updateAlertStatus_sql_def assms(3))
  have "set_status arg r = r\<lparr>a_Status := uap_Status arg\<rparr>" using assms(3) by (simp add: set_status_def)
  then show "r\<lparr>a_Status := uap_Status arg\<rparr> \<in> set (snd (fst (updateAlertStatus_sql arg (T, as))))"
    using assms(2) by (force simp: updateAlertStatus_sql_def)
qed

text \<open>Neither statement ever sets \<^verbatim>\<open>sent_at\<close>, also not for an alert marked as sent.\<close>

lemma sent_at_never_set:
  assumes "\<forall>r \<in> set (snd TA). a_SentAt r = None"
  shows "\<forall>r \<in> set (snd (fst (createAlert_sql i now arg TA))). a_SentAt r = None"
    and "\<forall>r \<in> set (snd (fst (updateAlertStatus_sql arg' TA))). a_SentAt r = None"
  using assms by (auto simp: createAlert_sql_def updateAlertStatus_sql_def case_prod_unfold Let_def split: option.splits)

end
