(* ===== verification/Examples.thy ===== *)
theory Examples
  imports Watching Scheduler_Versions Drain Startup Creation Alerts
begin

text \<open>
  Concrete worlds for the closed examples: the reference services, a network that delivers
  every call, a clock that advances by a millisecond per interaction, one user and two
  monitors, one enabled and one disabled; a valid configuration with a run of the system up to
  the shutdown; and requests with their tokens.
\<close>

definition id1 :: uuid where "id1 = 1"
definition id2 :: uuid where "id2 = 2"
definition owner :: uuid where "owner = 7"

definition row1 :: monitor_row where
  "row1 = \<lparr>m_ID = id1, m_UserID = owner, m_Url = ''https://example.org/'', m_AlertEmail = None,
     m_IntervalSec = 60, m_TimeoutSec = 120, m_LatencyThresholdMs = 500, m_ExpectedStatus = 200,
     m_Enabled = True, m_UpdatedAt = 0, m_CreatedAt = 0\<rparr>"

definition row2 :: monitor_row where
  "row2 = row1\<lparr>m_ID := id2, m_Enabled := False\<rparr>"

definition user1 :: user_row where
  "user1 = \<lparr>u_ID = owner, u_Name = ''ann'', u_Email = ''ann@example.org'', u_PasswordHash = ''x'',
     u_MonitorsCount = Some 2, u_IsPaidUser = Some False, u_CreatedAt = 0\<rparr>"

definition tables1 :: tables where
  "tables1 = \<lparr>users = [user1], monitors = [row1, row2], incidents = []\<rparr>"

definition mem0 :: mem where
  "mem0 = \<lparr>mvals = Map.empty, mttls = Map.empty\<rparr>"

text \<open>The first monitor is due, the second is in flight past its deadline.\<close>

definition mem1 :: mem where
  "mem1 = mem0\<lparr>mvals := [scheduleKey \<mapsto> MZset [(canonical_string id1, 1000)],
     inflightKey \<mapsto> MZset [(canonical_string id2, 2000)]]\<rparr>"

definition calm :: "mem \<Rightarrow> mem world" where
  "calm s = \<lparr>kv = s, db = tables1, clock = (\<lambda>n. 100 * Second + int n * Millisecond), net = (\<lambda>_. Delivered),
     ctx_done = (\<lambda>_. None), gen = (\<lambda>n. of_nat n + 100), ticks = 0, slept = []\<rparr>"

definition idle_oracle :: sched_oracle where
  "idle_oracle = \<lparr>taken = (\<lambda>_. 0), closed = (\<lambda>_. False), pick_done = (\<lambda>_. False), raw_rand = (\<lambda>n. n)\<rparr>"

definition sched1 :: scheduler where
  "sched1 = \<lparr>sc_interval = Second, sc_batchSize = 10, sc_visibilityTimeout = 30 * Second\<rparr>"

lemma ref_service_simps: "rds ref_services = mem_redis" "uuid_string ref_services = canonical_string"
  by (simp_all add: ref_services_def)

lemma reliable_calm [simp]: "reliable (calm s)"
  by (simp add: reliable_def calm_def)

lemma vw_calm: "vw ref_services (calm s) = mem_view s"
  by (simp add: vw_def calm_def ref_services_def mem_redis_def)

lemma ttls_view_example: "ttls (mem_view mem0) k = None" "ttls (mem_view mem1) k = None"
  by (simp_all add: mem_view_def mem0_def mem1_def)

lemma vals_view_example: "vals (mem_view mem0) k = None"
  "k \<noteq> scheduleKey \<Longrightarrow> k \<noteq> inflightKey \<Longrightarrow> vals (mem_view mem1) k = None"
  by (simp_all add: mem_view_def mem0_def mem1_def)

lemma vals_mem1:
  "vals (mem_view mem1) scheduleKey = Some (VZset [canonical_string id1 \<mapsto> 1000])"
  "vals (mem_view mem1) inflightKey = Some (VZset [canonical_string id2 \<mapsto> 2000])"
  by (simp_all add: mem_view_def mem1_def mem0_def scheduleKey_def inflightKey_def)

lemma typed_calm [simp]: "typed ref_services (vw ref_services (calm mem0))"
  "typed ref_services (vw ref_services (calm mem1))"
  by (simp_all add: typed_def vw_calm is_zset_def is_hash_def is_str_def vals_view_example ttls_view_example vals_mem1)

lemma tables1_inv [simp]: "wf_tables tables1" "within_quota tables1" "ascii_tables tables1"
  by (simp_all add: tables1_def wf_tables_def within_quota_def ascii_tables_def row1_def row2_def user1_def
      monitors_check_def id1_def id2_def owner_def ascii_monitor_def row_monitor_def FromPgText_def)

lemma str_calm: "str (vw ref_services (calm mem0)) k = None" "str (vw ref_services (calm mem1)) k = None"
  by (simp_all add: vw_calm str_def mem_view_def mem0_def mem1_def)

lemma service_inv_calm [simp]:
  "service_inv ref_services (calm mem0)" "service_inv ref_services (calm mem1)"
proof -
  have "db (calm s) = tables1" for s by (simp add: calm_def)
  then show "service_inv ref_services (calm mem0)" "service_inv ref_services (calm mem1)"
    by (simp_all add: service_inv_def cache_agrees_def str_calm)
qed

lemma live_calm [simp]: "live ref_services (calm mem0)" "live ref_services (calm mem1)"
  by (simp_all add: live_def)

lemma tracks_calm [simp]: "tracks ref_services u (vw ref_services (calm mem0)) fresh"
  by (simp add: tracks_def fresh_def vw_calm str_def hash_def vals_view_example)

section \<open>A run of the system\<close>

text \<open>A valid configuration, and what the servers of the monitors answer.\<close>

definition config1 :: config where
  "config1 = \<lparr>c_Env = ''production'', c_ServiceName = ''monit'', c_Port = 8080,
     c_Auth = \<lparr>ac_Secret = ''k'', ac_TokenTTL = 30 * Minute\<rparr>,
     c_App = \<lparr>app_JobChannelSize = 100, app_ResultChannelSize = 100, app_AlertChannelSize = 100\<rparr>,
     c_Scheduler = \<lparr>cfg_Interval = Second, cfg_BatchSize = 10, cfg_VisibilityTimeout = 30 * Second\<rparr>,
     c_Reclaimer = \<lparr>rcfg_Interval = Second, rcfg_Limit = 10\<rparr>,
     c_Executor = \<lparr>ex_WorkerCount = 5, ex_HTTPSemCount = 5\<rparr>,
     c_Alert = \<lparr>al_WorkerCount = 5, al_OwnerEmail = ''o@example.org'', al_AccessKey = ''a''\<rparr>,
     c_ResultProcessor = \<lparr>rp_SuccessWorkerCount = 5, rp_SuccessChannelSize = 5,
        rp_FailureWorkerCount = 5, rp_FailureChannelSize = 5\<rparr>,
     c_Redis = (c_Redis setDefaults)\<lparr>rd_URL := ''redis://r''\<rparr>,
     c_DB = (c_DB setDefaults)\<lparr>dc_URL := ''postgres://d''\<rparr>\<rparr>"

text \<open>Libraries that connect.\<close>

definition ref_redis :: redis_lib where
  "ref_redis = \<lparr>redis_ParseURL = (\<lambda>url. Inr \<lparr>opt_Addr = url, opt_DialTimeout = 0, opt_ReadTimeout = 0,
       opt_WriteTimeout = 0, opt_PoolSize = 0, opt_MinIdleConns = 0, opt_ConnMaxLifetime = 0, opt_ConnMaxIdleTime = 0\<rparr>),
     redis_Ping = (\<lambda>opt. None), redis_Close = (\<lambda>opt. None)\<rparr>"

definition ref_pgx :: pgx_lib where
  "ref_pgx = \<lparr>pgx_ParseConfig = (\<lambda>url. Inr \<lparr>pc_ConnString = url, pc_MaxConns = 4, pc_MinConns = 0,
       pc_MaxConnLifetime = Hour, pc_MaxConnIdleTime = 30 * Minute\<rparr>),
     pgx_NewWithConfig = (\<lambda>pc. None), pgx_Ping = (\<lambda>pc d. None)\<rparr>"

definition process1 :: process where
  "process1 = projr (main (\<lambda>path. Inr path) (\<lambda>defaults file. Inr config1) ref_validate ref_pgx ref_redis)"

definition container1 :: container where
  "container1 = pr_container process1"

definition ts1 :: tokenService where
  "ts1 = ct_authMW container1"

definition up :: "string \<Rightarrow> nat \<Rightarrow> exchange" where
  "up url n = Response 200"

lemma config1_valid: "validateConfig ref_validate config1"
  by (simp add: validateConfig_def validStruct_def config_tags_def worker_tags_def pool_tags_def config1_def setDefaults_def
      ref_validate_def)

lemma process1_main: "main (\<lambda>path. Inr path) (\<lambda>defaults file. Inr config1) ref_validate ref_pgx ref_redis = Inr process1"
  and container1: "ct_Scheduler container1 = \<lparr>sc_interval = Second, sc_batchSize = 10, sc_visibilityTimeout = 30 * Second\<rparr>"
  and ts1_token: "ts1 = \<lparr>ts_secret = ''k'', ts_tokenTTL = 30 * Minute\<rparr>"
proof -
  let ?m = "main (\<lambda>path. Inr path) (\<lambda>defaults file. Inr config1) ref_validate ref_pgx ref_redis"
  have l: "LoadConfig (\<lambda>path. Inr path) (\<lambda>defaults file. Inr config1) ref_validate ''env.yaml'' = Inr config1"
    by (simp add: LoadConfig_def config1_valid)
  obtain ct where ct: "NewContainer ref_redis config1 = Inr ct" "ct_Scheduler ct = NewScheduler (c_Scheduler config1)"
      "ct_authMW ct = NewTokenService (c_Auth config1)"
    by (simp add: NewContainer_def redis_New_def ref_redis_def chan_sizes_def config1_def)
  obtain p where p: "?m = Inr p" "pr_container p = ct"
    using ct(1) by (simp add: main_def l ConnectToDB_def ref_pgx_def)
  show "?m = Inr process1" using p by (simp add: process1_def)
  show "ct_Scheduler container1 = \<lparr>sc_interval = Second, sc_batchSize = 10, sc_visibilityTimeout = 30 * Second\<rparr>"
    "ts1 = \<lparr>ts_secret = ''k'', ts_tokenTTL = 30 * Minute\<rparr>"
    using p ct by (simp_all add: container1_def ts1_def process1_def NewScheduler_def NewTokenService_def config1_def)
qed

abbreviation reach1 :: "mem pipe \<Rightarrow> bool" where
  "reach1 \<equiv> reach ref_services ref_security ref_validate up container1 (calm mem1)"

text \<open>The signal arrives after the first tick has fetched its batch, and the shutdown begins.\<close>

definition fetching :: "mem pipe" where
  "fetching = (let (e1, r) = FetchAndMoveToInflight ref_services (100 * Second) 10 (30 * Second) (tick (calm mem1)) in
     (started container1 (calm mem1))\<lparr>s_world := e1, s_batch := [canonical_string id1]\<rparr>)"

definition closing :: "mem pipe" where
  "closing = fetching\<lparr>s_cancelled := True, s_phase := JobsClosed\<rparr>"

lemma fetching_step: "pstep ref_services ref_security ref_validate up container1 Feed (started container1 (calm mem1)) fetching"
proof -
  let ?s = "started container1 (calm mem1)"
  let ?run = "FetchAndMoveToInflight ref_services (100 * Second) 10 (30 * Second) (tick (calm mem1))"
  have s: "s_sched ?s" "s_batch ?s = []" "s_world ?s = calm mem1" "\<not> s_panic ?s"
    by (simp_all add: started_def StartResultProcessor_def)
  have "snd ?run = Inr [canonical_string id1]" by code_simp
  then have run: "?run = (fst ?run, Inr [canonical_string id1])" by (simp add: prod_eq_iff)
  have cfg: "sc_batchSize (ct_Scheduler container1) = 10" "sc_visibilityTimeout (ct_Scheduler container1) = 30 * Second"
    by (simp_all add: container1)
  have now: "time_now (s_world ?s) = (tick (calm mem1), 100 * Second)" unfolding s(3) by (simp add: time_now_def calm_def)
  have f: "fetching = ?s\<lparr>s_world := fst ?run, s_batch := case Inr [canonical_string id1] :: string list result of
      Inl _ \<Rightarrow> [] | Inr ms \<Rightarrow> ms\<rparr>"
    unfolding fetching_def by (subst run) simp
  show ?thesis unfolding f by (rule tick [OF s(1,2) now]) (simp only: cfg run [symmetric])
qed

lemma started_state:
  "\<not> s_panic (started c e)" "s_world (started c e) = e" "s_fail (started c e) = []"
  by (simp_all add: started_def StartResultProcessor_def)

lemma fetching_reached: "reach1 fetching"
  by (rule reach.step [OF reach.start started_state(1) fetching_step])

lemma fetching_ended: "reach_ended ref_services ref_security ref_validate up container1 (calm mem1) {} fetching"
  using reach_ended.step [OF reach_ended.start started_state(1) fetching_step]
  by (simp add: terminal_failures_def started_state)

lemma fetching_db: "db (s_world fetching) = tables1"
proof -
  let ?run = "FetchAndMoveToInflight ref_services (100 * Second) 10 (30 * Second) (tick (calm mem1))"
  have "typed ref_services (vw ref_services (tick (calm mem1)))" using typed_calm(2) by (simp add: vw_def tick_frame)
  from ref.Fetch_queue_frame [OF this prod.collapse [symmetric]] have "db (fst ?run) = db (tick (calm mem1))"
    by (simp add: queue_frame_def)
  then show ?thesis by (simp add: fetching_def case_prod_unfold tick_frame) (simp add: calm_def)
qed

lemma queued_calm: "queued (vw ref_services (calm mem1)) = {canonical_string id1, canonical_string id2}"
  by (auto simp: queued_def vw_calm zset_def vals_mem1)

lemma watched_calm: "watched ref_services {} (calm mem1)"
  unfolding watched_def queued_calm by (simp add: calm_def tables1_def row1_def row2_def ref_services_def)

lemma fetching_state:
  "s_sched fetching" "s_batch fetching = [canonical_string id1]" "s_phase fetching = Serving" "\<not> s_panic fetching"
  by (simp_all add: fetching_def started_def StartResultProcessor_def case_prod_unfold)

lemma closing_reached: "reach1 closing"
proof -
  let ?c = "fetching\<lparr>s_cancelled := True\<rparr>"
  have "reach1 ?c" using reach.step [OF fetching_reached fetching_state(4) signal] by simp
  then show ?thesis
    using reach.step [OF _ _ close_jobs, of ref_services ref_security ref_validate up container1 "calm mem1" ?c]
    by (simp add: closing_def fetching_state)
qed

lemma closing_state:
  "s_sched closing" "s_batch closing = [canonical_string id1]" "s_phase closing = JobsClosed" "\<not> s_panic closing"
  by (simp_all add: closing_def fetching_state)

lemma closing_panics:
  "pstep ref_services ref_security ref_validate up container1 Feed closing (closing\<lparr>s_panic := True\<rparr>)"
proof -
  have "uuid_parse ref_services (canonical_string id1) = Some id1"
    using ref.uu.parse_string by (simp add: ref_services_def)
  then show ?thesis by (rule send_closed [OF closing_state(1,2)]) (simp add: closing_state)
qed

section \<open>Requests\<close>

definition claims1 :: requestClaims where
  "claims1 = \<lparr>rc_UserID = canonical_string owner, rc_Email = ''ann@example.org'', rc_ExpiresAt = Some 1000, rc_IssuedAt = None\<rparr>"

definition request1 :: request where
  "request1 = \<lparr>rq_reqID = ''r'', rq_authorization = ''Bearer '' @ print_doc (ref_token HS256 ''k'' claims1),
     rq_monitorID = canonical_string id1, rq_limit = '''', rq_offset = '''', rq_body = NullBody, rq_user = None\<rparr>"

lemma request1_token: "ValidateAccessToken ref_security ts1 (print_doc (ref_token HS256 ''k'' claims1)) (calm mem0) =
    (tick (calm mem0), Inr claims1)"
proof -
  have "ascii_claims claims1" using ref.uu.ascii_string [of owner] by (simp add: ascii_claims_def claims1_def ref_services_def)
  then have "ref_open (print_doc (ref_token HS256 ''k'' claims1)) = Some (HS256, ''k'', claims1)"
    by (intro ref_open_print) (simp_all add: HS256_def)
  then show ?thesis
    by (simp add: ValidateAccessToken_def time_now_def ref_security_def token_key_def ts1_token
        unexpired_def claims1_def calm_def)
qed

lemma request1_handled:
  "Handle ref_services ref_security ts1 nxt request1 (calm mem0) =
     nxt (request1\<lparr>rq_user := Some \<lparr>au_UserID = owner, au_Email = ''ann@example.org''\<rparr>\<rparr>) (tick (calm mem0))"
proof -
  have t: "extractBearerToken request1 = Inr (print_doc (ref_token HS256 ''k'' claims1))" by code_simp
  have "canonical_parse (canonical_string owner) = Some owner" "canonical_string owner \<noteq> ''''"
    by code_simp+
  then show ?thesis by (simp add: Handle_def t request1_token) (simp add: claims1_def ref_services_def)
qed

lemma request1_answered:
  "rs_status (snd (RegisterRoutes ref_services ref_security ts1 ref_validate (Monitors GetMonitorsID) request1 (calm mem0))) = 200"
proof -
  let ?u = "\<lparr>au_UserID = owner, au_Email = ''ann@example.org''\<rparr>"
  have p: "uuid_parse ref_services (canonical_string id1) = Some id1" using ref.uu.parse_string by (simp add: ref_services_def)
  have "snd (GetMonitor ref_services owner id1 (tick (calm mem0))) = Inr (row_monitor row1)"
    by (simp add: GetMonitor_def getCachedMonitor_def GetMonitor_cache_def rcall_def calm_def ref_services_def tick_def
        mem_redis_def mem0_def repo_Get_def dcall_def getMonitor_sql_def tables1_def row1_def row2_def id1_def id2_def)
  then obtain e' where "GetMonitor ref_services owner id1 (tick (calm mem0)) = (e', Inr (row_monitor row1))"
    by (metis prod.collapse)
  then show ?thesis
    by (simp add: RegisterRoutes_def request1_handled monitor_Routes_def h_GetMonitor_def UserFromContext_def)
      (simp add: request1_def p)
qed

definition disable1 :: request where
  "disable1 = request1\<lparr>rq_body := ObjectBody [(''enable'', Plain (JBool False))],
     rq_user := Some \<lparr>au_UserID = owner, au_Email = ''ann@example.org''\<rparr>\<rparr>"

definition ben :: createUserCmd where
  "ben = \<lparr>cuc_Name = ''ben'', cuc_Email = ''ben@example.org'', cuc_PasswordHash = ''12345678''\<rparr>"

text \<open>The same request as the server hands it over, and a command to create a monitor.\<close>

definition get1 :: http_request where
  "get1 = \<lparr>hq_Method = ''GET'', hq_Path = ''/api/v1/monitors/1'', hq_XRequestID = '''', hq_request_id = None,
     hq_request = request1\<lparr>rq_reqID := ''''\<rparr>\<rparr>"

definition cmd1 :: createMonitorCmd where
  "cmd1 = \<lparr>cmc_UserID = owner, cmc_Url = ''https://example.org/a'', cmc_IntervalSec = 60, cmc_TimeoutSec = 120,
     cmc_LatencyThresholdMs = 500, cmc_ExpectedStatus = 200, cmc_AlertEmail = ''''\<rparr>"

lemma quota_inv_calm: "quota_inv (calm mem0, [])"
  by (simp add: quota_inv_def owners_ok_def count_covers_def owns_def reserved_def quota_used_def calm_def)
    (simp add: tables1_def user1_def row1_def row2_def)

end
