(* ===== verification/Spec2Isabelle.thy ===== *)
theory Spec2Isabelle
  imports Examples
begin

text \<open>
  Verification of the uptime monitor in \<^verbatim>\<open>src/\<close>, a Go service: users register URLs over an HTTP
  API; a scheduler takes the monitors that are due from a sorted set in Redis, a pool of workers
  checks them, a result processor keeps counters, incidents and alerts, and each handled result
  schedules the next run. PostgreSQL holds users, monitors and incidents; Redis holds the
  schedule, the jobs in flight, the cached monitors, the counters and the last status.

  \<^bold>\<open>The outside.\<close> Redis, PostgreSQL's delivery, the network, the clock, random numbers and the
  third-party packages are not part of the repository. \<open>Redis_Server\<close>, \<open>Uuid_Codec\<close>,
  \<open>Json_Codec\<close>, \<open>Security\<close> and \<open>Validator\<close> pass them as parameters and state in a locale
  each (\<open>redis_server\<close>, \<open>uuid_codec\<close>, \<open>json_codec\<close>, \<open>security_ok\<close>, \<open>validator_tags\<close>) what the
  code relies on; each locale is interpreted on a concrete instance, and \<open>monit\<close> and \<open>api\<close>
  collect them. \<open>World\<close> has the state an operation runs in (\<open>env\<close>): the Redis state, the tables,
  and oracles that give the clock, the fate of the \<open>n\<close>-th call (delivered, never sent, carried
  out with its answer lost), cancellation and new identifiers. A theorem without \<open>reliable\<close>
  or \<open>live\<close> in its hypotheses holds for every such fate.

  \<^bold>\<open>The components\<close>, in the order of their theories:
  \<^item> \<open>Prelude\<close>: machine integers, instants, decimal text. \<open>Go_Errors\<close>: \<^verbatim>\<open>pkg/apperror\<close>,
    \<^verbatim>\<open>pkg/utils/errorbuilder.go\<close>.
  \<^item> \<open>World\<close>: \<^verbatim>\<open>pkg/redisstore/retry.go\<close>. \<open>Redis_Store\<close>: the other files of \<^verbatim>\<open>pkg/redisstore\<close> and the
    Lua scripts of the scheduler; \<open>Redis_Laws\<close> and \<open>Incident_Laws\<close>: the effect of each operation.
  \<^item> \<open>Database\<close>: \<^verbatim>\<open>pkg/db\<close>, with the constraints of the migrations, and \<^verbatim>\<open>pkg/utils/converters.go\<close>;
    \<open>Alerts\<close>: the statements on the alerts, which no code calls yet.
  \<^item> \<open>Scheduler\<close>: \<^verbatim>\<open>internals/modules/scheduler\<close>, with the select on the job channel; \<open>Scheduler_Laws\<close>:
    what a tick moves and keeps; \<open>Scheduler_Versions\<close>: the two versions of the tick run in step.
  \<^item> \<open>Monitor_Service\<close>: \<^verbatim>\<open>internals/modules/monitor\<close> without its handlers; \<open>Monitor_Laws\<close> and
    \<open>Monitor_Ops\<close>: the invariant \<open>service_inv\<close> (typed keys, consistent tables, quota, and a cache
    that agrees with the rows) and each operation against it; \<open>Creation\<close>: any number of requests that
    create monitors, one statement at a time.
  \<^item> \<open>User_Repository\<close>, \<open>User_Service\<close>: \<^verbatim>\<open>internals/modules/user\<close> without its handlers. \<open>Security\<close>:
    \<^verbatim>\<open>internals/security\<close>.
  \<^item> \<open>Executor\<close>: \<^verbatim>\<open>internals/modules/executor\<close>. \<open>Result\<close>: \<^verbatim>\<open>internals/modules/result\<close> and
    \<^verbatim>\<open>internals/modules/alert\<close>; \<open>Result_Laws\<close>: its handlers in every environment; \<open>Failure_Policy\<close>:
    the abstract state machine per monitor that the failure worker refines.
  \<^item> \<open>Validator\<close>, \<open>Configuration\<close>: the validation tags, \<^verbatim>\<open>config/models.go\<close>, \<^verbatim>\<open>config/loader.go\<close>.
  \<^item> \<open>Http\<close>: \<^verbatim>\<open>pkg/utils/response.go\<close>, the decoding of bodies, \<^verbatim>\<open>internals/middleware/authentication.go\<close>
    and \<^verbatim>\<open>authorization.go\<close>; \<open>Api\<close>: the \<^verbatim>\<open>dto.go\<close>, \<^verbatim>\<open>handler.go\<close> and \<^verbatim>\<open>routes.go\<close> of both modules
    and the mounts of \<^verbatim>\<open>internals/app/router.go\<close>; \<open>Api_Laws\<close>: what a request can see and change;
    \<open>Middleware\<close>: the other files of \<^verbatim>\<open>internals/middleware\<close> and the chain in front of the routes.
  \<^item> \<open>Container\<close>: the constructors and \<^verbatim>\<open>NewContainer\<close> of \<^verbatim>\<open>internals/app/container.go\<close>, with
    \<^verbatim>\<open>pkg/redisstore/client.go\<close> and \<^verbatim>\<open>pkg/httpclient\<close>. \<open>Startup\<close>: \<^verbatim>\<open>cmd/api/main.go\<close> up to the running
    process, with \<^verbatim>\<open>pkg/db/dbConn.go\<close>, \<^verbatim>\<open>pkg/logger\<close> and \<^verbatim>\<open>internals/server\<close>.
  \<^item> \<open>Pipeline\<close>: the goroutines that \<^verbatim>\<open>main\<close> starts on a container, the channels and \<^verbatim>\<open>Shutdown\<close>, as a step
    relation \<open>pstep\<close> over the definitions above, with the reachable states \<open>reach\<close>; \<open>Pipeline_Laws\<close>:
    its invariants; \<open>Drain\<close>: the shutdown ends; \<open>Queue_Laws\<close> and \<open>Watching\<close>: what the operations and the
    running system take off the queues.
  \<^item> \<open>Examples\<close>: concrete worlds, requests and runs for the closed examples.

  \<^bold>\<open>What is shown\<close> (this theory): of the running system, that its invariant holds in every reachable
  state, that no enabled monitor drops out of the queues but by a terminal failure, that the
  shutdown drains the pipeline and ends, who can panic, when the process comes up and what it
  logs; of the schedule, that no tick, reclaim or fault loses a job and what exactly is moved; of the results, that the
  failure worker follows its policy, that one outage gives one alert and that a success ends it;
  of the monitor service, isolation between users, persistence, the quota under any interleaving,
  and the cache; of requests and
  logins, that only the user of a valid token is served and only with own data; of the executor
  and the Redis client, verdicts, classification, bounded retries and idempotence. The last section
  states behaviours that users of the code should know of; they hold of the code as it is.

  \<^bold>\<open>Bounds and fuel.\<close> No definition uses fuel: loops over lists are structural, and \<open>retry_loop\<close>
  terminates by the attempts left. The run loops of the scheduler and the reclaimer take the list of
  events that wake them, and the system is a step relation, so that arbitrarily long runs are
  covered; \<open>pending\<close> bounds the steps that are left of a shutdown. 32-bit fields are words;
  durations and instants are unbounded integers of nanoseconds, and C24 shows that the one
  product of the code that could overflow does not.

  \<^bold>\<open>Interleaving.\<close> A step of \<open>pstep\<close> runs one handler, tick or request as a whole; between steps any
  goroutine may go on. Calls of other goroutines between two calls of one handler are not covered,
  except for the creation of monitors, which \<open>Creation\<close> takes apart.
  The fates of the calls are not tied to the signal: they include those after the context has
  been cancelled.

  \<^bold>\<open>Not modelled.\<close> What the packages \<^verbatim>\<open>pgxpool\<close>, \<^verbatim>\<open>go-redis\<close>, \<^verbatim>\<open>net/http\<close>, \<^verbatim>\<open>chi\<close>, \<^verbatim>\<open>viper\<close> and \<^verbatim>\<open>validator\<close> do:
  they are parameters, and the settings that the code passes to them are modelled. The generated
  wrapper \<^verbatim>\<open>pkg/db/db.go\<close>. The bytes of JSON texts and HTTP messages, and the choice of a route by
  method and path. Log lines other than the access log, and stack traces. \<^verbatim>\<open>NewUUID\<close> of
  \<^verbatim>\<open>internals/security\<close>, which nothing calls.
\<close>

section \<open>The running system\<close>



text \<open>
  C2: in every reachable state every Redis key of the program holds a value of the type that its
  commands expect, or nothing: no command of the program is ever refused with WRONGTYPE.
\<close>

theorem system_typed:
  assumes "api x sec validate" and "service_inv x e" and "reach x sec validate http c e s"
  shows "typed x (vw x (s_world s))"
  using api.reach_data_inv [OF assms(1,3,2)] by (simp add: data_inv_def service_inv_def)

theorem system_typed_witness:
  "is_zset (vw ref_services (s_world closing)) scheduleKey \<and> is_zset (vw ref_services (s_world closing)) inflightKey"
  using system_typed [OF ref_api.api_axioms service_inv_calm(2) closing_reached] by (simp add: typedD)

text \<open>
  C3: the running system loses no job: if a step takes a monitor off both the schedule and the
  in-flight set, that step has finished the handling of a result of this very monitor, and if
  the calls are delivered that result was a terminal failure (an invalid request or a DNS failure).
  No request, tick, reclaim, expiring key or check takes a job off, whatever happens to its calls.
\<close>

theorem system_keeps_jobs:
  assumes "api x sec validate" and "service_inv x e" and "reach x sec validate http c e s"
    and "pstep x sec validate http c l s s'" and "m \<in> queued (vw x (s_world s))"
  shows "m \<in> queued (vw x (s_world s')) \<or> (\<exists>r \<in> finishing s s'. uuid_string x (hr_MonitorID r) = m \<and>
    (reliable (s_world s) \<longrightarrow> r \<in> terminal_failures s s'))"
  using api.step_keeps_job [OF assms(1) api.reach_data_inv [OF assms(1,3,2)] reach_alerting_inv [OF assms(3)] assms(4,5)]
  by blast

theorem system_keeps_jobs_witness:
  "canonical_string id2 \<in> queued (vw ref_services (s_world fetching))"
  using system_keeps_jobs [OF ref_api.api_axioms service_inv_calm(2) reach.start fetching_step, of "canonical_string id2"]
  by (simp add: started_state queued_calm ref_service_simps terminal_failures_def)

text \<open>
  C4: no enabled monitor is forgotten: when the calls are delivered and every enabled monitor is
  scheduled or in flight at the start, this is so in every reachable state, also of the monitors
  that have been created or enabled since, except for those with a check that ended in a terminal failure.
\<close>

theorem enabled_monitors_stay_queued:
  assumes "api x sec validate" and "service_inv x e" and "reliable e" and "watched x {} e"
    and "reach_ended x sec validate http c e D s"
  shows "\<forall>row \<in> set (monitors (db (s_world s))). m_Enabled row \<longrightarrow>
    m_ID row \<in> D \<or> uuid_string x (m_ID row) \<in> queued (vw x (s_world s))"
  using api.reach_watched [OF assms(1,5,2,3,4)] by (simp add: watched_def)

theorem enabled_monitors_stay_queued_witness:
  "canonical_string id1 \<in> queued (vw ref_services (s_world fetching))"
  using enabled_monitors_stay_queued [OF ref_api.api_axioms service_inv_calm(2) reliable_calm watched_calm fetching_ended]
  by (simp add: ref_service_simps fetching_db tables1_def row1_def)



text \<open>
  C6: no goroutine but the scheduler's ever sends on a closed channel: a step that panics is the
  scheduler's, which still has a batch after the shutdown has begun.
\<close>

theorem only_scheduler_panics:
  assumes "reach x sec validate http c e s" and "\<not> s_panic s"
    and "pstep x sec validate http c l s s'" and "s_panic s'"
  shows "s_sched s \<and> s_batch s \<noteq> [] \<and> s_phase s \<noteq> Serving \<and> l = Feed"
  using panic_cause [OF assms(3) _ assms(2,4)] reach_pipe_inv [OF assms(1)] by (simp add: pipe_inv_def)

theorem only_scheduler_panics_witness: "s_sched closing \<and> s_batch closing \<noteq> [] \<and> s_phase closing \<noteq> Serving"
  using only_scheduler_panics [OF closing_reached closing_state(4) closing_panics] by simp



text \<open>
  C8: of every request one line is logged, with its method, its path and the status that was
  answered, and the response carries the id the request was given; but the line never does: the
  logger stands in front of the middleware that gives the ids, so its field is empty.
\<close>

theorem log_lacks_request_id:
  assumes "served x sec ts validate reqid written rt q e = (e', resp, evs)" and "rq_reqID (hq_request q) = ''''"
  shows "(\<exists>d. evs = [Logged \<lparr>lo_request_id = '''', lo_method = hq_Method q, lo_path = hq_Path q,
      lo_status = rs_status resp, lo_bytes = written resp, lo_duration = d\<rparr>]) \<and>
    response_id resp = reqid q (Suc (ticks e))"
  using assms(1)
proof (rule served_route)
  fix e2 d
  assume "RegisterRoutes x sec ts validate rt ((hq_request q)\<lparr>rq_reqID := reqid q (Suc (ticks e))\<rparr>) (tick e) = (e2, resp)"
    "evs = [Logged \<lparr>lo_request_id = rq_reqID (hq_request q), lo_method = hq_Method q, lo_path = hq_Path q,
       lo_status = rs_status resp, lo_bytes = written resp, lo_duration = d\<rparr>]"
  then show ?thesis
    using RegisterRoutes_id [of x sec ts validate rt "(hq_request q)\<lparr>rq_reqID := reqid q (Suc (ticks e))\<rparr>" "tick e"] assms(2) by simp
qed

theorem log_lacks_request_id_witness:
  "\<exists>st n d. snd (snd (served ref_services ref_security ts1 ref_validate (\<lambda>q n. ''host-1'') (\<lambda>_. 0) (Monitors GetMonitorsID)
      get1 (calm mem0))) = [Logged \<lparr>lo_request_id = '''', lo_method = ''GET'', lo_path = ''/api/v1/monitors/1'',
        lo_status = st, lo_bytes = n, lo_duration = d\<rparr>]"
proof -
  let ?run = "served ref_services ref_security ts1 ref_validate (\<lambda>q n. ''host-1'') (\<lambda>_. 0) (Monitors GetMonitorsID) get1 (calm mem0)"
  have "?run = (fst ?run, fst (snd ?run), snd (snd ?run))" by simp
  from log_lacks_request_id [OF this] show ?thesis by (simp add: get1_def) blast
qed

section \<open>The schedule and the jobs in flight\<close>

text \<open>
  C9: a fetch that is answered (\<^verbatim>\<open>FetchAndMoveToInflight\<close> with its Lua script) returns distinct
  monitors, all due, in the order of their scores, no more than the limit and all due ones if
  there are fewer; exactly these have left the schedule and are in flight until the time of the
  fetch plus the visibility timeout, and no other key has changed.
\<close>

theorem fetch_moves_due_jobs:
  assumes "monit x" and "typed x (vw x e)" and "0 \<le> limit"
    and "FetchAndMoveToInflight x now limit vt e = (e', Inr items)"
  shows "distinct items \<and> set items \<subseteq> due (zset (vw x e) scheduleKey) (UnixMilli now) \<and>
    sorted (map (\<lambda>m. the (zset (vw x e) scheduleKey m)) items) \<and> length items \<le> nat limit \<and>
    (length items < nat limit \<longrightarrow> set items = due (zset (vw x e) scheduleKey) (UnixMilli now)) \<and>
    zset (vw x e') scheduleKey = zset (vw x e) scheduleKey |` (- set items) \<and>
    zset (vw x e') inflightKey = (\<lambda>m. if m \<in> set items then Some (UnixMilli now + Milliseconds vt)
       else zset (vw x e) inflightKey m) \<and>
    touches {scheduleKey, inflightKey} (vw x e) (vw x e')"
proof -
  have f: "fetched now limit vt items (vw x e) (vw x e')"
    using monit.FetchAndMoveToInflight_result(1) [OF assms(1,2,4)] by simp
  then have z: "zrange_ok (zset (vw x e) scheduleKey) (UnixMilli now) limit items" by (simp add: fetched_def)
  note fd = fetchedD [OF f monit.keys_differ(1) [OF assms(1)]]
  show ?thesis using zrange_okD [OF z] zrange_ok_complete [OF z] assms(3) fd(3-5) by blast
qed

theorem fetch_moves_due_jobs_witness:
  "\<exists>e' items. FetchAndMoveToInflight ref_services (5 * Second) 10 (30 * Second) (calm mem1) = (e', Inr items) \<and>
     items = [canonical_string id1] \<and>
     zset (vw ref_services e') inflightKey (canonical_string id1) = Some 35000"
proof -
  let ?run = "FetchAndMoveToInflight ref_services (5 * Second) 10 (30 * Second) (calm mem1)"
  have i: "snd ?run = Inr [canonical_string id1]" by code_simp
  then have "?run = (fst ?run, Inr [canonical_string id1])" by (simp add: prod_eq_iff)
  from fetch_moves_due_jobs [OF ref.monit_axioms typed_calm(2) _ this]
  have "zset (vw ref_services (fst ?run)) inflightKey (canonical_string id1) =
      Some (UnixMilli (5 * Second) + Milliseconds (30 * Second))" by auto
  moreover have "UnixMilli (5 * Second) + Milliseconds (30 * Second) = 35000" by code_simp
  ultimately show ?thesis using i by (metis prod.collapse)
qed

text \<open>
  C10: the scheduler loses no job: over any number of ticks, with calls failing, answers lost,
  the context cancelled or the channel closed at any point, a monitor that was in the schedule
  or in flight still is in one of them, nothing new appears, no other key and no table changes,
  and the channel never holds more than its capacity.
\<close>

theorem scheduler_loses_nothing:
  assumes "monit x" and "typed x (vw x e)" and "Scheduler_Run x orc sc evs ch e = (e', ch', sent, en)"
  shows "queued (vw x e') = queued (vw x e) \<and> typed x (vw x e') \<and>
    touches {scheduleKey, inflightKey} (vw x e) (vw x e') \<and> db e' = db e \<and>
    (length (buf ch) \<le> cap ch \<longrightarrow> length (buf ch') \<le> cap ch')"
proof (cases "sc_interval sc \<le> 0")
  case True
  with assms(2,3) show ?thesis by (auto simp: Scheduler_Run_def)
next
  case False
  with assms(3) have "sched_loop x orc sc evs ch e = (e', ch', sent, en)" by (simp add: Scheduler_Run_def)
  from monit.sched_loop_queue_frame [OF assms(1,2) this] show ?thesis
    by (simp add: queue_frame_def within_cap_def)
qed

theorem scheduler_loses_nothing_witness:
  "\<exists>e' ch'. Scheduler_Run ref_services idle_oracle sched1 [Ticked, Ticked, Stopped] \<lparr>cap = 2, buf = []\<rparr> (calm mem1) =
     (e', ch', [JobPayload id1], Returned) \<and> canonical_string id1 \<in> queued (vw ref_services e')"
proof -
  let ?run = "Scheduler_Run ref_services idle_oracle sched1 [Ticked, Ticked, Stopped] \<lparr>cap = 2, buf = []\<rparr> (calm mem1)"
  have s: "snd (snd ?run) = ([JobPayload id1], Returned)" by code_simp
  then have "?run = (fst ?run, fst (snd ?run), [JobPayload id1], Returned)" by (simp add: prod_eq_iff)
  moreover from scheduler_loses_nothing [OF ref.monit_axioms typed_calm(2) this]
  have "queued (vw ref_services (fst ?run)) = queued (vw ref_services (calm mem1))" by blast
  moreover have "zset (vw ref_services (calm mem1)) scheduleKey (canonical_string id1) = Some 1000" by code_simp
  ultimately show ?thesis unfolding queued_def by (metis UnI1 domI)
qed

text \<open>
  C11: every job a tick sends stems from a monitor that was due in the schedule; that monitor is
  now in flight with the visibility deadline and no longer scheduled, so no second instance can
  fetch it before the deadline.
\<close>

theorem tick_sends_due_jobs:
  assumes "monit x" and "typed x (vw x e)"
    and "doWorkWithReliability x orc sc ch e = (e', ch', sent, en)" and "j \<in> set sent"
  shows "\<exists>m. uuid_parse x m = Some (job_MonitorID j) \<and>
    m \<in> due (zset (vw x e) scheduleKey) (UnixMilli (clock e (ticks e))) \<and>
    zset (vw x e') scheduleKey m = None \<and>
    zset (vw x e') inflightKey m = Some (UnixMilli (clock e (ticks e)) + Milliseconds (sc_visibilityTimeout sc))"
  by (rule monit.doWork_sent [OF assms])

theorem tick_sends_due_jobs_witness:
  "\<exists>m. canonical_parse m = Some id1 \<and> zset (vw ref_services (fst (doWorkWithReliability ref_services idle_oracle
     sched1 \<lparr>cap = 2, buf = []\<rparr> (calm mem1)))) inflightKey m = Some 130000"
proof -
  let ?run = "doWorkWithReliability ref_services idle_oracle sched1 \<lparr>cap = 2, buf = []\<rparr> (calm mem1)"
  have "fst (snd (snd ?run)) = [JobPayload id1]" by code_simp
  then have "JobPayload id1 \<in> set (fst (snd (snd ?run)))" by simp
  from tick_sends_due_jobs [OF ref.monit_axioms typed_calm(2) _ this, of idle_oracle sched1 "\<lparr>cap = 2, buf = []\<rparr>"
      "fst ?run" "fst (snd ?run)" "snd (snd (snd ?run))"]
  obtain m where "uuid_parse ref_services m = Some id1"
    "zset (vw ref_services (fst ?run)) inflightKey m =
       Some (UnixMilli (clock (calm mem1) (ticks (calm mem1))) + Milliseconds (sc_visibilityTimeout sched1))"
    by auto
  moreover have "UnixMilli (clock (calm mem1) (ticks (calm mem1))) + Milliseconds (sc_visibilityTimeout sched1) = 130000"
    by code_simp
  ultimately show ?thesis by (auto simp: ref_services_def)
qed



text \<open>
  C13: reclaiming that is answered moves expired jobs back: the count it reports is the number of
  monitors moved, each was in flight with a deadline not after now, is scheduled for now and no
  longer in flight, and all expired ones are moved if there are fewer than the limit.
\<close>

theorem reclaim_moves_expired_jobs:
  assumes "monit x" and "typed x (vw x e)" and "0 \<le> limit" and "ReclaimMonitors x now limit e = (e', Inr count)"
  shows "\<exists>items. count = int (length items) \<and> distinct items \<and> length items \<le> nat limit \<and>
    set items \<subseteq> due (zset (vw x e) inflightKey) (UnixMilli now) \<and>
    (length items < nat limit \<longrightarrow> set items = due (zset (vw x e) inflightKey) (UnixMilli now)) \<and>
    zset (vw x e') inflightKey = zset (vw x e) inflightKey |` (- set items) \<and>
    zset (vw x e') scheduleKey = (\<lambda>m. if m \<in> set items then Some (UnixMilli now) else zset (vw x e) scheduleKey m) \<and>
    touches {scheduleKey, inflightKey} (vw x e) (vw x e')"
proof -
  obtain items where n: "count = int (length items)" and f: "reclaimed now limit items (vw x e) (vw x e')"
    using monit.ReclaimMonitors_result(1) [OF assms(1,2,4)] by auto
  then have z: "zrange_ok (zset (vw x e) inflightKey) (UnixMilli now) limit items" by (simp add: reclaimed_def)
  note rd = reclaimedD [OF f monit.keys_differ(2) [OF assms(1)]]
  show ?thesis using n zrange_okD [OF z] zrange_ok_complete [OF z] assms(3) rd(3-5) by blast
qed

theorem reclaim_moves_expired_jobs_witness:
  "\<exists>items. set items \<subseteq> due (zset (vw ref_services (calm mem1)) inflightKey) 100000 \<and> length items = 1 \<and>
     zset (vw ref_services (fst (ReclaimMonitors ref_services (100 * Second) 10 (calm mem1)))) scheduleKey =
       (\<lambda>m. if m \<in> set items then Some 100000 else zset (vw ref_services (calm mem1)) scheduleKey m)"
proof -
  let ?run = "ReclaimMonitors ref_services (100 * Second) 10 (calm mem1)"
  have "snd ?run = Inr 1" by code_simp
  then have "?run = (fst ?run, Inr 1)" by (simp add: prod_eq_iff)
  from reclaim_moves_expired_jobs [OF ref.monit_axioms typed_calm(2) _ this]
  obtain items where i: "(1 :: int) = int (length items)"
    "set items \<subseteq> due (zset (vw ref_services (calm mem1)) inflightKey) (UnixMilli (100 * Second))"
    "zset (vw ref_services (fst ?run)) scheduleKey =
      (\<lambda>m. if m \<in> set items then Some (UnixMilli (100 * Second)) else zset (vw ref_services (calm mem1)) scheduleKey m)"
    by auto
  have t: "UnixMilli (100 * Second) = 100000" by code_simp
  from i(1) have "length items = 1" by simp
  with i(2,3) [unfolded t] show ?thesis by blast
qed

text \<open>
  C14: the two versions of the tick agree: in every environment \<^verbatim>\<open>doWork\<close> sends the same jobs, leaves
  the same channel, schedule and other keys and ends in the same way as \<^verbatim>\<open>doWorkWithReliability\<close>; they
  differ in the jobs in flight only, which \<^verbatim>\<open>doWork\<close> leaves alone.
\<close>

theorem scheduler_versions_agree:
  assumes "monit x" and "typed x (vw x e)"
    and "Scheduler_doWork x orc sc ch e = (e1, ch1, sent1, en1)"
    and "doWorkWithReliability x orc sc ch e = (e2, ch2, sent2, en2)"
  shows "(ch1, sent1, en1) = (ch2, sent2, en2) \<and> zset (vw x e1) scheduleKey = zset (vw x e2) scheduleKey \<and>
    touches {inflightKey} (vw x e1) (vw x e2) \<and> e2 = e1\<lparr>kv := kv e2\<rparr> \<and>
    zset (vw x e1) inflightKey = zset (vw x e) inflightKey"
proof -
  note v = monit.doWork_versions [OF assms]
  then have t: "touches {inflightKey} (vw x e1) (vw x e2)" by (simp add: alike_def)
  have "zset (vw x e2) scheduleKey = zset (vw x e1) scheduleKey"
    using touches_views(2) [OF t, of scheduleKey] monit.keys_differ(1) [OF assms(1)] by simp
  with v show ?thesis by (simp add: alike_def)
qed

theorem scheduler_versions_agree_witness:
  "fst (snd (snd (Scheduler_doWork ref_services idle_oracle sched1 \<lparr>cap = 2, buf = []\<rparr> (calm mem1)))) = [JobPayload id1]"
proof -
  let ?ch = "\<lparr>cap = 2, buf = []\<rparr>"
  let ?a = "Scheduler_doWork ref_services idle_oracle sched1 ?ch (calm mem1)"
    and ?b = "doWorkWithReliability ref_services idle_oracle sched1 ?ch (calm mem1)"
  have "?a = (fst ?a, fst (snd ?a), fst (snd (snd ?a)), snd (snd (snd ?a)))"
    "?b = (fst ?b, fst (snd ?b), fst (snd (snd ?b)), snd (snd (snd ?b)))" by simp_all
  from scheduler_versions_agree [OF ref.monit_axioms typed_calm(2) this]
  have "fst (snd (snd ?a)) = fst (snd (snd ?b))" by blast
  also have "fst (snd (snd ?b)) = [JobPayload id1]" by code_simp
  finally show ?thesis .
qed

section \<open>Failures, alerts and recovery\<close>

definition timeout_result :: "uuid \<Rightarrow> hTTPResult" where
  "timeout_result u = \<lparr>hr_MonitorID = u, hr_Success = False, hr_Status = 0, hr_LatencyMs = 0, hr_Reason = ''TIMEOUT'',
     hr_Retryable = True, hr_CheckedAt = 0, hr_IntervalSec = 60, hr_AlertEmail = ''''\<rparr>"

text \<open>
  C15: the failure worker implements the failure policy: with its calls delivered, the retry
  counter, the failure counter and the alert mark change as the policy says, an alert is sent
  exactly when the policy asks for one, the job is no longer in flight, and the monitor is next
  run never (malformed request, DNS failure), in five seconds (up to two retries of a transient
  failure) or after the result's interval.
\<close>

theorem failure_follows_policy:
  assumes "monit x" and "live x e" and "tracks x u (vw x e) t" and "countable t" and "hr_MonitorID r = u"
    and "policy (verdict_of r) t = (t', nr, a)"
  shows "\<exists>e'. handleFailure x r e = (e', if a then [AlertEvent u] else []) \<and> tracks x u (vw x e') t' \<and>
    zset (vw x e') inflightKey (uuid_string x u) = None \<and>
    next_at x u (hr_IntervalSec r) nr (clock e) (vw x e) (vw x e')"
  using monit.handleFailure_live [OF assms] by blast

theorem failure_follows_policy_witness:
  "\<exists>e'. handleFailure ref_services (timeout_result id1) (calm mem0) = (e', []) \<and>
     tracks ref_services id1 (vw ref_services e') (fresh\<lparr>tr_retry := 1\<rparr>) \<and>
     next_at ref_services id1 60 Soon (clock (calm mem0)) (vw ref_services (calm mem0)) (vw ref_services e')"
proof -
  have "countable fresh" by (simp add: countable_def fresh_def in_int64_def)
  moreover have "policy (verdict_of (timeout_result id1)) fresh = (fresh\<lparr>tr_retry := 1\<rparr>, Soon, False)"
    by (simp add: policy_def verdict_of_def timeout_result_def fresh_def)
  ultimately show ?thesis
    using failure_follows_policy [OF ref.monit_axioms live_calm(1) tracks_calm, where r = "timeout_result id1" and u = id1]
    by (auto simp: timeout_result_def)
qed



text \<open>
  C17: a success ends the outage: with its calls delivered, both counters and the alert mark are
  cleared, the status is stored, the job is no longer in flight and the monitor is scheduled
  after the result's interval.
\<close>

theorem success_ends_outage:
  assumes "monit x" and "live x e" and "hr_MonitorID r = u"
  shows "tracks x u (vw x (handleSuccess x r e)) fresh \<and>
    zset (vw x (handleSuccess x r e)) inflightKey (uuid_string x u) = None \<and>
    (\<exists>n. zset (vw x (handleSuccess x r e)) scheduleKey (uuid_string x u) =
       Some (UnixMilli (clock e n + sint (hr_IntervalSec r) * Second))) \<and>
    hash (vw x (handleSuccess x r e)) (statusKey x u) ''status_code'' = Some (decimal (hr_Status r))"
  using monit.handleSuccess_live [OF assms] by (simp add: next_at_def)

theorem success_ends_outage_witness:
  "zset (vw ref_services (handleSuccess ref_services (timeout_result id2) (calm mem1))) inflightKey
     (uuid_string ref_services id2) = None \<and>
   tracks ref_services id2 (vw ref_services (handleSuccess ref_services (timeout_result id2) (calm mem1))) fresh"
proof -
  have "hr_MonitorID (timeout_result id2) = id2" by (simp add: timeout_result_def)
  from success_ends_outage [OF ref.monit_axioms live_calm(2) this] show ?thesis by blast
qed

section \<open>The monitor service\<close>



text \<open>
  C19: a status change that is reported done has been persisted, whatever happened to the other
  calls: the monitor exists and is the caller's, its row (and no other) has the requested flag,
  only the keys of this monitor and the schedule may have changed, and the invariant is kept
  also when an error is reported.
\<close>

theorem status_change_persisted:
  assumes "monit x" and "service_inv x e" and "UpdateMonitorStatus x userID monitorID enable e = (e', r)"
  shows "service_inv x e' \<and> touches (disabled_keys x monitorID) (vw x e) (vw x e') \<and>
    (\<forall>b. r = Inr b \<longrightarrow> b \<and>
      (\<exists>row \<in> set (monitors (db e)). m_ID row = monitorID \<and> m_UserID row = userID) \<and>
      monitors (db e') = map (\<lambda>row. if m_ID row = monitorID \<and> m_UserID row = userID
        then row\<lparr>m_Enabled := enable\<rparr> else row) (monitors (db e)))"
  using monit.UpdateMonitorStatus_result [OF assms]
  by (auto simp: updateMonitorStatus_sql_def set_enabled_def [abs_def])

theorem status_change_persisted_witness:
  "service_inv ref_services (fst (UpdateMonitorStatus ref_services owner id1 False (calm mem1)))"
  using status_change_persisted [OF ref.monit_axioms service_inv_calm(2) prod.collapse [symmetric]] by blast




definition cmd1 :: createMonitorCmd where
  "cmd1 = \<lparr>cmc_UserID = owner, cmc_Url = ''https://example.net/'', cmc_IntervalSec = 90, cmc_TimeoutSec = 120,
     cmc_LatencyThresholdMs = 100, cmc_ExpectedStatus = 204, cmc_AlertEmail = ''a@example.net''\<rparr>"


text \<open>
  C22: the quota holds under any interleaving: with any number of requests to create monitors in
  progress, their statements in any order among each other and among all other statements, and
  any calls failing or losing their answers, no user ever owns more than ten monitors, counting
  the requests that have been counted and not yet inserted, provided the counts covered the
  monitors at the start.
\<close>

theorem quota_under_interleaving:
  assumes "monit x" and "quota_inv (e, [])" and "(creating x)\<^sup>*\<^sup>* (e, []) (e', cs)"
  shows "owns (db e') user + reserved cs user \<le> 10 \<and> within_quota (db e')"
  using quota_inv_run [OF assms(3,2,1)] quota_inv_bound [of e' cs user] by (simp add: quota_inv_def)

theorem quota_under_interleaving_witness:
  "owns (db (fst (CreateMonitor ref_services cmd1 (calm mem0)))) owner \<le> 10"
  using quota_under_interleaving [OF ref.monit_axioms quota_inv_calm CreateMonitor_creating, of cmd1 owner] by simp

text \<open>
  C23: the cache round trip: a monitor with ASCII texts that is cached with the calls delivered is
  read back unchanged, and its key lives for 24 hours.
\<close>

theorem cache_round_trip:
  fixes e :: "'k world"
  assumes "monit x" and "live x e" and "ascii_monitor m"
  shows "\<exists>e'. cacheMonitor x m e = (e', None) \<and> snd (getCachedMonitor x (mon_ID m) e') = Inr m \<and>
    ttls (vw x e') (monitorKey (uuid_string x (mon_ID m))) = Some (24 * Hour)"
proof -
  let ?i = "uuid_string x (mon_ID m)" and ?d = "json_encode x (marshal_monitor x m)"
  let ?e' = "fst (cacheMonitor x m e)"
  note ap = appliedD [OF monit.SetMonitor_applied [OF assms(1), of ?i "24 * Hour" ?d e], folded cacheMonitor_def]
  have v: "vw x ?e' = put_ttl (monitorKey ?i) (24 * Hour) (put_str (monitorKey ?i) ?d (vw x e))"
    and ok: "snd (cacheMonitor x m e) = None" and rel: "reliable ?e'"
    using ap(3,5,6) assms(2) by (auto simp: live_def intro: reliable_later)
  obtain e'' r where g: "getCachedMonitor x (mon_ID m) ?e' = (e'', r)" by (cases "getCachedMonitor x (mon_ID m) ?e'")
  then have "snd (getCachedMonitor x (mon_ID m) ?e') = unmarshal_monitor x ?d"
    using monit.getCachedMonitor_result(5) [OF assms(1) g rel, of ?d] by (simp add: v)
  then have "snd (getCachedMonitor x (mon_ID m) ?e') = Inr m"
    using monit.unmarshal_marshal [OF assms(1,3)] by simp
  moreover have "ttls (vw x ?e') (monitorKey ?i) = Some (24 * Hour)" by (simp add: v put_ttl_def)
  ultimately show ?thesis using ok by (metis prod.collapse)
qed

theorem cache_round_trip_witness:
  "\<exists>e'. cacheMonitor ref_services (row_monitor row1) (calm mem0) = (e', None) \<and>
     snd (getCachedMonitor ref_services id1 e') = Inr (row_monitor row1)"
proof -
  have "ascii_monitor (row_monitor row1)"
    by (simp add: ascii_monitor_def row_monitor_def row1_def FromPgText_def)
  moreover have "mon_ID (row_monitor row1) = id1" by (simp add: row1_def)
  ultimately show ?thesis using cache_round_trip [OF ref.monit_axioms live_calm(1)] by metis
qed

text \<open>C24: an interval of any \<^verbatim>\<open>int32\<close> seconds becomes a duration without overflow.\<close>

theorem interval_no_overflow: "seconds n = sint n * Second"
  by (rule seconds_eq)

section \<open>Users and requests\<close>





text \<open>
  C27: a login with an unknown e-mail and one with a wrong password are refused alike, with status 401
  and the same message, and change nothing.
\<close>

theorem login_refusal_uniform:
  assumes "reliable e" and "wf_tables (db e)" and "LogIn x sec ts data e = (e', r)"
    and "\<forall>row \<in> set (users (db e)). u_Email row = luc_Email data \<longrightarrow>
      ComparePassword sec (luc_Password data) (u_PasswordHash row) \<noteq> Inr True"
  shows "\<exists>err. r = Inl err \<and> kv e' = kv e \<and> db e' = db e \<and>
    FromAppError reqID err = WriteError 401 reqID Unauthorised ''incorrect email or password''"
  using LogIn_refused [OF assms] LogIn_frame [OF assms(3)]
  by (simp add: bad_login_def GetHTTPStatus_def kind_defs)

theorem login_refusal_uniform_witness:
  "\<exists>err. snd (LogIn ref_services ref_security ts1 \<lparr>luc_Email = ''ann@example.org'', luc_Password = ''12345678''\<rparr> (calm mem0)) = Inl err \<and>
     FromAppError ''r'' err = WriteError 401 ''r'' Unauthorised ''incorrect email or password''"
proof -
  have "\<forall>row \<in> set (users (db (calm mem0))). u_Email row = luc_Email \<lparr>luc_Email = ''ann@example.org'', luc_Password = ''12345678''\<rparr> \<longrightarrow>
      ComparePassword ref_security (luc_Password \<lparr>luc_Email = ''ann@example.org'', luc_Password = ''12345678''\<rparr>) (u_PasswordHash row) \<noteq> Inr True"
    by (simp add: calm_def tables1_def user1_def ComparePassword_def ref_security_def)
  moreover have "wf_tables (db (calm mem0))" by (simp add: calm_def)
  ultimately show ?thesis using login_refusal_uniform [OF reliable_calm _ prod.collapse [symmetric]] by blast
qed

section \<open>The executor\<close>


text \<open>
  C29: a check succeeds exactly when there is a response with the expected status within the
  latency threshold; the check changes neither Redis nor the database, its result carries the
  monitor's id, and a failed exchange or a malformed request is reported as a failure with the
  reason of its class.
\<close>

theorem check_verdict:
  assumes "executeHTTPCheck http m e = (e', r)"
  shows "kv e' = kv e \<and> db e' = db e \<and> hr_MonitorID r = mon_ID m \<and>
    (hr_Success r \<longleftrightarrow> (\<exists>st. http (mon_Url m) (Suc (ticks e)) = Response st \<and> st = sint (mon_ExpectedStatus m) \<and>
      Milliseconds (clock e (Suc (ticks e)) - clock e (ticks e)) \<le> sint (mon_LatencyThresholdMs m))) \<and>
    (\<forall>err. http (mon_Url m) (Suc (ticks e)) = BadRequest err \<longrightarrow> verdict_of r = Terminal) \<and>
    (\<forall>cause. http (mon_Url m) (Suc (ticks e)) = DoFailed cause \<longrightarrow>
       (hr_Reason r, hr_Retryable r) = classifyError (URLError cause))"
proof -
  have "\<forall>err. http (mon_Url m) (Suc (ticks e)) = BadRequest err \<longrightarrow> verdict_of r = Terminal"
    "\<forall>cause. http (mon_Url m) (Suc (ticks e)) = DoFailed cause \<longrightarrow>
       (hr_Reason r, hr_Retryable r) = classifyError (URLError cause)"
    using assms by (auto simp: executeHTTPCheck_def time_now_def Let_def verdict_of_def split: prod.splits)
  with executeHTTPCheck_result [OF assms] show ?thesis by blast
qed

theorem check_verdict_witness:
  "hr_Success (snd (executeHTTPCheck (\<lambda>url n. Response 200) (row_monitor row1) (calm mem0)))"
proof -
  have "Milliseconds (clock (calm mem0) (Suc (ticks (calm mem0))) - clock (calm mem0) (ticks (calm mem0))) = 1"
    by code_simp
  then show ?thesis
    using check_verdict [OF prod.collapse [symmetric], of "\<lambda>url n. Response 200" "row_monitor row1" "calm mem0"]
    by (simp add: row_monitor_def row1_def)
qed

text \<open>
  C30: a worker's handling of a job keeps the invariant in every environment, may change only the
  cached copy of that monitor and the schedule, never acknowledges the job itself, and a result
  it sends is for the job's monitor, which exists.
\<close>

theorem worker_handles_job:
  assumes "monit x" and "service_inv x e" and "work_job x http job e = (e', r)"
  shows "service_inv x e' \<and> db e' = db e \<and> zset (vw x e') inflightKey = zset (vw x e) inflightKey \<and>
    touches {monitorKey (uuid_string x (job_MonitorID job)), scheduleKey} (vw x e) (vw x e') \<and>
    (\<forall>res. r = Some res \<longrightarrow> hr_MonitorID res = job_MonitorID job \<and>
       job_MonitorID job \<in> m_ID ` set (monitors (db e)))"
proof -
  note w = monit.work_job_inv [OF assms]
  have "inflightKey \<notin> {monitorKey (uuid_string x (job_MonitorID job)), scheduleKey}"
    using monit.keys_differ [OF assms(1)] by simp
  with w touches_views(2) show ?thesis by blast
qed

theorem worker_handles_job_witness:
  "\<exists>res. snd (work_job ref_services (\<lambda>url n. Response 200) (JobPayload id1) (calm mem0)) = Some res \<and>
     hr_MonitorID res = id1"
proof -
  let ?run = "work_job ref_services (\<lambda>url n. Response 200) (JobPayload id1) (calm mem0)"
  have "snd ?run \<noteq> None"
    by (simp add: work_job_def LoadMonitor_def getCachedMonitor_def GetMonitor_cache_def rcall_def calm_def
        ref_services_def mem_redis_def mem0_def repo_GetByID_def dcall_def getMonitorByID_sql_def
        tables1_def row1_def row2_def case_prod_unfold)
  then obtain res where "snd ?run = Some res" by blast
  with worker_handles_job [OF ref.monit_axioms service_inv_calm(1) prod.collapse [symmetric]] show ?thesis
    by (metis jobPayload.sel)
qed

section \<open>The Redis client\<close>




text \<open>
  C32: scheduling is safe to retry: whether answers are lost or not, a \<^verbatim>\<open>Schedule\<close> that reports no
  error has set the score of that one member, and one that reports an error has done so or has
  changed nothing; with typed keys and a delivered call it reports no error.
\<close>

theorem schedule_is_idempotent:
  assumes "monit x" and "Schedule x m t e = (e', r)"
  shows "(r = None \<longrightarrow> vw x e' = put_zset scheduleKey ((zset (vw x e) scheduleKey)(m \<mapsto> UnixMilli t)) (vw x e)) \<and>
    (r \<noteq> None \<longrightarrow> vw x e' = vw x e \<or>
       vw x e' = put_zset scheduleKey ((zset (vw x e) scheduleKey)(m \<mapsto> UnixMilli t)) (vw x e)) \<and>
    (reliable e \<longrightarrow> typed x (vw x e) \<longrightarrow> r = None)"
  using monit.Schedule_applied [OF assms(1), of m t e] assms(2) by (simp add: applied_def sched_at_def)

theorem schedule_is_idempotent_witness:
  "zset (vw ref_services (fst (Schedule ref_services ''m'' (7 * Second) (calm mem1)))) scheduleKey ''m'' = Some 7000"
proof -
  let ?run = "Schedule ref_services ''m'' (7 * Second) (calm mem1)"
  have "snd ?run = None" "UnixMilli (7 * Second) = 7000" by code_simp+
  with schedule_is_idempotent [OF ref.monit_axioms prod.collapse [symmetric], of "''m''" "7 * Second" "calm mem1"]
  show ?thesis by simp
qed

section \<open>Errors\<close>


section \<open>Behaviours worth knowing\<close>

text \<open>
  C34: a request to disable a monitor is always refused, as \<^verbatim>\<open>required\<close> on the flag rejects the value
  false: no state changes, so the API can enable monitors and not disable them.
\<close>

theorem disable_request_rejected:
  assumes "validator_tags validate" and "decode_updateStatus (rq_body r) = Some q" and "\<not> umr_Enable q"
    and "h_UpdateMonitorStatus x validate r e = (e', resp)"
  shows "e' = e \<and> refusal resp \<and> rs_status resp \<in> {400, 401}"
  using assms validator_tags.required_bool [OF assms(1), of False]
  by (auto simp: h_UpdateMonitorStatus_def Let_def validStruct_def updateStatus_tags_def split: option.splits)

theorem disable_request_rejected_witness:
  "fst (h_UpdateMonitorStatus ref_services ref_validate disable1 (calm mem0)) = calm mem0 \<and>
   refusal (snd (h_UpdateMonitorStatus ref_services ref_validate disable1 (calm mem0)))"
proof -
  have "decode_updateStatus (rq_body disable1) = Some \<lparr>umr_Enable = False\<rparr>" by code_simp
  from disable_request_rejected [OF ref_tags.validator_tags_axioms this _ prod.collapse [symmetric]] show ?thesis by auto
qed

text \<open>
  C35: the shutdown can panic: there is a run of a process that \<^verbatim>\<open>main\<close> has started in which
  the scheduler, still busy with its batch when the job channel is closed, sends on it.
\<close>

theorem shutdown_can_panic:
  "\<exists>cfg p e s. main (\<lambda>path. Inr path) (\<lambda>defaults file. Inr cfg) ref_validate ref_pgx ref_redis = Inr p \<and>
     service_inv ref_services e \<and> reach ref_services ref_security ref_validate up (pr_container p) e s \<and> s_panic s"
proof -
  have "reach1 (closing\<lparr>s_panic := True\<rparr>)" by (rule reach.step [OF closing_reached closing_state(4) closing_panics])
  moreover have "s_panic (closing\<lparr>s_panic := True\<rparr>)" by simp
  ultimately show ?thesis using process1_main service_inv_calm(2) unfolding container1_def by blast
qed

text \<open>
  C36: the executor fills in no interval, so a monitor whose check succeeds is scheduled for the
  moment its result is handled and not one interval later.
\<close>

theorem success_reruns_at_once:
  assumes "monit x" and "work_job x http job e = (e1, Some r)" and "live x e1"
  shows "\<exists>n. zset (vw x (handleSuccess x r e1)) scheduleKey (uuid_string x (hr_MonitorID r)) =
    Some (UnixMilli (clock e1 n))"
proof -
  have "hr_IntervalSec r = 0"
    using assms(2) by (cases rule: work_job_cases) (auto dest: executeHTTPCheck_result(5))
  with monit.handleSuccess_live [OF assms(1,3) refl, of r] show ?thesis by (simp add: next_at_def)
qed

theorem success_reruns_at_once_witness:
  "\<exists>e1 r n. work_job ref_services (\<lambda>url n. Response 200) (JobPayload id1) (calm mem0) = (e1, Some r) \<and>
     zset (vw ref_services (handleSuccess ref_services r e1)) scheduleKey (uuid_string ref_services (hr_MonitorID r)) =
       Some (UnixMilli (clock e1 n))"
proof -
  let ?run = "work_job ref_services (\<lambda>url n. Response 200) (JobPayload id1) (calm mem0)"
  have "snd ?run \<noteq> None"
    by (simp add: work_job_def LoadMonitor_def getCachedMonitor_def GetMonitor_cache_def rcall_def calm_def
        ref_services_def mem_redis_def mem0_def repo_GetByID_def dcall_def getMonitorByID_sql_def
        tables1_def row1_def row2_def case_prod_unfold)
  then obtain e1 r where run: "?run = (e1, Some r)" by (metis not_Some_eq prod.collapse)
  have "live ref_services e1"
    using ref.work_job_inv [OF service_inv_calm(1) run] reliable_later [OF reliable_calm]
    by (auto simp: live_def service_inv_def)
  with run success_reruns_at_once [OF ref.monit_axioms run] show ?thesis by blast
qed

text \<open>
  C37: a job of a deleted or disabled monitor is dropped without being acknowledged: it stays in
  flight, so the reclaimer will hand it out again after its deadline, and so on.
\<close>

theorem dropped_job_stays_inflight:
  assumes "monit x" and "service_inv x e" and "LoadMonitor x (job_MonitorID job) e = (e1, l)"
    and "(\<exists>err. l = Inl err \<and> IsKind err NotFound) \<or> (\<exists>m. l = Inr m \<and> mon_Enabled m = False)"
    and "work_job x http job e = (e', r)"
  shows "r = None \<and> zset (vw x e') inflightKey = zset (vw x e) inflightKey \<and>
    zset (vw x e') scheduleKey = zset (vw x e) scheduleKey"
proof -
  have e': "e' = e1" "r = None" using assms(3-5) by (auto simp: work_job_def)
  have "touches {monitorKey (uuid_string x (job_MonitorID job))} (vw x e) (vw x e1)"
    using monit.LoadMonitor_result [OF assms(1-3)] by blast
  from touches_views(2) [OF this] e' show ?thesis
    using monit.keys_differ [OF assms(1)] by simp
qed

theorem dropped_job_stays_inflight_witness:
  "zset (vw ref_services (fst (work_job ref_services (\<lambda>url n. Response 200) (JobPayload 99) (calm mem1)))) inflightKey =
     zset (vw ref_services (calm mem1)) inflightKey"
proof -
  have "(99 :: uuid) \<notin> m_ID ` set (monitors (db (calm mem1)))"
    by (simp add: calm_def tables1_def row1_def row2_def id1_def id2_def)
  then obtain e1 err where "LoadMonitor ref_services (job_MonitorID (JobPayload 99)) (calm mem1) = (e1, Inl err)"
      "IsKind err NotFound"
    using ref.LoadMonitor_reliable [OF service_inv_calm(2) reliable_calm prod.collapse [symmetric], of 99]
    by (metis jobPayload.sel prod.collapse)
  with dropped_job_stays_inflight [OF ref.monit_axioms service_inv_calm(2) this(1) _ prod.collapse [symmetric]]
  show ?thesis by blast
qed

text \<open>
  C38: enabling a monitor does not invalidate its cached copy: if that copy says disabled, the
  executor still sees a disabled monitor after the change, although the database says enabled.
\<close>

theorem enabling_leaves_stale_cache:
  assumes "monit x" and "service_inv x e" and "reliable e"
    and "row \<in> set (monitors (db e))" and "\<not> m_Enabled row"
    and "str (vw x e) (monitorKey (uuid_string x (m_ID row))) = Some (json_encode x (marshal_monitor x (row_monitor row)))"
    and "UpdateMonitorStatus x (m_UserID row) (m_ID row) True e = (e1, r)"
  shows "row\<lparr>m_Enabled := True\<rparr> \<in> set (monitors (db e1)) \<and>
    (\<exists>m. snd (LoadMonitor x (m_ID row) e1) = Inr m \<and> mon_Enabled m = False)"
proof -
  let ?i = "uuid_string x (m_ID row)" and ?d = "json_encode x (marshal_monitor x (row_monitor row))"
  obtain now where r: "r = Inr True" and v: "vw x e1 = sched_at ?i (UnixMilli (now + sint (m_IntervalSec row) * Second)) (vw x e)"
    using monit.UpdateMonitorStatus_reliable [OF assms(1-4) _ assms(7)] assms(5) by auto
  note res = monit.UpdateMonitorStatus_result [OF assms(1,2,7)]
  have row: "row\<lparr>m_Enabled := True\<rparr> \<in> set (monitors (db e1))"
    using res r assms(4) by (auto simp: updateMonitorStatus_sql_def set_enabled_def image_iff intro!: bexI [of _ row])
  have rel: "reliable e1" using res assms(3) by (auto intro: reliable_later)
  have "str (vw x e1) (monitorKey ?i) = Some ?d"
    using assms(6) monit.keys_differ [OF assms(1)] by (simp add: v sched_at_def)
  moreover obtain e2 c where c: "getCachedMonitor x (m_ID row) e1 = (e2, c)" by (cases "getCachedMonitor x (m_ID row) e1")
  ultimately have "c = unmarshal_monitor x ?d"
    using monit.getCachedMonitor_result(5) [OF assms(1) c rel] by simp
  moreover have "ascii_monitor (row_monitor row)" using assms(2,4) by (auto simp: service_inv_def ascii_tables_def)
  ultimately have "c = Inr (row_monitor row)" using monit.unmarshal_marshal [OF assms(1)] by simp
  with c row assms(5) show ?thesis by (simp add: LoadMonitor_def)
qed

theorem enabling_leaves_stale_cache_witness:
  "\<exists>e m. mon_Enabled m = False \<and> snd (LoadMonitor ref_services id2
     (fst (UpdateMonitorStatus ref_services owner id2 True e))) = Inr m"
proof -
  let ?e = "fst (cacheMonitor ref_services (row_monitor row2) (calm mem0))"
  let ?k = "monitorKey (uuid_string ref_services id2)"
  have row: "row2 \<in> set (monitors (db (calm mem0)))" "\<not> m_Enabled row2" "m_ID row2 = id2" "m_UserID row2 = owner"
    by (simp_all add: calm_def tables1_def row2_def row1_def)
  note cm = ref.cacheMonitor_result [OF service_inv_calm(1) row(1)]
  have rel: "reliable ?e" using reliable_calm cm(2) by (rule reliable_later)
  have "vw ref_services ?e = put_ttl ?k (24 * Hour) (put_str ?k
      (json_encode ref_services (marshal_monitor ref_services (row_monitor row2))) (vw ref_services (calm mem0)))"
    using appliedD(6) [OF ref.SetMonitor_applied [of "uuid_string ref_services id2" "24 * Hour"
          "json_encode ref_services (marshal_monitor ref_services (row_monitor row2))" "calm mem0"]] row(3)
    by (simp add: cacheMonitor_def)
  then have d: "str (vw ref_services ?e) (monitorKey (uuid_string ref_services (m_ID row2))) =
      Some (json_encode ref_services (marshal_monitor ref_services (row_monitor row2)))"
    by (simp add: row(3))
  have "row2 \<in> set (monitors (db ?e))" using row(1) cm(3) by simp
  from enabling_leaves_stale_cache [OF ref.monit_axioms cm(1) rel this row(2) d prod.collapse [symmetric]]
  show ?thesis using row(3,4) by metis
qed




end
